(* ===== verification/PG_Prelude.thy ===== *)
theory PG_Prelude
  imports Main "HOL-Library.Word"
begin

text \<open>
  Shared vocabulary of the development.

  \<^item> Machine integers: \<open>u8\<close>, \<open>u16\<close>, \<open>u32\<close> and \<open>u64\<close> are the C types \<open>uint8_t\<close> to
    \<open>uint64_t\<close>. A C counter kept as a \<open>nat\<close> is updated with \<open>inc16\<close> and \<open>dec16\<close>, which
    write the 16-bit wrap-around out.
  \<^item> Effects: \<open>('a, 's) out\<close> is the outcome of a C function that may change the state
    \<open>'s\<close>. \<open>Ret x s\<close> is a normal return of \<open>x\<close> in the state \<open>s\<close>, \<open>Abort r\<close> a call of
    \<open>abort\<close>, \<open>g_assert\<close> or \<open>pg_panic\<close>, or an access through a dangling pointer, and
    \<open>Diverge\<close> stands for a call that used up its fuel. \<open>obind\<close> sequences two calls.
  \<^item> Sides: \<open>pg_side\<close> has the two sides a brick has; \<open>PG_MAX_SIDE\<close>, which the C
    enumeration uses as a bound and as "no side", is the missing value of an option.
\<close>

unbundle bit_operations_syntax

type_synonym u8 = "8 word"
type_synonym u16 = "16 word"
type_synonym u32 = "32 word"
type_synonym u64 = "64 word"

named_theorems out_simps \<open>rewrite rules for outcomes\<close>
named_theorems mask_simps \<open>rewrite rules for packet masks\<close>

section \<open>Outcomes of C functions\<close>

datatype ('a, 's) out = Ret 'a 's | Abort string | Diverge

fun obind :: "('a, 's) out \<Rightarrow> ('a \<Rightarrow> 's \<Rightarrow> ('b, 's) out) \<Rightarrow> ('b, 's) out" where
  "obind (Ret x s) f = f x s"
| "obind (Abort r) f = Abort r"
| "obind Diverge f = Diverge"

text \<open>A loop over a list whose body may change the state.\<close>

primrec ofold :: "('a \<Rightarrow> 's \<Rightarrow> (unit, 's) out) \<Rightarrow> 'a list \<Rightarrow> 's \<Rightarrow> (unit, 's) out" where
  "ofold f [] s = Ret () s"
| "ofold f (x # xs) s = obind (f x s) (\<lambda>_ s. ofold f xs s)"

text \<open>A loop that a \<open>return\<close> in its body can leave.\<close>

primrec oloop :: "('a \<Rightarrow> 's \<Rightarrow> ('r option, 's) out) \<Rightarrow> 'a list \<Rightarrow> 's \<Rightarrow> ('r option, 's) out" where
  "oloop f [] s = Ret None s"
| "oloop f (x # xs) s =
     obind (f x s) (\<lambda>r s. case r of None \<Rightarrow> oloop f xs s | Some r \<Rightarrow> Ret (Some r) s)"

text \<open>A loop over a list with local variables: each round gets their values and gives new ones.\<close>

primrec oacc :: "('a \<Rightarrow> 'b \<Rightarrow> 's \<Rightarrow> ('b, 's) out) \<Rightarrow> 'a list \<Rightarrow> 'b \<Rightarrow> 's \<Rightarrow> ('b, 's) out" where
  "oacc f [] acc s = Ret acc s"
| "oacc f (x # xs) acc s = obind (f x acc s) (\<lambda>acc s. oacc f xs acc s)"

text \<open>Partial correctness: if the call returns, the result and the new state satisfy \<open>Q\<close>.\<close>

definition ores :: "('a, 's) out \<Rightarrow> ('a \<Rightarrow> 's \<Rightarrow> bool) \<Rightarrow> bool" where
  "ores m Q \<longleftrightarrow> (case m of Ret x s \<Rightarrow> Q x s | Abort r \<Rightarrow> True | Diverge \<Rightarrow> True)"

text \<open>Total correctness: the call returns, and the result and the new state satisfy \<open>Q\<close>.\<close>

definition oret :: "('a, 's) out \<Rightarrow> ('a \<Rightarrow> 's \<Rightarrow> bool) \<Rightarrow> bool" where
  "oret m Q \<longleftrightarrow> (case m of Ret x s \<Rightarrow> Q x s | Abort r \<Rightarrow> False | Diverge \<Rightarrow> False)"

section \<open>Sides\<close>

datatype pg_side = PG_WEST_SIDE | PG_EAST_SIDE

fun pg_flip_side :: "pg_side \<Rightarrow> pg_side" where
  "pg_flip_side PG_WEST_SIDE = PG_EAST_SIDE"
| "pg_flip_side PG_EAST_SIDE = PG_WEST_SIDE"

definition pg_sides :: "pg_side list" where
  "pg_sides = [PG_WEST_SIDE, PG_EAST_SIDE]"

section \<open>16-bit counters\<close>

definition inc16 :: "nat \<Rightarrow> nat" where
  "inc16 n = (if n = 65535 then 0 else Suc n)"

definition dec16 :: "nat \<Rightarrow> nat" where
  "dec16 n = (if n = 0 then 65535 else n - 1)"

section \<open>Lemmas\<close>

lemma obind_assoc [out_simps]: "obind (obind m f) g = obind m (\<lambda>x s. obind (f x s) g)"
  by (cases m) auto

lemma obind_eq_Ret [out_simps]:
  "obind m f = Ret y t \<longleftrightarrow> (\<exists>x s. m = Ret x s \<and> f x s = Ret y t)"
  by (cases m) auto

lemma obind_Ret_right [simp]: "obind m (\<lambda>x s. Ret x s) = m"
  by (cases m) auto

lemma ores_simps [simp, out_simps]:
  "ores (Ret x s) Q \<longleftrightarrow> Q x s" "ores (Abort r) Q" "ores Diverge Q"
  by (simp_all add: ores_def)

lemma oret_simps [simp, out_simps]:
  "oret (Ret x s) Q \<longleftrightarrow> Q x s" "\<not> oret (Abort r) Q" "\<not> oret Diverge Q"
  by (simp_all add: oret_def)

lemma ores_obind [intro?]: "ores m (\<lambda>x s. ores (f x s) Q) \<Longrightarrow> ores (obind m f) Q"
  by (cases m) simp_all

lemma oret_obind [intro?]: "oret m (\<lambda>x s. oret (f x s) Q) \<Longrightarrow> oret (obind m f) Q"
  by (cases m) simp_all

lemma ores_mono: "ores m P \<Longrightarrow> (\<And>x s. P x s \<Longrightarrow> Q x s) \<Longrightarrow> ores m Q"
  by (cases m) simp_all

lemma oret_mono: "oret m P \<Longrightarrow> (\<And>x s. P x s \<Longrightarrow> Q x s) \<Longrightarrow> oret m Q"
  by (cases m) simp_all

lemma oret_iff: "oret m Q \<longleftrightarrow> (\<exists>x s. m = Ret x s \<and> Q x s)"
  by (cases m) simp_all

lemma ores_ofold:
  assumes "I s" and "\<And>x s. x \<in> set xs \<Longrightarrow> I s \<Longrightarrow> ores (f x s) (\<lambda>_. I)"
  shows "ores (ofold f xs s) (\<lambda>_. I)"
  using assms
proof (induction xs arbitrary: s)
  case (Cons x xs)
  have "ores (f x s) (\<lambda>_ s. ores (ofold f xs s) (\<lambda>_. I))"
    by (rule ores_mono [of _ "\<lambda>_. I"]) (use Cons in auto)
  then show ?case by (simp add: ores_obind)
qed simp

lemma oret_ofold:
  assumes "I s" and "\<And>x s. x \<in> set xs \<Longrightarrow> I s \<Longrightarrow> oret (f x s) (\<lambda>_. I)"
  shows "oret (ofold f xs s) (\<lambda>_. I)"
  using assms
proof (induction xs arbitrary: s)
  case (Cons x xs)
  have "oret (f x s) (\<lambda>_ s. oret (ofold f xs s) (\<lambda>_. I))"
    by (rule oret_mono [of _ "\<lambda>_. I"]) (use Cons in auto)
  then show ?case by (simp add: oret_obind)
qed simp

lemma ores_oloop:
  assumes "I s" and "\<And>x s. x \<in> set xs \<Longrightarrow> I s \<Longrightarrow> ores (f x s) (\<lambda>_. I)"
  shows "ores (oloop f xs s) (\<lambda>_. I)"
  using assms
proof (induction xs arbitrary: s)
  case (Cons x xs)
  have "ores (f x s) (\<lambda>r s. ores (case r of None \<Rightarrow> oloop f xs s | Some r \<Rightarrow> Ret (Some r) s) (\<lambda>_. I))"
    by (rule ores_mono [of _ "\<lambda>_. I"]) (use Cons in \<open>auto split: option.splits\<close>)
  then show ?case by (simp add: ores_obind)
qed simp

lemma oacc_append: "oacc f (xs @ ys) acc s = obind (oacc f xs acc s) (\<lambda>acc s. oacc f ys acc s)"
  by (induction xs arbitrary: acc s) (simp_all add: obind_assoc)

text \<open>Rounds that read the state only.\<close>

lemma oacc_pure:
  assumes "\<And>x acc. x \<in> set xs \<Longrightarrow> f x acc s = Ret (g x acc) s"
  shows "oacc f xs acc s = Ret (fold g xs acc) s"
  using assms by (induction xs arbitrary: acc) simp_all

lemma ofold_append: "ofold f (xs @ ys) s = obind (ofold f xs s) (\<lambda>_ s. ofold f ys s)"
  by (induction xs arbitrary: s) (simp_all add: obind_assoc)

lemma ofold_Ret: "(\<And>x s. x \<in> set xs \<Longrightarrow> f x s = Ret () (g x s)) \<Longrightarrow> ofold f xs s = Ret () (fold g xs s)"
  by (induction xs arbitrary: s) simp_all

lemma pg_flip_side_flip [simp]: "pg_flip_side (pg_flip_side s) = s"
  by (cases s) auto

lemma pg_flip_side_neq [simp]: "pg_flip_side s \<noteq> s" "s \<noteq> pg_flip_side s"
  by (cases s; simp)+

lemma pg_flip_side_eq_iff [simp]: "pg_flip_side s = pg_flip_side t \<longleftrightarrow> s = t"
  by (cases s; cases t; simp)

lemma pg_side_neq_flip: "s \<noteq> t \<longleftrightarrow> s = pg_flip_side t"
  by (cases s; cases t; simp)

lemma set_pg_sides [simp]: "set pg_sides = UNIV"
proof -
  have "x \<in> set pg_sides" for x
    by (cases x) (simp_all add: pg_sides_def)
  then show ?thesis by blast
qed

lemma distinct_pg_sides [simp]: "distinct pg_sides"
  by (simp add: pg_sides_def)

lemma inc16_eq [simp]: "n < 65535 \<Longrightarrow> inc16 n = Suc n"
  by (simp add: inc16_def)

lemma dec16_eq [simp]: "0 < n \<Longrightarrow> dec16 n = n - 1"
  by (simp add: dec16_def)

lemma dec16_inc16 [simp]: "dec16 (inc16 n) = n"
  by (simp add: dec16_def inc16_def)

lemma fold_filter_eq: "fold f (filter P xs) = fold (\<lambda>x. if P x then f x else id) xs"
  by (induction xs) (auto simp: fun_eq_iff)

lemma length_filter_upt: "length (filter R [0..<n]) = card {j. j < n \<and> R j}"
proof -
  have "length (filter R [0..<n]) = card (set (filter R [0..<n]))"
    by (rule distinct_card [symmetric]) simp
  also have "set (filter R [0..<n]) = {j. j < n \<and> R j}"
    by auto
  finally show ?thesis .
qed

lemma length_filter_less_nat:
  assumes "P i" and "\<not> Q i" and "i < n" and "\<And>j. Q j \<Longrightarrow> P j"
  shows "length (filter Q [0..<n]) < length (filter P [0..<n])"
  unfolding length_filter_upt
  by (rule psubset_card_mono) (use assms in auto)

lemma sum_list_concat: "sum_list (concat xss) = sum_list (map sum_list xss)"
  for xss :: "nat list list"
  by (induction xss) simp_all

end
