(* ===== verification/PG_Bitmask.thy ===== *)
theory PG_Bitmask
  imports PG_Prelude
begin

text \<open>
  Packet masks, \<open>src/utils/bitmask.h\<close>. A burst is an array of up to 64 packets with a
  64-bit mask of the packets it holds. The macros that walk over a mask clear its lowest
  set bit in each round; \<open>pg_foreach_bit\<close> is the list of indices such a walk visits, in
  order, and the handlers of the bricks fold over it. The lemmas show that the walk ends
  and visits exactly the set bits, once each and in increasing order. The theory also has
  the byte-order macros, for a little-endian machine.
\<close>

section \<open>Definitions\<close>

definition pg_mask_firsts :: "u8 \<Rightarrow> u64" where
  "pg_mask_firsts count =
     (if 64 \<le> count then 0xffffffffffffffff else push_bit (unat count) 1 - 1)"

definition pg_mask_count :: "u64 \<Rightarrow> nat" where
  "pg_mask_count pkts_mask = length (filter (bit pkts_mask) [0..<64])"

definition ctz64 :: "u64 \<Rightarrow> nat" where
  "ctz64 i = length (takeWhile (\<lambda>k. \<not> bit i k) [0..<64])"

definition clz64 :: "u64 \<Rightarrow> nat" where
  "clz64 i = length (takeWhile (\<lambda>k. \<not> bit i (63 - k)) [0..<64])"

definition ONE64_shl :: "nat \<Rightarrow> u64" where
  "ONE64_shl index = push_bit index 1"

definition pg_low_bit_iterate_full :: "u64 \<Rightarrow> u64 \<times> u64 \<times> nat" where
  "pg_low_bit_iterate_full msk =
     (let index = ctz64 msk; bt = ONE64_shl index in (msk AND NOT bt, bt, index))"

definition pg_low_bit_iterate :: "u64 \<Rightarrow> u64 \<times> nat" where
  "pg_low_bit_iterate msk =
     (let index = ctz64 msk; bt = ONE64_shl index in (msk AND NOT bt, index))"

definition pg_last_bit_pos :: "u64 \<Rightarrow> nat" where
  "pg_last_bit_pos msk = 64 - clz64 msk"

definition PG_CPU_TO_BE_16 :: "u16 \<Rightarrow> u16" where
  "PG_CPU_TO_BE_16 i = (push_bit 8 i) OR (drop_bit 8 i)"

definition PG_CPU_TO_BE_32 :: "u32 \<Rightarrow> u32" where
  "PG_CPU_TO_BE_32 i =
     ucast (PG_CPU_TO_BE_16 (ucast (drop_bit 16 (i AND 0xffff0000)))) OR
     push_bit 16 (ucast (PG_CPU_TO_BE_16 (ucast (i AND 0x0000ffff))))"

section \<open>The lowest set bit\<close>

lemma word64_ex_bit: "(m::u64) \<noteq> 0 \<Longrightarrow> \<exists>i<64. bit m i"
proof (rule ccontr)
  assume m: "m \<noteq> 0" and none: "\<not> (\<exists>i<64. bit m i)"
  have "m = 0"
    by (rule bit_word_eqI) (use none in auto)
  with m show False by simp
qed

lemma bit64_less: "bit (m::u64) i \<Longrightarrow> i < 64"
  using bit_imp_le_length [of m i] by simp

lemma ctz64_le: "ctz64 m \<le> 64"
  unfolding ctz64_def using length_takeWhile_le [of _ "[0..<64]"] by simp

lemma ctz64_least: "j < ctz64 m \<Longrightarrow> \<not> bit m j"
proof -
  assume j: "j < ctz64 m"
  let ?T = "takeWhile (\<lambda>i. \<not> bit m i) [0..<64]"
  have "?T ! j = [0..<64] ! j"
    using j by (simp add: ctz64_def takeWhile_nth)
  moreover have "?T ! j \<in> set ?T"
    using j by (simp add: ctz64_def)
  ultimately show ?thesis
    using j ctz64_le [of m] by (auto dest: set_takeWhileD)
qed

lemma ctz64_bit: "m \<noteq> 0 \<Longrightarrow> bit m (ctz64 m)"
proof -
  assume "m \<noteq> 0"
  then obtain i where i: "i < 64" "bit m i" using word64_ex_bit by blast
  have "ctz64 m < 64"
    using ctz64_least [of i m] i by (meson linorder_not_less order_le_less_trans)
  then have "\<not> \<not> bit m ([0..<64] ! ctz64 m)"
    unfolding ctz64_def using nth_length_takeWhile [of "\<lambda>i. \<not> bit m i" "[0..<64]"] by simp
  then show ?thesis using \<open>ctz64 m < 64\<close> by simp
qed

lemma ctz64_less: "m \<noteq> 0 \<Longrightarrow> ctz64 m < 64"
  using ctz64_bit bit64_less by blast

lemma bit_ONE64_shl [mask_simps]: "bit (ONE64_shl i) k \<longleftrightarrow> k = i \<and> i < 64"
  unfolding ONE64_shl_def push_bit_eq_mult by (auto simp: bit_exp_iff)

lemma bit_clear [mask_simps]: "bit (m AND NOT (ONE64_shl i)) k \<longleftrightarrow> bit m k \<and> k \<noteq> i"
  by (auto simp: bit_and_iff bit_not_iff bit_ONE64_shl dest: bit64_less)

lemma bit_set [mask_simps]: "i < 64 \<Longrightarrow> bit (m OR ONE64_shl i) k \<longleftrightarrow> bit m k \<or> k = i"
  by (auto simp: bit_or_iff bit_ONE64_shl)

lemma pg_mask_count_clear:
  "m \<noteq> 0 \<Longrightarrow> pg_mask_count (m AND NOT (ONE64_shl (ctz64 m))) < pg_mask_count m"
  unfolding pg_mask_count_def
  by (rule length_filter_less_nat [of _ "ctz64 m"])
     (simp_all add: ctz64_bit ctz64_less mask_simps)

section \<open>Walking over a mask\<close>

function pg_foreach_bit :: "u64 \<Rightarrow> nat list" where
  "pg_foreach_bit msk =
     (if msk = 0 then []
      else let (msk', bt, i) = pg_low_bit_iterate_full msk in i # pg_foreach_bit msk')"
  by pat_completeness auto
termination
  by (relation "measure pg_mask_count")
     (simp_all add: pg_low_bit_iterate_full_def Let_def pg_mask_count_clear)

declare pg_foreach_bit.simps [simp del]

lemma filter_upt_first:
  assumes "i < n" and "P i" and "\<And>j. j < i \<Longrightarrow> \<not> P j"
  shows "filter P [0..<n] = i # filter (\<lambda>k. P k \<and> k \<noteq> i) [0..<n]"
proof -
  have split: "[0..<n] = [0..<i] @ i # [Suc i..<n]"
  proof -
    have "[0..<n] = [0..<i] @ [i..<n]"
      using upt_add_eq_append [of 0 i "n - i"] \<open>i < n\<close> by simp
    also have "[i..<n] = i # [Suc i..<n]"
      using \<open>i < n\<close> by (rule upt_conv_Cons)
    finally show ?thesis .
  qed
  have none: "filter P [0..<i] = []" "filter (\<lambda>k. P k \<and> k \<noteq> i) [0..<i] = []"
    using assms(3) by (simp_all add: filter_empty_conv)
  have rest: "filter (\<lambda>k. P k \<and> k \<noteq> i) [Suc i..<n] = filter P [Suc i..<n]"
    by (rule filter_cong) auto
  show ?thesis unfolding split by (simp add: none rest \<open>P i\<close>)
qed

lemma pg_foreach_bit_filter: "pg_foreach_bit m = filter (bit m) [0..<64]"
proof (induction m rule: pg_foreach_bit.induct)
  case (1 m)
  show ?case
  proof (cases "m = 0")
    case True
    then show ?thesis by (simp add: pg_foreach_bit.simps)
  next
    case False
    let ?m' = "m AND NOT (ONE64_shl (ctz64 m))"
    have "pg_foreach_bit ?m' = filter (bit ?m') [0..<64]"
      using "1.IH" False by (simp add: pg_low_bit_iterate_full_def Let_def)
    also have "\<dots> = filter (\<lambda>k. bit m k \<and> k \<noteq> ctz64 m) [0..<64]"
      by (rule filter_cong) (simp_all add: bit_clear)
    finally have "pg_foreach_bit m = ctz64 m # filter (\<lambda>k. bit m k \<and> k \<noteq> ctz64 m) [0..<64]"
      using False by (simp add: pg_foreach_bit.simps [of m] pg_low_bit_iterate_full_def Let_def)
    also have "\<dots> = filter (bit m) [0..<64]"
      using ctz64_less [OF False] ctz64_bit [OF False] ctz64_least
      by (rule filter_upt_first [symmetric])
    finally show ?thesis .
  qed
qed

lemma set_pg_foreach_bit [mask_simps]: "set (pg_foreach_bit m) = {i. bit m i}"
  by (auto simp: pg_foreach_bit_filter dest: bit64_less)

lemma distinct_pg_foreach_bit [mask_simps]: "distinct (pg_foreach_bit m)"
  by (simp add: pg_foreach_bit_filter)

lemma sorted_pg_foreach_bit [mask_simps]: "sorted (pg_foreach_bit m)"
  by (simp add: pg_foreach_bit_filter sorted_wrt_filter)

lemma length_pg_foreach_bit [mask_simps]: "length (pg_foreach_bit m) = pg_mask_count m"
  by (simp add: pg_foreach_bit_filter pg_mask_count_def)

lemma pg_foreach_bit_0 [simp]: "pg_foreach_bit 0 = []"
  by (simp add: pg_foreach_bit.simps)

lemma pg_mask_count_le: "pg_mask_count m \<le> 64"
  unfolding pg_mask_count_def using length_filter_le [of _ "[0..<64]"] by simp

section \<open>Properties\<close>

text \<open>
  C14. Walking over a mask with \<open>PG_FOREACH_BIT\<close>, lowest bit first and clearing each bit it
  has seen, ends and visits exactly the indices of the set bits, each once and in
  increasing order; there are \<open>pg_mask_count\<close> of them.
\<close>

theorem pg_foreach_bit_correct:
  "pg_foreach_bit m = sorted_list_of_set {i. i < 64 \<and> bit m i} \<and>
   length (pg_foreach_bit m) = pg_mask_count m"
proof -
  have "set (pg_foreach_bit m) = {i. i < 64 \<and> bit m i}"
    by (auto simp: set_pg_foreach_bit dest: bit64_less)
  then show ?thesis
    using sorted_list_of_set.idem_if_sorted_distinct [OF sorted_pg_foreach_bit distinct_pg_foreach_bit, of m]
    by (simp add: length_pg_foreach_bit)
qed

lemma unat_u8_less: "(c::u8) < 64 \<Longrightarrow> unat c < 64"
  by (simp add: word_less_nat_alt)

text \<open>\<open>pg_mask_firsts\<close> sets exactly the first \<open>count\<close> bits, all 64 of them from 64 on.\<close>

lemma bit_pg_mask_firsts [mask_simps]:
  "bit (pg_mask_firsts count) i \<longleftrightarrow> i < 64 \<and> i < unat count"
proof (cases "64 \<le> count")
  case True
  have "(0xffffffffffffffff::u64) = - 1" by simp
  then have "bit (0xffffffffffffffff::u64) i \<longleftrightarrow> i < 64"
    using bit_minus_1_iff [where ?'a = u64, of i] by (simp only:) simp
  moreover have "64 \<le> unat count" using True by (simp add: word_le_nat_alt)
  ultimately show ?thesis using True by (auto simp: pg_mask_firsts_def)
next
  case False
  then have "unat count < 64" by (simp add: unat_u8_less)
  moreover have "push_bit (unat count) (1::u64) - 1 = mask (unat count)"
    by (simp add: mask_eq_exp_minus_1 push_bit_eq_mult)
  ultimately show ?thesis using False by (auto simp: pg_mask_firsts_def bit_mask_iff)
qed

lemma foreach_between:
  assumes "k \<le> n" and "n \<le> 64"
  shows "pg_foreach_bit (pg_mask_firsts (word_of_nat n) AND NOT (pg_mask_firsts (word_of_nat k))) = [k..<n]"
proof -
  have u: "unat (word_of_nat j :: u8) = j" if "j \<le> 64" for j
    using that by (simp add: unat_of_nat take_bit_nat_eq_self)
  have "filter (\<lambda>i. i < n \<and> \<not> i < k) [0..<64] = [k..<n]"
  proof (rule sorted_distinct_set_unique)
    show "sorted (filter (\<lambda>i. i < n \<and> \<not> i < k) [0..<64])" by (rule sorted_wrt_filter) simp
  qed (use assms in auto)
  moreover have "filter (bit (pg_mask_firsts (word_of_nat n) AND NOT (pg_mask_firsts (word_of_nat k)) :: u64)) [0..<64] =
      filter (\<lambda>i. i < n \<and> \<not> i < k) [0..<64]"
    using assms by (intro filter_cong refl) (auto simp: bit_and_iff bit_not_iff bit_pg_mask_firsts u)
  ultimately show ?thesis by (simp add: pg_foreach_bit_filter)
qed

lemma foreach_firsts: "n \<le> 64 \<Longrightarrow> pg_foreach_bit (pg_mask_firsts (word_of_nat n)) = [0..<n]"
  using foreach_between [of 0 n] by (simp add: pg_mask_firsts_def)

lemma bit_PG_CPU_TO_BE_16:
  "bit (PG_CPU_TO_BE_16 x) n \<longleftrightarrow> n < 16 \<and> bit x (if n < 8 then n + 8 else n - 8)"
proof (cases "n < 8")
  case False
  moreover have "\<not> bit x (8 + n)" if "8 \<le> n" using that bit_imp_le_length [of x "8 + n"] by auto
  ultimately show ?thesis by (auto simp: PG_CPU_TO_BE_16_def bit_simps)
qed (simp add: PG_CPU_TO_BE_16_def bit_simps add.commute)

definition join16 :: "u16 \<Rightarrow> u16 \<Rightarrow> u32" where
  "join16 a b = ucast a OR push_bit 16 (ucast b)"

lemma join16_parts:
  "ucast (join16 a b) = a" "ucast (drop_bit 16 (join16 a b)) = b"
  "join16 (ucast y) (ucast (drop_bit 16 y)) = y"
proof -
  have low: "\<not> bit a n" if "16 \<le> n" for a :: u16 and n
    using that bit_imp_le_length [of a n] by auto
  show "ucast (join16 a b) = a"
    by (rule bit_word_eqI) (auto simp: join16_def bit_simps)
  show "ucast (drop_bit 16 (join16 a b)) = b"
    by (rule bit_word_eqI) (auto simp: join16_def bit_simps low)
  show "join16 (ucast y) (ucast (drop_bit 16 y)) = y"
    by (rule bit_word_eqI) (auto simp: join16_def bit_simps)
qed

lemma PG_CPU_TO_BE_32_join16:
  "PG_CPU_TO_BE_32 y =
   join16 (PG_CPU_TO_BE_16 (ucast (drop_bit 16 y))) (PG_CPU_TO_BE_16 (ucast y))"
proof -
  have low: "bit (0xffff::u32) n \<longleftrightarrow> n < 16" for n
  proof -
    have e: "(0xffff::u32) = mask 16" by (simp add: mask_eq_exp_minus_1)
    show ?thesis unfolding e bit_mask_iff by auto
  qed
  have high: "bit (0xffff0000::u32) (16 + n) \<longleftrightarrow> n < 16" for n
  proof -
    have e: "(0xffff0000::u32) = push_bit 16 (mask 16)" by (simp add: mask_eq_exp_minus_1)
    show ?thesis unfolding e bit_push_bit_iff bit_mask_iff by auto
  qed
  have "ucast (drop_bit 16 (y AND 0xffff0000)) = (ucast (drop_bit 16 y) :: u16)"
    by (rule bit_word_eqI) (auto simp only: bit_unsigned_iff bit_drop_bit_eq o_apply bit_and_iff high; simp)
  moreover have "ucast (y AND 0x0000ffff) = (ucast y :: u16)"
    by (rule bit_word_eqI) (auto simp only: bit_unsigned_iff bit_and_iff low; simp)
  ultimately show ?thesis by (simp add: PG_CPU_TO_BE_32_def join16_def)
qed

lemma PG_CPU_TO_BE_16_twice: "PG_CPU_TO_BE_16 (PG_CPU_TO_BE_16 x) = x"
  by (rule bit_word_eqI) (auto simp: bit_PG_CPU_TO_BE_16)

text \<open>The byte-order macros are their own inverse: converting twice gives the value back.\<close>

lemma PG_CPU_TO_BE_involution:
  "PG_CPU_TO_BE_16 (PG_CPU_TO_BE_16 x) = x \<and> PG_CPU_TO_BE_32 (PG_CPU_TO_BE_32 y) = y"
  by (simp add: PG_CPU_TO_BE_16_twice PG_CPU_TO_BE_32_join16 join16_parts)

end
