(* ===== verification/PG_Mac_Table.thy ===== *)
theory PG_Mac_Table
  imports PG_Bitmask
begin

text \<open>
  The MAC table, \<open>src/utils/mac-table.h\<close> and \<open>src/utils/mac-table-it-next.h\<close>: a two-level
  array indexed by the two 24-bit halves of a MAC address, each level with a bit mask of
  the entries in use. The pointer and the element variants of the C code differ only in
  what an entry is, so one polymorphic model covers both. A missing entry of an array
  (\<open>None\<close>) is memory that was allocated and not written; \<open>sub_alloc\<close> says whether the
  array itself was allocated, \<open>tbl_env\<close> whether the table has a jump buffer. An allocation
  that fails is an argument of the operation: on failure the C code leaves through
  \<open>longjmp\<close>, which is the result \<open>False\<close> here. The interface of the table is the locale \<open>mac_map\<close>.
\<close>

section \<open>Data\<close>

definition PG_MAC_TABLE_MASK_SIZE :: nat where
  "PG_MAC_TABLE_MASK_SIZE = 0xffffff div 64 + 1"

record 'v pg_mac_table_ptr =
  sub_mask :: "nat \<Rightarrow> u64"
  sub_alloc :: bool
  sub_entries :: "nat \<Rightarrow> 'v option"

record 'v pg_mac_table =
  tbl_env :: bool
  tbl_mask :: "nat \<Rightarrow> u64"
  tbl_ptrs :: "nat \<Rightarrow> 'v pg_mac_table_ptr option"

record 'v pg_mac_table_iterator =
  it_i :: nat
  it_j :: nat
  it_m0 :: u64
  it_m1 :: u64
  it_mj :: nat
  it_mi :: nat
  it_ptr :: "'v option"

section \<open>Masks\<close>

definition pg_mac_table_is_set :: "(nat \<Rightarrow> u64) \<Rightarrow> nat \<Rightarrow> bool" where
  "pg_mac_table_is_set ma mac_p \<longleftrightarrow> ma (mac_p div 64) AND ONE64_shl (mac_p mod 64) \<noteq> 0"

definition pg_mac_table_mask_set :: "(nat \<Rightarrow> u64) \<Rightarrow> nat \<Rightarrow> (nat \<Rightarrow> u64)" where
  "pg_mac_table_mask_set ma mac_p =
     ma(mac_p div 64 := ma (mac_p div 64) OR ONE64_shl (mac_p mod 64))"

definition pg_mac_table_mask_unset :: "(nat \<Rightarrow> u64) \<Rightarrow> nat \<Rightarrow> (nat \<Rightarrow> u64)" where
  "pg_mac_table_mask_unset ma mac_p =
     ma(mac_p div 64 := ma (mac_p div 64) XOR ONE64_shl (mac_p mod 64))"

section \<open>Table operations\<close>

definition pg_mac_table_part1 :: "u64 \<Rightarrow> nat" where
  "pg_mac_table_part1 mac = unat (mac AND 0x00ffffff)"

definition pg_mac_table_part2 :: "u64 \<Rightarrow> nat" where
  "pg_mac_table_part2 mac = unat (drop_bit 24 mac AND 0x00ffffff)"

definition pg_mac_table_init :: "bool \<Rightarrow> bool \<Rightarrow> ('v pg_mac_table) option" where
  "pg_mac_table_init malloc_ok env =
     (if malloc_ok then Some \<lparr>tbl_env = env, tbl_mask = (\<lambda>_. 0), tbl_ptrs = (\<lambda>_. None)\<rparr> else None)"

definition pg_mac_table_compute_length :: "'v pg_mac_table \<Rightarrow> nat" where
  "pg_mac_table_compute_length ma =
     (\<Sum>i\<leftarrow>[0..<PG_MAC_TABLE_MASK_SIZE]. \<Sum>it\<leftarrow>pg_foreach_bit (tbl_mask ma i).
        case tbl_ptrs ma (i * 64 + it) of None \<Rightarrow> 0
        | Some imt \<Rightarrow> (\<Sum>j\<leftarrow>[0..<PG_MAC_TABLE_MASK_SIZE]. pg_mask_count (sub_mask imt j)))"

definition pg_mac_table_clear :: "'v pg_mac_table \<Rightarrow> 'v pg_mac_table" where
  "pg_mac_table_clear ma =
     fold (\<lambda>i ma.
             if tbl_mask ma i = 0 then ma
             else let ma' = fold (\<lambda>it ma. ma\<lparr>tbl_ptrs := (tbl_ptrs ma)(i * 64 + it := None)\<rparr>)
                                 (pg_foreach_bit (tbl_mask ma i)) ma
                  in ma'\<lparr>tbl_mask := (tbl_mask ma')(i := 0)\<rparr>)
          [0..<PG_MAC_TABLE_MASK_SIZE] ma"

text \<open>
  \<open>pg_mac_table_ptr_set\<close> and \<open>pg_mac_table_elem_set\<close>. The two flags say whether the
  allocations of the second-level table and of its entries succeed. \<open>Ret True\<close> is the
  normal return, \<open>Ret False\<close> the jump out of the function.
\<close>

definition pg_mac_table_alloc_fail_exeption ::
    "'v pg_mac_table \<Rightarrow> (bool, 'v pg_mac_table) out" where
  "pg_mac_table_alloc_fail_exeption ma =
     (if tbl_env ma then Ret False ma
      else Abort ''pg_mac_table: malloc fail and exeption_env is unset'')"

definition pg_mac_table_store ::
    "'v pg_mac_table \<Rightarrow> nat \<Rightarrow> nat \<Rightarrow> 'v \<Rightarrow> (bool, 'v pg_mac_table) out" where
  "pg_mac_table_store ma part1 part2 entry =
     (case tbl_ptrs ma part1 of
        None \<Rightarrow> Abort ''wild pointer''
      | Some sub \<Rightarrow>
          if \<not> sub_alloc sub then Abort ''null pointer''
          else Ret True (ma\<lparr>tbl_ptrs := (tbl_ptrs ma)(part1 \<mapsto>
            sub\<lparr>sub_mask := pg_mac_table_mask_set (sub_mask sub) part2,
                sub_entries := (sub_entries sub)(part2 \<mapsto> entry)\<rparr>)\<rparr>))"

definition pg_mac_table_ptr_set ::
    "bool \<Rightarrow> bool \<Rightarrow> 'v pg_mac_table \<Rightarrow> u64 \<Rightarrow> 'v \<Rightarrow> (bool, 'v pg_mac_table) out" where
  "pg_mac_table_ptr_set malloc1 malloc2 ma mac entry =
     (let part1 = pg_mac_table_part1 mac; part2 = pg_mac_table_part2 mac in
      if \<not> pg_mac_table_is_set (tbl_mask ma) part1 then
        if \<not> malloc1 then
          pg_mac_table_alloc_fail_exeption (ma\<lparr>tbl_ptrs := (tbl_ptrs ma)(part1 := None)\<rparr>)
        else let ma1 = ma\<lparr>tbl_ptrs := (tbl_ptrs ma)
                            (part1 \<mapsto> \<lparr>sub_mask = (\<lambda>_. 0), sub_alloc = malloc2, sub_entries = (\<lambda>_. None)\<rparr>),
                          tbl_mask := pg_mac_table_mask_set (tbl_mask ma) part1\<rparr>
             in if \<not> malloc2 then pg_mac_table_alloc_fail_exeption ma1
                else pg_mac_table_store ma1 part1 part2 entry
      else pg_mac_table_store ma part1 part2 entry)"

definition pg_mac_table_ptr_unset :: "'v pg_mac_table \<Rightarrow> u64 \<Rightarrow> int \<times> 'v pg_mac_table" where
  "pg_mac_table_ptr_unset ma mac =
     (let part1 = pg_mac_table_part1 mac; part2 = pg_mac_table_part2 mac in
      if \<not> pg_mac_table_is_set (tbl_mask ma) part1 then (-1, ma)
      else case tbl_ptrs ma part1 of None \<Rightarrow> (-1, ma)
      | Some sub \<Rightarrow>
          if \<not> pg_mac_table_is_set (sub_mask sub) part2 then (-1, ma)
          else (0, ma\<lparr>tbl_ptrs := (tbl_ptrs ma)(part1 \<mapsto>
                 sub\<lparr>sub_mask := pg_mac_table_mask_unset (sub_mask sub) part2\<rparr>)\<rparr>))"

definition pg_mac_table_ptr_get :: "'v pg_mac_table \<Rightarrow> u64 \<Rightarrow> 'v option" where
  "pg_mac_table_ptr_get ma mac =
     (let part1 = pg_mac_table_part1 mac; part2 = pg_mac_table_part2 mac in
      if \<not> pg_mac_table_is_set (tbl_mask ma) part1 then None
      else case tbl_ptrs ma part1 of None \<Rightarrow> None
      | Some sub \<Rightarrow>
          if \<not> pg_mac_table_is_set (sub_mask sub) part2 then None
          else sub_entries sub part2)"

text \<open>
  A table of elements holds the elements themselves where a table of pointers holds the
  pointers; the masks and the allocations are the same.
\<close>

definition pg_mac_table_elem_set ::
    "bool \<Rightarrow> bool \<Rightarrow> 'v pg_mac_table \<Rightarrow> u64 \<Rightarrow> 'v \<Rightarrow> (bool, 'v pg_mac_table) out" where
  "pg_mac_table_elem_set malloc1 malloc2 ma mac entry = pg_mac_table_ptr_set malloc1 malloc2 ma mac entry"

definition pg_mac_table_elem_unset :: "'v pg_mac_table \<Rightarrow> u64 \<Rightarrow> int \<times> 'v pg_mac_table" where
  "pg_mac_table_elem_unset ma mac = pg_mac_table_ptr_unset ma mac"

definition pg_mac_table_elem_get :: "'v pg_mac_table \<Rightarrow> u64 \<Rightarrow> 'v option" where
  "pg_mac_table_elem_get ma mac = pg_mac_table_ptr_get ma mac"

section \<open>Iteration\<close>

text \<open>
  The three nested loops of \<open>MAC_TABLE_IT_NEXT\<close>: the words of the first mask and the bits
  of each are \<open>pg_mac_table_it_outer\<close>, the words of a second mask \<open>pg_mac_table_it_inner\<close>.
  As in the C code, the word \<open>m1\<close> of the second mask is read again only after the first
  round (\<open>been_out\<close>). A set bit with no second-level table, which the invariant of the
  table excludes, is passed over.
\<close>

function pg_mac_table_it_inner ::
    "'v pg_mac_table_ptr \<Rightarrow> nat \<Rightarrow> u64 \<Rightarrow> bool \<Rightarrow> (nat \<times> u64 \<times> nat) option" where
  "pg_mac_table_it_inner imt j m1 been_out =
     (if j < PG_MAC_TABLE_MASK_SIZE then
        let m1 = (if been_out then sub_mask imt j else m1) in
        if m1 \<noteq> 0 then let (m1', mj) = pg_low_bit_iterate m1 in Some (j, m1', mj)
        else pg_mac_table_it_inner imt (Suc j) m1 True
      else None)"
  by pat_completeness auto
termination
  by (relation "measure (\<lambda>(imt, j, m1, b). PG_MAC_TABLE_MASK_SIZE - j)") auto

function pg_mac_table_it_outer ::
    "'v pg_mac_table \<Rightarrow> nat \<Rightarrow> u64 \<Rightarrow> nat \<Rightarrow> u64 \<Rightarrow> bool \<Rightarrow> 'v pg_mac_table_iterator option" where
  "pg_mac_table_it_outer ma i m0 j m1 been_out =
     (if i < PG_MAC_TABLE_MASK_SIZE then
        if m0 \<noteq> 0 then
          let mi = ctz64 m0 in
          case tbl_ptrs ma (i * 64 + mi) of
            None \<Rightarrow> pg_mac_table_it_outer ma i (m0 AND NOT (ONE64_shl mi)) 0 m1 True
          | Some imt \<Rightarrow>
              (case pg_mac_table_it_inner imt j m1 been_out of
                 Some (j', m1', mj) \<Rightarrow>
                   Some \<lparr>it_i = i, it_j = j', it_m0 = m0, it_m1 = m1', it_mj = mj, it_mi = mi,
                         it_ptr = sub_entries imt (j' * 64 + mj)\<rparr>
               | None \<Rightarrow> pg_mac_table_it_outer ma i (m0 AND NOT (ONE64_shl mi)) 0 0 True)
        else pg_mac_table_it_outer ma (Suc i) (tbl_mask ma (Suc i)) j m1 been_out
      else None)"
  by pat_completeness auto
termination
  by (relation "measures [\<lambda>(ma, i, m0, j, m1, b). PG_MAC_TABLE_MASK_SIZE - i,
                          \<lambda>(ma, i, m0, j, m1, b). pg_mask_count m0]")
     (auto simp: pg_mask_count_clear)

definition pg_mac_table_iterator_next ::
    "'v pg_mac_table \<Rightarrow> 'v pg_mac_table_iterator \<Rightarrow> 'v pg_mac_table_iterator" where
  "pg_mac_table_iterator_next ma it =
     (case pg_mac_table_it_outer ma (it_i it) (it_m0 it) (it_j it) (it_m1 it) False of
        Some it' \<Rightarrow> it'
      | None \<Rightarrow> it\<lparr>it_i := 0xffffffff\<rparr>)"

definition pg_mac_table_iterator_init :: "'v pg_mac_table \<Rightarrow> 'v pg_mac_table_iterator" where
  "pg_mac_table_iterator_init tbl =
     (let m0 = tbl_mask tbl 0;
          it = \<lparr>it_i = 0, it_j = 0, it_m0 = m0, it_m1 = 0, it_mj = 0, it_mi = 0, it_ptr = None\<rparr>
      in if m0 AND 1 \<noteq> 0 then
           (case tbl_ptrs tbl 0 of
              None \<Rightarrow> pg_mac_table_iterator_next tbl it
            | Some sub \<Rightarrow>
                let m1 = sub_mask sub 0 in
                if m1 AND 1 \<noteq> 0 then it\<lparr>it_ptr := sub_entries sub 0, it_m1 := m1 AND NOT 1\<rparr>
                else pg_mac_table_iterator_next tbl (it\<lparr>it_m1 := m1\<rparr>))
         else pg_mac_table_iterator_next tbl it)"

definition pg_mac_table_iterator_is_end :: "'v pg_mac_table_iterator \<Rightarrow> bool" where
  "pg_mac_table_iterator_is_end it \<longleftrightarrow> it_i it = 0xffffffff"

definition pg_mac_table_iterator_mk_key :: "'v pg_mac_table_iterator \<Rightarrow> u64" where
  "pg_mac_table_iterator_mk_key it =
     (word_of_nat (it_i it * 64 + it_mi it) AND 0x00ffffff) OR
     push_bit 24 (word_of_nat (it_j it * 64 + it_mj it))"

definition pg_mac_table_iterator_get :: "'v pg_mac_table_iterator \<Rightarrow> 'v option" where
  "pg_mac_table_iterator_get it = it_ptr it"

section \<open>Masks: lemmas\<close>

lemma AND_ONE64_shl_eq_0 [mask_simps]: "m AND ONE64_shl i = 0 \<longleftrightarrow> \<not> (bit m i \<and> i < 64)"
proof
  assume a: "m AND ONE64_shl i = 0"
  have "\<not> bit (m AND ONE64_shl i) i" unfolding a by simp
  then show "\<not> (bit m i \<and> i < 64)" by (simp add: bit_and_iff bit_ONE64_shl)
next
  assume "\<not> (bit m i \<and> i < 64)"
  then show "m AND ONE64_shl i = 0"
    by (intro bit_word_eqI) (auto simp: bit_and_iff bit_ONE64_shl)
qed

lemma is_set_bit: "pg_mac_table_is_set ma p \<longleftrightarrow> bit (ma (p div 64)) (p mod 64)"
  by (simp add: pg_mac_table_is_set_def mask_simps)

lemma div_mod_64_eq: "(p::nat) div 64 = q div 64 \<Longrightarrow> p mod 64 = q mod 64 \<Longrightarrow> p = q"
  by (metis div_mult_mod_eq)

lemma is_set_mask_set [simp]:
  "pg_mac_table_is_set (pg_mac_table_mask_set ma p) q \<longleftrightarrow> pg_mac_table_is_set ma q \<or> q = p"
  by (auto simp: is_set_bit pg_mac_table_mask_set_def bit_or_iff bit_ONE64_shl dest: div_mod_64_eq)

lemma is_set_mask_unset:
  "pg_mac_table_is_set ma p \<Longrightarrow>
   pg_mac_table_is_set (pg_mac_table_mask_unset ma p) q \<longleftrightarrow> pg_mac_table_is_set ma q \<and> q \<noteq> p"
  by (auto simp: is_set_bit pg_mac_table_mask_unset_def bit_xor_iff bit_ONE64_shl dest: div_mod_64_eq)

lemma is_set_zero [simp]: "\<not> pg_mac_table_is_set (\<lambda>_. 0) p"
  by (simp add: is_set_bit)

section \<open>The table is a map\<close>

text \<open>
  The invariant: a bit of the first mask comes with a second-level table, a bit of its
  mask with an entry, and no bit lies beyond the 24 bits of an index.
\<close>

definition mac_table_inv :: "'v pg_mac_table \<Rightarrow> bool" where
  "mac_table_inv ma \<longleftrightarrow>
     (\<forall>p. pg_mac_table_is_set (tbl_mask ma) p \<longrightarrow> p < 0x1000000 \<and>
        (\<exists>sub. tbl_ptrs ma p = Some sub \<and> sub_alloc sub \<and>
           (\<forall>q. pg_mac_table_is_set (sub_mask sub) q \<longrightarrow> q < 0x1000000 \<and> sub_entries sub q \<noteq> None)))"

definition mac_key :: "u64 \<Rightarrow> nat \<times> nat" where
  "mac_key mac = (pg_mac_table_part1 mac, pg_mac_table_part2 mac)"

fun mac_lookup :: "'v pg_mac_table \<Rightarrow> nat \<times> nat \<Rightarrow> 'v option" where
  "mac_lookup ma (p, q) =
     (if pg_mac_table_is_set (tbl_mask ma) p then
        (case tbl_ptrs ma p of None \<Rightarrow> None
         | Some sub \<Rightarrow> if pg_mac_table_is_set (sub_mask sub) q then sub_entries sub q else None)
      else None)"

lemma ptr_get_lookup: "pg_mac_table_ptr_get ma mac = mac_lookup ma (mac_key mac)"
  by (auto simp: pg_mac_table_ptr_get_def mac_key_def Let_def split: option.splits)

lemma part_less [simp]: "pg_mac_table_part1 m < 0x1000000" "pg_mac_table_part2 m < 0x1000000"
proof -
  have "unat (x AND (0x00ffffff::u64)) < 0x1000000" for x
  proof -
    have "x AND 0x00ffffff \<le> (0x00ffffff::u64)" by (rule word_and_le1)
    then have "unat (x AND (0x00ffffff::u64)) \<le> unat (0x00ffffff::u64)"
      by (simp only: word_le_nat_alt)
    then show ?thesis by simp
  qed
  then show "pg_mac_table_part1 m < 0x1000000" "pg_mac_table_part2 m < 0x1000000"
    unfolding pg_mac_table_part1_def pg_mac_table_part2_def by blast+
qed

text \<open>The map interface the bricks rely on, with the lemmas its clients need.\<close>

locale mac_map =
  fixes get :: "'t \<Rightarrow> u64 \<Rightarrow> 'v option"
    and put :: "'t \<Rightarrow> u64 \<Rightarrow> 'v \<Rightarrow> 't"
    and del :: "'t \<Rightarrow> u64 \<Rightarrow> 't"
    and inv :: "'t \<Rightarrow> bool"
    and key :: "u64 \<Rightarrow> 'k"
  assumes get_put: "inv t \<Longrightarrow> get (put t m v) m' = (if key m' = key m then Some v else get t m')"
    and get_del: "inv t \<Longrightarrow> get (del t m) m' = (if key m' = key m then None else get t m')"
    and inv_put: "inv t \<Longrightarrow> inv (put t m v)"
    and inv_del: "inv t \<Longrightarrow> inv (del t m)"
begin

lemma inv_put_all: "inv t \<Longrightarrow> inv (fold (\<lambda>m t. put t m v) ms t)"
  by (induction ms arbitrary: t) (auto intro: inv_put)

lemma get_put_all:
  "inv t \<Longrightarrow>
   get (fold (\<lambda>m t. put t m v) ms t) m' =
     (if \<exists>m \<in> set ms. key m' = key m then Some v else get t m')"
  by (induction ms arbitrary: t) (auto simp: get_put inv_put)

lemma inv_del_all: "inv t \<Longrightarrow> inv (fold (\<lambda>m t. del t m) ms t)"
  by (induction ms arbitrary: t) (auto intro: inv_del)

lemma get_del_all:
  "inv t \<Longrightarrow>
   get (fold (\<lambda>m t. del t m) ms t) m' =
     (if \<exists>m \<in> set ms. key m' = key m then None else get t m')"
  by (induction ms arbitrary: t) (auto simp: get_del inv_del)

lemma get_del_put: "inv t \<Longrightarrow> get (del (put t m v) m) m' = get (del t m) m'"
  by (simp add: get_del get_put inv_put)

end

definition mac_table_put :: "'v pg_mac_table \<Rightarrow> u64 \<Rightarrow> 'v \<Rightarrow> 'v pg_mac_table" where
  "mac_table_put ma mac v =
     (case pg_mac_table_ptr_set True True ma mac v of Ret b ma' \<Rightarrow> ma' | _ \<Rightarrow> ma)"

definition mac_table_del :: "'v pg_mac_table \<Rightarrow> u64 \<Rightarrow> 'v pg_mac_table" where
  "mac_table_del ma mac = snd (pg_mac_table_ptr_unset ma mac)"

lemma mac_table_invD:
  assumes "mac_table_inv ma" and "pg_mac_table_is_set (tbl_mask ma) p"
  obtains sub where "tbl_ptrs ma p = Some sub" and "sub_alloc sub"
    and "\<And>q. pg_mac_table_is_set (sub_mask sub) q \<Longrightarrow> q < 0x1000000 \<and> sub_entries sub q \<noteq> None"
  using assms by (auto simp: mac_table_inv_def)

lemma mac_table_inv_less:
  "mac_table_inv ma \<Longrightarrow> pg_mac_table_is_set (tbl_mask ma) p \<Longrightarrow> p < 0x1000000"
  by (simp add: mac_table_inv_def)

lemma mac_table_init_inv: "pg_mac_table_init ok env = Some ma \<Longrightarrow> mac_table_inv ma"
  by (auto simp: pg_mac_table_init_def mac_table_inv_def split: if_splits)

lemma mac_table_init_lookup: "pg_mac_table_init ok env = Some ma \<Longrightarrow> mac_lookup ma k = None"
  by (cases k) (auto simp: pg_mac_table_init_def split: if_splits)

text \<open>A successful \<open>set\<close>: the stored table, in one equation for both branches.\<close>

lemma ptr_set_ok:
  assumes "mac_table_inv ma"
  shows "\<exists>ma'. pg_mac_table_ptr_set True True ma mac v = Ret True ma' \<and> mac_table_inv ma' \<and>
           mac_lookup ma' = (mac_lookup ma)(mac_key mac \<mapsto> v)"
proof -
  let ?p = "pg_mac_table_part1 mac" and ?q = "pg_mac_table_part2 mac"
  show ?thesis
  proof (cases "pg_mac_table_is_set (tbl_mask ma) ?p")
    case True
    from mac_table_invD [OF assms True] obtain sub where sub: "tbl_ptrs ma ?p = Some sub" "sub_alloc sub"
      and subq: "\<And>q. pg_mac_table_is_set (sub_mask sub) q \<Longrightarrow> q < 0x1000000 \<and> sub_entries sub q \<noteq> None"
      by blast
    show ?thesis
      using assms True sub subq
      by (auto simp: pg_mac_table_ptr_set_def pg_mac_table_store_def Let_def mac_table_inv_def
          mac_key_def fun_eq_iff)
  next
    case False
    then show ?thesis
      using assms
      by (auto simp: pg_mac_table_ptr_set_def pg_mac_table_store_def Let_def mac_table_inv_def
          mac_key_def fun_eq_iff)
  qed
qed

lemma ptr_unset_ok:
  assumes "mac_table_inv ma"
  shows "mac_table_inv (mac_table_del ma mac) \<and>
         mac_lookup (mac_table_del ma mac) = (mac_lookup ma)(mac_key mac := None)"
proof -
  let ?p = "pg_mac_table_part1 mac" and ?q = "pg_mac_table_part2 mac"
  show ?thesis
  proof (cases "pg_mac_table_is_set (tbl_mask ma) ?p")
    case True
    from mac_table_invD [OF assms True] obtain sub where sub: "tbl_ptrs ma ?p = Some sub" "sub_alloc sub"
      and subq: "\<And>q. pg_mac_table_is_set (sub_mask sub) q \<Longrightarrow> q < 0x1000000 \<and> sub_entries sub q \<noteq> None"
      by blast
    show ?thesis
      using assms True sub subq
      by (auto simp: mac_table_del_def pg_mac_table_ptr_unset_def Let_def mac_table_inv_def
          mac_key_def fun_eq_iff is_set_mask_unset)
  next
    case False
    then show ?thesis
      using assms
      by (auto simp: mac_table_del_def pg_mac_table_ptr_unset_def Let_def mac_key_def fun_eq_iff)
  qed
qed

lemma mac_table_put_ok:
  assumes "mac_table_inv ma"
  shows "mac_table_inv (mac_table_put ma mac v)"
    and "mac_lookup (mac_table_put ma mac v) = (mac_lookup ma)(mac_key mac \<mapsto> v)"
  using ptr_set_ok [OF assms, of mac v] by (auto simp: mac_table_put_def)

interpretation mt: mac_map pg_mac_table_ptr_get mac_table_put mac_table_del mac_table_inv mac_key
  by unfold_locales (simp_all add: ptr_get_lookup mac_table_put_ok ptr_unset_ok)

section \<open>The iterator visits the keys in order\<close>

text \<open>The keys of a word of a mask, of a second-level table, and of a list of tables.\<close>

definition word_keys :: "nat \<Rightarrow> u64 \<Rightarrow> nat list" where
  "word_keys j m = map (\<lambda>k. j * 64 + k) (pg_foreach_bit m)"

definition sub_keys_from :: "'v pg_mac_table_ptr \<Rightarrow> nat \<Rightarrow> nat list" where
  "sub_keys_from sub j =
     concat (map (\<lambda>j'. word_keys j' (sub_mask sub j')) [j..<PG_MAC_TABLE_MASK_SIZE])"

definition tables_from :: "'v pg_mac_table \<Rightarrow> nat \<Rightarrow> u64 \<Rightarrow> nat list" where
  "tables_from ma i m0 =
     word_keys i m0 @
     concat (map (\<lambda>i'. word_keys i' (tbl_mask ma i')) [Suc i..<PG_MAC_TABLE_MASK_SIZE])"

definition table_keys :: "'v pg_mac_table \<Rightarrow> nat \<Rightarrow> (nat \<times> nat) list" where
  "table_keys ma p =
     (case tbl_ptrs ma p of None \<Rightarrow> [] | Some sub \<Rightarrow> map (Pair p) (sub_keys_from sub 0))"

fun keys_ahead ::
    "'v pg_mac_table \<Rightarrow> nat list \<Rightarrow> nat \<Rightarrow> u64 \<Rightarrow> bool \<Rightarrow> (nat \<times> nat) list" where
  "keys_ahead ma [] j m1 b = []"
| "keys_ahead ma (p # ps) j m1 b =
     (case tbl_ptrs ma p of None \<Rightarrow> []
      | Some sub \<Rightarrow> map (Pair p) (word_keys j (if b then sub_mask sub j else m1) @
                                  sub_keys_from sub (Suc j))) @
     concat (map (table_keys ma) ps)"

definition it_key :: "'v pg_mac_table_iterator \<Rightarrow> nat \<times> nat" where
  "it_key it = (it_i it * 64 + it_mi it, it_j it * 64 + it_mj it)"

definition it_ahead :: "'v pg_mac_table \<Rightarrow> 'v pg_mac_table_iterator \<Rightarrow> (nat \<times> nat) list" where
  "it_ahead ma it =
     (if PG_MAC_TABLE_MASK_SIZE \<le> it_i it then []
      else keys_ahead ma (tables_from ma (it_i it) (it_m0 it)) (it_j it) (it_m1 it) False)"

lemma pg_foreach_bit_Cons:
  "m \<noteq> 0 \<Longrightarrow> pg_foreach_bit m = ctz64 m # pg_foreach_bit (m AND NOT (ONE64_shl (ctz64 m)))"
  by (simp add: pg_foreach_bit.simps [of m] pg_low_bit_iterate_full_def Let_def)

lemma word_keys_0 [simp]: "word_keys j 0 = []"
  by (simp add: word_keys_def)

lemma word_keys_Cons:
  "m \<noteq> 0 \<Longrightarrow> word_keys j m = (j * 64 + ctz64 m) # word_keys j (m AND NOT (ONE64_shl (ctz64 m)))"
  by (simp add: word_keys_def pg_foreach_bit_Cons)

lemma sub_keys_from_Suc:
  "j < PG_MAC_TABLE_MASK_SIZE \<Longrightarrow>
   sub_keys_from sub j = word_keys j (sub_mask sub j) @ sub_keys_from sub (Suc j)"
  by (simp add: sub_keys_from_def upt_conv_Cons)

lemma sub_keys_from_end: "PG_MAC_TABLE_MASK_SIZE \<le> j \<Longrightarrow> sub_keys_from sub j = []"
  by (simp add: sub_keys_from_def)

lemma MASK_SIZE_pos [simp]: "0 < PG_MAC_TABLE_MASK_SIZE" "PG_MAC_TABLE_MASK_SIZE < 0xffffffff"
  "PG_MAC_TABLE_MASK_SIZE \<noteq> 0" "PG_MAC_TABLE_MASK_SIZE \<le> 0xffffffff" "\<not> 0xffffffff < PG_MAC_TABLE_MASK_SIZE"
  by (simp_all add: PG_MAC_TABLE_MASK_SIZE_def)

declare pg_mac_table_it_inner.simps [simp del] pg_mac_table_it_outer.simps [simp del]

lemma it_inner_spec:
  assumes "j < PG_MAC_TABLE_MASK_SIZE"
  shows "case pg_mac_table_it_inner sub j m1 b of
      None \<Rightarrow> word_keys j (if b then sub_mask sub j else m1) @ sub_keys_from sub (Suc j) = []
    | Some (j', m1', mj) \<Rightarrow> j' < PG_MAC_TABLE_MASK_SIZE \<and>
        word_keys j (if b then sub_mask sub j else m1) @ sub_keys_from sub (Suc j) =
        (j' * 64 + mj) # word_keys j' m1' @ sub_keys_from sub (Suc j')"
  using assms
proof (induction sub j m1 b rule: pg_mac_table_it_inner.induct)
  case (1 sub j m1 b)
  let ?m = "if b then sub_mask sub j else m1"
  show ?case
  proof (cases "?m = 0")
    case False
    then show ?thesis
      using "1.prems"
      by (simp add: pg_mac_table_it_inner.simps [of sub j m1 b] pg_low_bit_iterate_def Let_def
          word_keys_Cons)
  next
    case zero: True
    then have step: "pg_mac_table_it_inner sub j m1 b = pg_mac_table_it_inner sub (Suc j) 0 True"
      using "1.prems" by (simp add: pg_mac_table_it_inner.simps [of sub j m1 b] Let_def)
    show ?thesis
    proof (cases "Suc j < PG_MAC_TABLE_MASK_SIZE")
      case True
      note IH = "1.IH" [OF "1.prems" refl _ True]
      show ?thesis
        unfolding step zero sub_keys_from_Suc [OF True, of sub] using IH zero
        by (auto simp: word_keys_def split: option.splits)
    next
      case False
      then have "pg_mac_table_it_inner sub (Suc j) 0 True = None"
        by (simp add: pg_mac_table_it_inner.simps [of sub "Suc j"])
      then show ?thesis using step zero False by (simp add: sub_keys_from_end)
    qed
  qed
qed

text \<open>All tables of the list are there.\<close>

definition tables_ok :: "'v pg_mac_table \<Rightarrow> nat list \<Rightarrow> bool" where
  "tables_ok ma ps \<longleftrightarrow> (\<forall>p \<in> set ps. tbl_ptrs ma p \<noteq> None)"

lemma tables_from_Cons:
  "m0 \<noteq> 0 \<Longrightarrow>
   tables_from ma i m0 = (i * 64 + ctz64 m0) # tables_from ma i (m0 AND NOT (ONE64_shl (ctz64 m0)))"
  by (simp add: tables_from_def word_keys_Cons)

lemma tables_from_0:
  "Suc i < PG_MAC_TABLE_MASK_SIZE \<Longrightarrow> tables_from ma i 0 = tables_from ma (Suc i) (tbl_mask ma (Suc i))"
  by (simp add: tables_from_def upt_conv_Cons)

lemma tables_from_0_end: "PG_MAC_TABLE_MASK_SIZE \<le> Suc i \<Longrightarrow> tables_from ma i 0 = []"
  by (simp add: tables_from_def)

lemma keys_ahead_restart:
  "tables_ok ma ps \<Longrightarrow> keys_ahead ma ps 0 m1 True = concat (map (table_keys ma) ps)"
  by (cases ps) (auto simp: tables_ok_def table_keys_def sub_keys_from_Suc split: option.splits)

definition it_wf :: "'v pg_mac_table \<Rightarrow> 'v pg_mac_table_iterator \<Rightarrow> bool" where
  "it_wf ma it \<longleftrightarrow>
     (it_i it < PG_MAC_TABLE_MASK_SIZE \<longrightarrow>
        it_j it < PG_MAC_TABLE_MASK_SIZE \<and> tables_ok ma (tables_from ma (it_i it) (it_m0 it)))"

lemma it_outer_spec:
  assumes "i < PG_MAC_TABLE_MASK_SIZE" and "j < PG_MAC_TABLE_MASK_SIZE"
    and "tables_ok ma (tables_from ma i m0)"
  shows "case pg_mac_table_it_outer ma i m0 j m1 b of
      None \<Rightarrow> keys_ahead ma (tables_from ma i m0) j m1 b = []
    | Some it \<Rightarrow> it_i it < PG_MAC_TABLE_MASK_SIZE \<and> it_wf ma it \<and>
        keys_ahead ma (tables_from ma i m0) j m1 b = it_key it # it_ahead ma it"
  using assms
proof (induction ma i m0 j m1 b rule: pg_mac_table_it_outer.induct)
  case (1 ma i m0 j m1 b)
  note unfold = pg_mac_table_it_outer.simps [of ma i m0 j m1 b]
  show ?case
  proof (cases "m0 = 0")
    case zero: True
    show ?thesis
    proof (cases "Suc i < PG_MAC_TABLE_MASK_SIZE")
      case True
      have "tables_ok ma (tables_from ma (Suc i) (tbl_mask ma (Suc i)))"
        using "1.prems" zero tables_from_0 [OF True, of ma] by simp
      then show ?thesis
        using "1.IH"(3) [OF "1.prems"(1) _ True "1.prems"(2)] "1.prems"(1) zero
        unfolding zero tables_from_0 [OF True] by (simp add: pg_mac_table_it_outer.simps [of ma i 0])
    next
      case False
      then show ?thesis
        using "1.prems" zero
        by (simp add: pg_mac_table_it_outer.simps [of ma i 0] pg_mac_table_it_outer.simps [of ma "Suc i"]
            tables_from_0_end)
    qed
  next
    case nz: False
    let ?mi = "ctz64 m0" and ?m0' = "m0 AND NOT (ONE64_shl (ctz64 m0))"
    have tabs: "tables_from ma i m0 = (i * 64 + ?mi) # tables_from ma i ?m0'"
      using nz by (rule tables_from_Cons)
    then obtain sub where sub: "tbl_ptrs ma (i * 64 + ?mi) = Some sub"
      and ok': "tables_ok ma (tables_from ma i ?m0')"
      using "1.prems"(3) by (auto simp: tables_ok_def)
    note inner = it_inner_spec [OF "1.prems"(2), where sub = sub and ?m1.0 = m1 and b = b]
    show ?thesis
    proof (cases "pg_mac_table_it_inner sub j m1 b")
      case None
      then have res: "pg_mac_table_it_outer ma i m0 j m1 b = pg_mac_table_it_outer ma i ?m0' 0 0 True"
        using "1.prems"(1) nz sub by (simp add: unfold Let_def)
      have ahead: "keys_ahead ma (tables_from ma i m0) j m1 b =
          keys_ahead ma (tables_from ma i ?m0') 0 0 True"
        using inner None by (simp add: tabs sub keys_ahead_restart [OF ok'])
      show ?thesis
        unfolding res ahead
        using "1.IH"(2) [OF "1.prems"(1) nz refl sub None "1.prems"(1) _ ok'] by simp
    next
      case (Some r)
      obtain j' m1' mj where r: "r = (j', m1', mj)" by (cases r) auto
      then show ?thesis
        using "1.prems" nz sub Some inner tabs
        by (simp add: unfold Let_def it_wf_def it_key_def it_ahead_def)
    qed
  qed
qed

text \<open>Every step of the iterator makes progress, whatever the table.\<close>

lemma it_inner_progress:
  "pg_mac_table_it_inner sub j m1 b = Some (j', m1', mj) \<Longrightarrow>
   j' < PG_MAC_TABLE_MASK_SIZE \<and>
   (j < j' \<or> j' = j \<and> (b \<or> pg_mask_count m1' < pg_mask_count m1))"
proof (induction sub j m1 b rule: pg_mac_table_it_inner.induct)
  case (1 sub j m1 b)
  let ?m = "if b then sub_mask sub j else m1"
  have j: "j < PG_MAC_TABLE_MASK_SIZE"
    using "1.prems" by (simp add: pg_mac_table_it_inner.simps [of sub j m1 b] split: if_splits)
  show ?case
  proof (cases "?m = 0")
    case True
    then have "pg_mac_table_it_inner sub (Suc j) ?m True = Some (j', m1', mj)"
      using "1.prems" j by (simp add: pg_mac_table_it_inner.simps [of sub j m1 b] Let_def)
    from "1.IH" [OF j refl _ this] True show ?thesis by auto
  next
    case False
    then show ?thesis
      using "1.prems" j
      by (auto simp: pg_mac_table_it_inner.simps [of sub j m1 b] pg_low_bit_iterate_def Let_def
          pg_mask_count_clear split: if_splits)
  qed
qed

lemma it_outer_progress:
  "pg_mac_table_it_outer ma i m0 j m1 b = Some it \<Longrightarrow>
   it_i it < PG_MAC_TABLE_MASK_SIZE \<and> it_j it < PG_MAC_TABLE_MASK_SIZE \<and>
   (i < it_i it \<or> it_i it = i \<and>
     (pg_mask_count (it_m0 it) < pg_mask_count m0 \<or> it_m0 it = m0 \<and>
       (j < it_j it \<or> it_j it = j \<and> (b \<or> pg_mask_count (it_m1 it) < pg_mask_count m1))))"
proof (induction ma i m0 j m1 b rule: pg_mac_table_it_outer.induct)
  case (1 ma i m0 j m1 b)
  note unfold = pg_mac_table_it_outer.simps [of ma i m0 j m1 b]
  have i: "i < PG_MAC_TABLE_MASK_SIZE"
    using "1.prems" by (simp add: unfold split: if_splits)
  show ?case
  proof (cases "m0 = 0")
    case True
    then have "pg_mac_table_it_outer ma (Suc i) (tbl_mask ma (Suc i)) j m1 b = Some it"
      using "1.prems" i by (simp add: pg_mac_table_it_outer.simps [of ma i 0])
    from "1.IH"(3) [OF i _ this] True show ?thesis by auto
  next
    case nz: False
    note less = pg_mask_count_clear [OF nz]
    show ?thesis
    proof (cases "tbl_ptrs ma (i * 64 + ctz64 m0)")
      case None
      then have "pg_mac_table_it_outer ma i (m0 AND NOT (ONE64_shl (ctz64 m0))) 0 m1 True = Some it"
        using "1.prems" i nz by (simp add: unfold Let_def)
      from "1.IH"(1) [OF i nz refl None this] less show ?thesis by auto
    next
      case sub: (Some sub)
      show ?thesis
      proof (cases "pg_mac_table_it_inner sub j m1 b")
        case None
        then have "pg_mac_table_it_outer ma i (m0 AND NOT (ONE64_shl (ctz64 m0))) 0 0 True = Some it"
          using "1.prems" i nz sub by (simp add: unfold Let_def)
        from "1.IH"(2) [OF i nz refl sub None this] less show ?thesis by auto
      next
        case (Some r)
        obtain j' m1' mj where r: "r = (j', m1', mj)" by (cases r) auto
        from it_inner_progress [OF Some [unfolded r]] show ?thesis
          using "1.prems" i nz sub Some r by (auto simp: unfold Let_def)
      qed
    qed
  qed
qed

text \<open>\<open>PG_MAC_TABLE_FOREACH\<close>: the keys and the values its body sees, in order.\<close>

function pg_mac_table_foreach ::
    "'v pg_mac_table \<Rightarrow> 'v pg_mac_table_iterator \<Rightarrow> ((nat \<times> nat) \<times> 'v option) list" where
  "pg_mac_table_foreach ma it =
     (if pg_mac_table_iterator_is_end it then []
      else (it_key it, pg_mac_table_iterator_get it) #
           pg_mac_table_foreach ma (pg_mac_table_iterator_next ma it))"
  by pat_completeness auto
termination
  by (relation "measures
       [\<lambda>(ma, it). if it_i it = 0xffffffff then 0 else Suc (PG_MAC_TABLE_MASK_SIZE - it_i it),
        \<lambda>(ma, it). pg_mask_count (it_m0 it),
        \<lambda>(ma, it). PG_MAC_TABLE_MASK_SIZE - it_j it,
        \<lambda>(ma, it). pg_mask_count (it_m1 it)]")
     (auto simp: pg_mac_table_iterator_is_end_def pg_mac_table_iterator_next_def
       split: option.splits dest!: it_outer_progress)

declare pg_mac_table_foreach.simps [simp del]

lemma iterator_next_ahead:
  assumes "it_wf ma it" and "it_i it < PG_MAC_TABLE_MASK_SIZE"
  defines "it' \<equiv> pg_mac_table_iterator_next ma it"
  shows "it_wf ma it' \<and>
    (if pg_mac_table_iterator_is_end it' then it_ahead ma it = []
     else it_i it' < PG_MAC_TABLE_MASK_SIZE \<and> it_ahead ma it = it_key it' # it_ahead ma it')"
  using it_outer_spec [of "it_i it" "it_j it" ma "it_m0 it" "it_m1 it" False] assms
  by (auto simp: it_wf_def it_ahead_def pg_mac_table_iterator_next_def
      pg_mac_table_iterator_is_end_def split: option.splits)

lemma foreach_ahead:
  assumes "it_wf ma it" and "it_i it < PG_MAC_TABLE_MASK_SIZE"
  shows "map fst (pg_mac_table_foreach ma it) = it_key it # it_ahead ma it"
  using assms
proof (induction ma it rule: pg_mac_table_foreach.induct)
  case (1 ma it)
  have live: "\<not> pg_mac_table_iterator_is_end it"
    using "1.prems"(2) by (simp add: pg_mac_table_iterator_is_end_def PG_MAC_TABLE_MASK_SIZE_def)
  let ?it' = "pg_mac_table_iterator_next ma it"
  note next' = iterator_next_ahead [OF "1.prems"]
  show ?case
  proof (cases "pg_mac_table_iterator_is_end ?it'")
    case True
    then show ?thesis
      using live next' by (simp add: pg_mac_table_foreach.simps [of ma it]
          pg_mac_table_foreach.simps [of ma ?it'])
  next
    case False
    then show ?thesis
      using live next' "1.IH" [OF live] by (simp add: pg_mac_table_foreach.simps [of ma it])
  qed
qed

text \<open>The keys the masks hold, in increasing order.\<close>

definition all_tables :: "'v pg_mac_table \<Rightarrow> nat list" where
  "all_tables ma = tables_from ma 0 (tbl_mask ma 0)"

definition all_keys :: "'v pg_mac_table \<Rightarrow> (nat \<times> nat) list" where
  "all_keys ma = concat (map (table_keys ma) (all_tables ma))"

definition key_less :: "nat \<times> nat \<Rightarrow> nat \<times> nat \<Rightarrow> bool" where
  "key_less k k' \<longleftrightarrow> fst k < fst k' \<or> fst k = fst k' \<and> snd k < snd k'"

definition mask_keys :: "(nat \<Rightarrow> u64) \<Rightarrow> nat list" where
  "mask_keys ma = concat (map (\<lambda>i. word_keys i (ma i)) [0..<PG_MAC_TABLE_MASK_SIZE])"

lemma set_word_keys: "x \<in> set (word_keys j m) \<longleftrightarrow> x div 64 = j \<and> bit m (x mod 64)"
proof
  assume "x \<in> set (word_keys j m)"
  then obtain k where "x = j * 64 + k" "bit m k"
    by (auto simp: word_keys_def set_pg_foreach_bit)
  then show "x div 64 = j \<and> bit m (x mod 64)" using bit64_less [of m k] by simp
next
  assume a: "x div 64 = j \<and> bit m (x mod 64)"
  then have "x = j * 64 + x mod 64" by (metis div_mult_mod_eq)
  then show "x \<in> set (word_keys j m)"
    using a unfolding word_keys_def by (auto simp: set_pg_foreach_bit)
qed

lemma sorted_word_keys: "sorted_wrt (<) (word_keys j m)"
  by (simp add: word_keys_def sorted_wrt_map pg_foreach_bit_filter sorted_wrt_filter)

lemma sorted_concat_words:
  "sorted_wrt (<) (concat (map (\<lambda>i. word_keys i (f i)) [a..<b]))"
proof (induction b)
  case (Suc b)
  have "x < y" if "x \<in> set (concat (map (\<lambda>i. word_keys i (f i)) [a..<b]))" "y \<in> set (word_keys b (f b))"
    for x y
  proof -
    have "x div 64 < y div 64" using that by (auto simp: set_word_keys)
    then show ?thesis by (metis div_le_mono not_le)
  qed
  then show ?case using Suc by (simp add: sorted_wrt_append sorted_word_keys)
qed simp

lemma sub_keys_from_mask: "sub_keys_from sub 0 = mask_keys (sub_mask sub)"
  by (simp add: sub_keys_from_def mask_keys_def)

lemma all_tables_mask: "all_tables ma = mask_keys (tbl_mask ma)"
  by (simp add: all_tables_def tables_from_def mask_keys_def upt_conv_Cons)

lemma sorted_mask_keys: "sorted_wrt (<) (mask_keys ma)"
  unfolding mask_keys_def by (rule sorted_concat_words)

lemma div_64_less_MASK_SIZE: "x div 64 < PG_MAC_TABLE_MASK_SIZE \<longleftrightarrow> x < 0x1000000"
  by (simp add: PG_MAC_TABLE_MASK_SIZE_def div_less_iff_less_mult)

lemma set_mask_keys:
  "x \<in> set (mask_keys ma) \<longleftrightarrow> pg_mac_table_is_set ma x \<and> x < 0x1000000"
  by (auto simp: mask_keys_def set_word_keys is_set_bit div_64_less_MASK_SIZE [symmetric])

lemma sorted_keys_concat:
  assumes "sorted_wrt (<) ps" and "\<And>p k. k \<in> set (f p) \<Longrightarrow> fst k = p"
    and "\<And>p. p \<in> set ps \<Longrightarrow> sorted_wrt key_less (f p)"
  shows "sorted_wrt key_less (concat (map f ps))"
  using assms
proof (induction ps)
  case (Cons p ps)
  have "key_less k k'" if "k \<in> set (f p)" "p' \<in> set ps" "k' \<in> set (f p')" for k p' k'
    using that Cons.prems(1) Cons.prems(2) [OF that(1)] Cons.prems(2) [OF that(3)]
    by (simp add: key_less_def)
  then show ?case using Cons by (auto simp: sorted_wrt_append)
qed simp

lemma sorted_table_keys: "sorted_wrt key_less (table_keys ma p)"
  using sorted_mask_keys
  by (auto simp: table_keys_def sub_keys_from_mask sorted_wrt_map key_less_def split: option.splits)

lemma fst_table_keys: "k \<in> set (table_keys ma p) \<Longrightarrow> fst k = p"
  by (auto simp: table_keys_def split: option.splits)

lemma sorted_all_keys: "sorted_wrt key_less (all_keys ma)"
  unfolding all_keys_def all_tables_mask
  by (rule sorted_keys_concat [OF sorted_mask_keys fst_table_keys sorted_table_keys])

lemma set_all_keys:
  assumes "mac_table_inv ma" shows "set (all_keys ma) = dom (mac_lookup ma)"
proof -
  have "(p, q) \<in> set (all_keys ma) \<longleftrightarrow> (p, q) \<in> dom (mac_lookup ma)" for p q
  proof (cases "pg_mac_table_is_set (tbl_mask ma) p")
    case True
    from mac_table_invD [OF assms this] obtain sub where sub: "tbl_ptrs ma p = Some sub"
      and subq: "\<And>q. pg_mac_table_is_set (sub_mask sub) q \<Longrightarrow> q < 0x1000000 \<and> sub_entries sub q \<noteq> None"
      by blast
    have p: "p \<in> set (all_tables ma)"
      using True mac_table_inv_less [OF assms True] by (simp add: all_tables_mask set_mask_keys)
    have "(p, q) \<in> set (all_keys ma) \<longleftrightarrow> (p, q) \<in> set (table_keys ma p)"
      using p fst_table_keys [of "(p, q)" ma] by (fastforce simp: all_keys_def)
    also have "\<dots> \<longleftrightarrow> pg_mac_table_is_set (sub_mask sub) q"
      using subq [of q] by (auto simp: table_keys_def sub sub_keys_from_mask set_mask_keys)
    finally show ?thesis using True sub subq [of q] by auto
  next
    case False
    then show ?thesis
      by (auto simp: all_keys_def all_tables_mask set_mask_keys table_keys_def split: option.splits)
  qed
  then show ?thesis by auto
qed

lemma tables_ok_all: "mac_table_inv ma \<Longrightarrow> tables_ok ma (all_tables ma)"
  unfolding tables_ok_def all_tables_mask by (metis mac_table_invD option.distinct(1) set_mask_keys)

lemma AND_1_eq_0: "(m::u64) AND 1 = 0 \<longleftrightarrow> \<not> bit m 0"
  by (simp add: and_one_eq even_iff_mod_2_eq_zero bit_0)

lemma ctz64_bit0: "bit m 0 \<Longrightarrow> ctz64 m = 0"
  using ctz64_least [of 0 m] by auto

lemma foreach_next:
  assumes "it_wf ma it" and "it_i it < PG_MAC_TABLE_MASK_SIZE"
  shows "map fst (pg_mac_table_foreach ma (pg_mac_table_iterator_next ma it)) = it_ahead ma it"
proof -
  let ?it' = "pg_mac_table_iterator_next ma it"
  note next' = iterator_next_ahead [OF assms]
  show ?thesis
  proof (cases "pg_mac_table_iterator_is_end ?it'")
    case True
    then show ?thesis using next' by (simp add: pg_mac_table_foreach.simps [of ma ?it'])
  next
    case False
    then show ?thesis using next' foreach_ahead [of ma ?it'] by simp
  qed
qed

lemma foreach_init_keys:
  assumes inv: "mac_table_inv ma"
  shows "map fst (pg_mac_table_foreach ma (pg_mac_table_iterator_init ma)) =
     (if pg_mac_table_is_set (tbl_mask ma) 0 then all_keys ma
      else keys_ahead ma (all_tables ma) 0 0 False)"
proof -
  define it where "it = (\<lparr>it_i = 0, it_j = 0, it_m0 = tbl_mask ma 0, it_m1 = 0, it_mj = 0, it_mi = 0,
      it_ptr = None\<rparr> :: 'a pg_mac_table_iterator)"
  have wf: "it_wf ma (it\<lparr>it_m1 := m\<rparr>)" "it_wf ma (it\<lparr>it_m1 := m, it_ptr := e\<rparr>)" for m e
    using tables_ok_all [OF inv] by (simp_all add: it_wf_def it_def all_tables_def)
  have ahead: "it_ahead ma (it\<lparr>it_m1 := m, it_ptr := e\<rparr>) = keys_ahead ma (all_tables ma) 0 m False" for m e
    by (simp add: it_ahead_def it_def all_tables_def)
  show ?thesis
  proof (cases "pg_mac_table_is_set (tbl_mask ma) 0")
    case False
    then have "pg_mac_table_iterator_init ma = pg_mac_table_iterator_next ma it"
      by (simp add: pg_mac_table_iterator_init_def Let_def AND_1_eq_0 is_set_bit it_def)
    then show ?thesis
      using False foreach_next [OF wf(2) [where m = 0 and e = None]] ahead [where m = 0 and e = None] by (simp add: it_def)
  next
    case True
    then have b0: "bit (tbl_mask ma 0) 0" by (simp add: is_set_bit)
    from mac_table_invD [OF inv True] obtain sub where sub: "tbl_ptrs ma 0 = Some sub" by blast
    have m0: "tbl_mask ma 0 \<noteq> 0" using b0 by auto
    have tabs: "all_tables ma = 0 # tables_from ma 0 (tbl_mask ma 0 AND NOT 1)"
      using tables_from_Cons [OF m0, of ma 0] ctz64_bit0 [OF b0]
      by (simp add: all_tables_def ONE64_shl_def)
    have keys: "all_keys ma = keys_ahead ma (all_tables ma) 0 (sub_mask sub 0) False"
      by (simp add: all_keys_def tabs sub table_keys_def sub_keys_from_Suc)
    show ?thesis
    proof (cases "bit (sub_mask sub 0) 0")
      case False
      then have "pg_mac_table_iterator_init ma =
          pg_mac_table_iterator_next ma (it\<lparr>it_m1 := sub_mask sub 0, it_ptr := None\<rparr>)"
        using b0 sub by (simp add: pg_mac_table_iterator_init_def Let_def AND_1_eq_0 it_def)
      then show ?thesis
        using True foreach_next [OF wf(2) [where m = "sub_mask sub 0" and e = None]] keys
          ahead [where m = "sub_mask sub 0" and e = None] by (simp add: it_def)
    next
      case b1: True
      let ?it = "it\<lparr>it_m1 := sub_mask sub 0 AND NOT 1, it_ptr := sub_entries sub 0\<rparr>"
      have m1: "sub_mask sub 0 \<noteq> 0" using b1 by auto
      have "pg_mac_table_iterator_init ma = ?it"
        using b0 b1 sub by (simp add: pg_mac_table_iterator_init_def Let_def AND_1_eq_0 it_def)
      moreover have "it_key ?it = (0, 0)" "it_i ?it = 0" by (simp_all add: it_key_def it_def)
      moreover have "all_keys ma = (0, 0) # keys_ahead ma (all_tables ma) 0 (sub_mask sub 0 AND NOT 1) False"
        using word_keys_Cons [OF m1, of 0] ctz64_bit0 [OF b1]
        unfolding keys tabs by (simp add: sub ONE64_shl_def)
      ultimately show ?thesis
        using True foreach_ahead [OF wf(2) [where m = "sub_mask sub 0 AND NOT 1" and e = "sub_entries sub 0"]]
          ahead [where m = "sub_mask sub 0 AND NOT 1" and e = "sub_entries sub 0"] by simp
    qed
  qed
qed

text \<open>The value the iterator carries is the entry of its key.\<close>

definition it_val_ok :: "'v pg_mac_table \<Rightarrow> 'v pg_mac_table_iterator \<Rightarrow> bool" where
  "it_val_ok ma it \<longleftrightarrow>
     pg_mac_table_iterator_is_end it \<or>
     (\<exists>sub. tbl_ptrs ma (fst (it_key it)) = Some sub \<and> it_ptr it = sub_entries sub (snd (it_key it)))"

lemma it_outer_val: "pg_mac_table_it_outer ma i m0 j m1 b = Some it \<Longrightarrow> it_val_ok ma it"
proof (induction ma i m0 j m1 b rule: pg_mac_table_it_outer.induct)
  case (1 ma i m0 j m1 b)
  from "1.prems" show ?case
    by (subst (asm) pg_mac_table_it_outer.simps)
       (auto simp: Let_def it_val_ok_def it_key_def split: if_splits option.splits
         dest: "1.IH" [unfolded it_val_ok_def it_key_def])
qed

lemma iterator_next_val: "it_val_ok ma (pg_mac_table_iterator_next ma it)"
  using it_outer_val [of ma "it_i it" "it_m0 it" "it_j it" "it_m1 it" False]
  by (auto simp: pg_mac_table_iterator_next_def it_val_ok_def pg_mac_table_iterator_is_end_def
      split: option.splits)

lemma iterator_init_val: "it_val_ok ma (pg_mac_table_iterator_init ma)"
  using iterator_next_val [of ma]
  by (auto simp: pg_mac_table_iterator_init_def Let_def it_val_ok_def it_key_def split: option.splits)

lemma foreach_val:
  "it_val_ok ma it \<Longrightarrow> (k, v) \<in> set (pg_mac_table_foreach ma it) \<Longrightarrow>
   \<exists>sub. tbl_ptrs ma (fst k) = Some sub \<and> v = sub_entries sub (snd k)"
proof (induction ma it rule: pg_mac_table_foreach.induct)
  case (1 ma it)
  then show ?case
    by (auto simp: pg_mac_table_foreach.simps [of ma it] it_val_ok_def [of ma it]
        pg_mac_table_iterator_get_def iterator_next_val split: if_splits)
qed

lemma foreach_lookup:
  assumes "mac_table_inv ma" and "(k, v) \<in> set (pg_mac_table_foreach ma (pg_mac_table_iterator_init ma))"
    and "k \<in> dom (mac_lookup ma)"
  shows "v = mac_lookup ma k"
  using assms foreach_val [OF iterator_init_val assms(2)]
  by (cases k) (auto split: if_splits)

section \<open>Length and clearing\<close>

lemma length_word_keys: "length (word_keys j m) = pg_mask_count m"
  by (simp add: word_keys_def length_pg_foreach_bit)

lemma compute_length_all_keys: "pg_mac_table_compute_length ma = length (all_keys ma)"
proof -
  have "length (table_keys ma p) = (case tbl_ptrs ma p of None \<Rightarrow> 0
     | Some imt \<Rightarrow> (\<Sum>j\<leftarrow>[0..<PG_MAC_TABLE_MASK_SIZE]. pg_mask_count (sub_mask imt j)))" for p
    by (simp add: table_keys_def sub_keys_from_def length_concat o_def length_word_keys
        split: option.splits)
  then show ?thesis
    by (simp add: all_keys_def all_tables_mask mask_keys_def pg_mac_table_compute_length_def
        length_concat map_concat o_def word_keys_def sum_list_concat)
qed

lemma sorted_keys_distinct: "sorted_wrt key_less ks \<Longrightarrow> distinct ks"
  by (induction ks) (auto simp: key_less_def)

lemma distinct_all_keys: "distinct (all_keys ma)"
  using sorted_all_keys by (rule sorted_keys_distinct)

lemma length_all_keys: "mac_table_inv ma \<Longrightarrow> length (all_keys ma) = card (dom (mac_lookup ma))"
  using distinct_card [OF distinct_all_keys, of ma] by (simp add: set_all_keys)

lemma clear_bits:
  "tbl_mask (fold (\<lambda>it ma. ma\<lparr>tbl_ptrs := (tbl_ptrs ma)(f it := None)\<rparr>) its ma) = tbl_mask ma"
  by (induction its arbitrary: ma) simp_all

lemma clear_masks:
  "tbl_mask (fold (\<lambda>i ma. if tbl_mask ma i = 0 then ma
      else let ma' = fold (\<lambda>it ma. ma\<lparr>tbl_ptrs := (tbl_ptrs ma)(i * 64 + it := None)\<rparr>)
                          (pg_foreach_bit (tbl_mask ma i)) ma
           in ma'\<lparr>tbl_mask := (tbl_mask ma')(i := 0)\<rparr>) is ma) =
   (\<lambda>i. if i \<in> set is then 0 else tbl_mask ma i)"
  by (induction "is" arbitrary: ma) (auto simp: Let_def clear_bits fun_eq_iff)

lemma clear_no_bits:
  assumes "mac_table_inv ma" shows "\<not> pg_mac_table_is_set (tbl_mask (pg_mac_table_clear ma)) p"
proof
  assume a: "pg_mac_table_is_set (tbl_mask (pg_mac_table_clear ma)) p"
  then have "\<not> p div 64 < PG_MAC_TABLE_MASK_SIZE" and "pg_mac_table_is_set (tbl_mask ma) p"
    by (auto simp: is_set_bit pg_mac_table_clear_def clear_masks split: if_splits)
  then show False
    using mac_table_inv_less [OF assms] by (simp add: div_64_less_MASK_SIZE)
qed

section \<open>Properties\<close>

definition empty_table :: "nat pg_mac_table" where
  "empty_table = \<lparr>tbl_env = True, tbl_mask = (\<lambda>_. 0), tbl_ptrs = (\<lambda>_. None)\<rparr>"

lemma empty_table_inv: "mac_table_inv empty_table"
  by (simp add: empty_table_def mac_table_inv_def)

lemma empty_table_put:
  "tbl_mask (mac_table_put empty_table mac v) = pg_mac_table_mask_set (\<lambda>_. 0) (pg_mac_table_part1 mac)"
  by (simp add: empty_table_def mac_table_put_def pg_mac_table_ptr_set_def pg_mac_table_store_def Let_def)

lemma ptr_set_cases:
  assumes "mac_table_inv ma" and "tbl_env ma"
  shows "case pg_mac_table_ptr_set malloc1 malloc2 ma mac v of
      Ret stored ma' \<Rightarrow>
        (stored \<longleftrightarrow> pg_mac_table_is_set (tbl_mask ma) (pg_mac_table_part1 mac) \<or> malloc1 \<and> malloc2) \<and>
        (stored \<or> \<not> malloc1 \<longrightarrow> mac_table_inv ma') \<and>
        mac_lookup ma' = (if stored then (mac_lookup ma)(mac_key mac \<mapsto> v) else mac_lookup ma)
    | _ \<Rightarrow> False"
proof (cases "pg_mac_table_is_set (tbl_mask ma) (pg_mac_table_part1 mac) \<or> malloc1 \<and> malloc2")
  case True
  then have "pg_mac_table_ptr_set malloc1 malloc2 ma mac v = pg_mac_table_ptr_set True True ma mac v"
    by (auto simp: pg_mac_table_ptr_set_def Let_def)
  moreover obtain ma' where "pg_mac_table_ptr_set True True ma mac v = Ret True ma'" "mac_table_inv ma'"
    "mac_lookup ma' = (mac_lookup ma)(mac_key mac \<mapsto> v)"
    using ptr_set_ok [OF assms(1)] by blast
  ultimately show ?thesis using True by simp
next
  case False
  then show ?thesis
    using assms
    by (cases malloc1) (auto simp: pg_mac_table_ptr_set_def pg_mac_table_alloc_fail_exeption_def Let_def
        mac_table_inv_def fun_eq_iff)
qed

lemma ptr_unset_result:
  assumes "mac_table_inv ma"
  shows "fst (pg_mac_table_ptr_unset ma mac) = (if mac_lookup ma (mac_key mac) = None then -1 else 0)"
proof (cases "pg_mac_table_is_set (tbl_mask ma) (pg_mac_table_part1 mac)")
  case True
  from mac_table_invD [OF assms True] obtain sub where
    "tbl_ptrs ma (pg_mac_table_part1 mac) = Some sub"
    "pg_mac_table_is_set (sub_mask sub) (pg_mac_table_part2 mac) \<Longrightarrow>
     sub_entries sub (pg_mac_table_part2 mac) \<noteq> None" by metis
  then show ?thesis using True by (simp add: pg_mac_table_ptr_unset_def mac_key_def Let_def)
qed (simp add: pg_mac_table_ptr_unset_def mac_key_def Let_def)

text \<open>
  C9. The MAC table implements a finite map from the two 24-bit halves of an address to
  entries. A new table, when its array can be allocated, is the empty map. Setting an entry updates the map, or jumps out with the map unchanged when the
  allocation of a new second level fails; it never touches memory it should not. Unsetting
  removes the key and returns -1 exactly when there was none. Reading is the lookup.
\<close>

theorem mac_table_refines_map:
  fixes ma :: "'v pg_mac_table"
  assumes "mac_table_inv ma" and "tbl_env ma"
  shows "(case pg_mac_table_init malloc0 env of
      None \<Rightarrow> \<not> malloc0
    | Some ma0 \<Rightarrow> malloc0 \<and> mac_table_inv ma0 \<and> tbl_env ma0 = env \<and> mac_lookup ma0 = (\<lambda>_. None :: 'v option)) \<and>
    (case pg_mac_table_ptr_set malloc1 malloc2 ma mac v of
      Ret stored ma' \<Rightarrow>
        (stored \<longleftrightarrow> pg_mac_table_is_set (tbl_mask ma) (pg_mac_table_part1 mac) \<or> malloc1 \<and> malloc2) \<and>
        (stored \<or> \<not> malloc1 \<longrightarrow> mac_table_inv ma') \<and>
        mac_lookup ma' = (if stored then (mac_lookup ma)(mac_key mac \<mapsto> v) else mac_lookup ma)
    | _ \<Rightarrow> False) \<and>
    (case pg_mac_table_ptr_unset ma mac of (r, ma') \<Rightarrow>
        r = (if mac_lookup ma (mac_key mac) = None then -1 else 0) \<and>
        mac_table_inv ma' \<and> mac_lookup ma' = (mac_lookup ma)(mac_key mac := None)) \<and>
    pg_mac_table_ptr_get ma mac = mac_lookup ma (mac_key mac)"
proof (intro conjI)
  show "case pg_mac_table_init malloc0 env of
      None \<Rightarrow> \<not> malloc0
    | Some ma0 \<Rightarrow> malloc0 \<and> mac_table_inv ma0 \<and> tbl_env ma0 = env \<and> mac_lookup ma0 = (\<lambda>_. None :: 'v option)"
    using mac_table_init_inv [of malloc0 env] mac_table_init_lookup [of malloc0 env]
    by (auto simp: pg_mac_table_init_def fun_eq_iff split: option.splits)
  show "case pg_mac_table_ptr_unset ma mac of (r, ma') \<Rightarrow>
        r = (if mac_lookup ma (mac_key mac) = None then -1 else 0) \<and>
        mac_table_inv ma' \<and> mac_lookup ma' = (mac_lookup ma)(mac_key mac := None)"
    using ptr_unset_ok [OF assms(1), of mac] ptr_unset_result [OF assms(1), of mac]
    by (simp only: mac_table_del_def case_prod_beta)
qed (rule ptr_set_cases [OF assms], rule ptr_get_lookup)

theorem mac_table_refines_map_witness:
  "mac_table_inv empty_table \<and> tbl_env empty_table \<and>
   (\<exists>ma'. pg_mac_table_ptr_set True True empty_table 1 7 = Ret True ma' \<and>
          mac_lookup ma' = (mac_lookup empty_table)(mac_key 1 \<mapsto> 7))"
proof -
  have env: "tbl_env empty_table" by (simp add: empty_table_def)
  show ?thesis
    using mac_table_refines_map [OF empty_table_inv env, where ?malloc1.0 = True and ?malloc2.0 = True
        and mac = 1 and v = 7] empty_table_inv env
    by (cases "pg_mac_table_ptr_set True True empty_table 1 7") simp_all
qed

text \<open>
  C12. When the second of the two allocations of \<open>pg_mac_table_ptr_set\<close> fails, the bit of the
  first level stays set over a table whose array was never allocated: the next \<open>set\<close> of an
  address with the same first half follows the null pointer.
\<close>

theorem mac_table_set_after_failed_alloc:
  assumes "mac_table_inv ma" and "tbl_env ma"
    and "\<not> pg_mac_table_is_set (tbl_mask ma) (pg_mac_table_part1 mac)"
    and "pg_mac_table_part1 mac' = pg_mac_table_part1 mac"
  shows "\<exists>ma'. pg_mac_table_ptr_set True False ma mac v = Ret False ma' \<and>
           pg_mac_table_ptr_set a b ma' mac' v' = Abort ''null pointer''"
  using assms
  by (auto simp: pg_mac_table_ptr_set_def pg_mac_table_alloc_fail_exeption_def
      pg_mac_table_store_def Let_def)

theorem mac_table_set_after_failed_alloc_witness:
  "\<exists>ma'. pg_mac_table_ptr_set True False empty_table 1 7 = Ret False ma' \<and>
         pg_mac_table_ptr_set True True ma' 1 8 = Abort ''null pointer''"
  by (rule mac_table_set_after_failed_alloc [OF empty_table_inv]) (simp_all add: empty_table_def)

text \<open>
  C10. When the table of first half 0 is in use, iterating over the table visits every key
  of the map exactly once, in increasing order, with its entry.
\<close>

theorem mac_table_foreach_complete:
  assumes "mac_table_inv ma" and "pg_mac_table_is_set (tbl_mask ma) 0"
  defines "visited \<equiv> pg_mac_table_foreach ma (pg_mac_table_iterator_init ma)"
  shows "sorted_wrt key_less (map fst visited) \<and> map_of visited = (\<lambda>k. map_option Some (mac_lookup ma k))"
proof -
  have keys: "map fst visited = all_keys ma"
    unfolding visited_def using foreach_init_keys [OF assms(1)] assms(2) by simp
  have val: "v = mac_lookup ma k" if "(k, v) \<in> set visited" for k v
    using foreach_lookup [OF assms(1), of k v] that set_all_keys [OF assms(1)] keys
    by (metis fst_conv image_eqI image_set visited_def)
  have "map_of visited k = map_option Some (mac_lookup ma k)" for k
  proof (cases "map_of visited k")
    case None
    then have "k \<notin> dom (mac_lookup ma)"
      using keys set_all_keys [OF assms(1)] by (metis list.set_map map_of_eq_None_iff)
    then show ?thesis using None by (auto simp: dom_def)
  next
    case (Some v)
    then have "(k, v) \<in> set visited" by (rule map_of_SomeD)
    moreover from this have "k \<in> dom (mac_lookup ma)"
      using keys set_all_keys [OF assms(1)] by (metis fst_conv image_eqI list.set_map)
    ultimately show ?thesis using Some val [of k v] by (auto simp del: mac_lookup.simps)
  qed
  then show ?thesis using keys sorted_all_keys by auto
qed

theorem mac_table_foreach_complete_witness:
  "mac_table_inv (mac_table_put empty_table 0 7) \<and>
   map_of (pg_mac_table_foreach (mac_table_put empty_table 0 7)
     (pg_mac_table_iterator_init (mac_table_put empty_table 0 7))) (0, 0) = Some (Some 7)"
proof -
  have set: "pg_mac_table_is_set (tbl_mask (mac_table_put empty_table 0 7)) 0"
    by (simp add: empty_table_put pg_mac_table_part1_def)
  have inv: "mac_table_inv (mac_table_put empty_table 0 7)"
    by (rule mt.inv_put [OF empty_table_inv])
  have "mac_lookup (mac_table_put empty_table 0 7) (0, 0) = Some 7"
    using mac_table_put_ok(2) [OF empty_table_inv, of 0 7]
    by (simp add: mac_key_def pg_mac_table_part1_def pg_mac_table_part2_def)
  then show ?thesis
    using mac_table_foreach_complete [OF inv set] inv by simp
qed

lemma pair_diff:
  assumes "\<And>x. x \<in> R \<Longrightarrow> fst x \<noteq> p" and "\<And>x. x \<in> B \<Longrightarrow> \<not> x < n" and "\<And>x. x \<in> A \<Longrightarrow> x < n"
  shows "Pair p ` (A \<union> B) \<union> R - {p} \<times> {..<n} = Pair p ` B \<union> R"
proof -
  have "Pair p ` A - {p} \<times> {..<n} = {}" "Pair p ` B - {p} \<times> {..<n} = Pair p ` B"
    using assms(2,3) by auto
  moreover have "R - {p} \<times> {..<n} = R" using assms(1) by fastforce
  ultimately show ?thesis by (simp only: image_Un Un_Diff) simp
qed

text \<open>
  C11. When the bit of first half 0 is not set in the mask of the first level, as in a new table in
  which no address of first half 0 was stored (unsetting an address keeps the bit), the iterator
  starts with an empty word for the second mask: it passes over the entries below 64 of the
  first table in use, and visits every other key.
\<close>

theorem mac_table_foreach_skips:
  assumes "mac_table_inv ma" and "\<not> pg_mac_table_is_set (tbl_mask ma) 0"
    and "pg_mac_table_is_set (tbl_mask ma) p" and "\<And>p'. p' < p \<Longrightarrow> \<not> pg_mac_table_is_set (tbl_mask ma) p'"
  shows "fst ` set (pg_mac_table_foreach ma (pg_mac_table_iterator_init ma)) =
         dom (mac_lookup ma) - {p} \<times> {..<64}"
proof -
  have p: "p \<in> set (mask_keys (tbl_mask ma))"
    using assms(3) mac_table_inv_less [OF assms(1,3)] by (simp add: set_mask_keys)
  obtain ps where ps: "all_tables ma = p # ps"
  proof (cases "all_tables ma")
    case Nil
    then show thesis using p by (simp add: all_tables_mask)
  next
    case (Cons p' ps)
    then have "p' \<in> set (mask_keys (tbl_mask ma))" "\<forall>x \<in> set ps. p' < x"
      using sorted_mask_keys [of "tbl_mask ma"] by (auto simp: all_tables_mask)
    moreover have "p \<in> set (p' # ps)" using p Cons by (simp add: all_tables_mask)
    ultimately have "p' = p" using assms(4) [of p'] by (auto simp: set_mask_keys)
    then show thesis using Cons that by simp
  qed
  from mac_table_invD [OF assms(1,3)] obtain sub where sub: "tbl_ptrs ma p = Some sub" by blast
  define R where "R = set (concat (map (table_keys ma) ps))"
  have rest: "fst k \<noteq> p" if "k \<in> R" for k
  proof -
    have "\<forall>x \<in> set ps. p < x"
      using sorted_mask_keys [of "tbl_mask ma"] ps unfolding all_tables_mask [symmetric] by simp
    moreover from that obtain x where "x \<in> set ps" "k \<in> set (table_keys ma x)"
      by (auto simp: R_def)
    ultimately show ?thesis using fst_table_keys [of k ma x] by auto
  qed
  have high: "\<not> x < 64" if "x \<in> set (sub_keys_from sub (Suc 0))" for x
  proof -
    have "1 \<le> x div 64" using that by (auto simp: sub_keys_from_def set_word_keys)
    then show ?thesis by (auto simp: Suc_le_eq)
  qed
  have low: "x < 64" if "x \<in> set (word_keys 0 m)" for x m
    using that by (simp add: set_word_keys div_eq_0_iff)
  have keys: "table_keys ma p =
      map (Pair p) (word_keys 0 (sub_mask sub 0) @ sub_keys_from sub (Suc 0))"
    by (simp add: sub table_keys_def sub_keys_from_Suc)
  have "set (all_keys ma) =
      Pair p ` (set (word_keys 0 (sub_mask sub 0)) \<union> set (sub_keys_from sub (Suc 0))) \<union> R"
    by (simp add: all_keys_def ps keys R_def image_Un Un_assoc)
  moreover have "set (keys_ahead ma (all_tables ma) 0 0 False) =
      Pair p ` set (sub_keys_from sub (Suc 0)) \<union> R"
    by (simp add: ps sub R_def)
  ultimately have "set (keys_ahead ma (all_tables ma) 0 0 False) = set (all_keys ma) - {p} \<times> {..<64}"
    using pair_diff [OF rest high low] by simp
  moreover have "map fst (pg_mac_table_foreach ma (pg_mac_table_iterator_init ma)) =
      keys_ahead ma (all_tables ma) 0 0 False"
    using foreach_init_keys [OF assms(1)] assms(2) by simp
  ultimately show ?thesis
    using set_all_keys [OF assms(1)] by (simp only: list.set_map [symmetric])
qed

theorem mac_table_foreach_skips_witness:
  "mac_lookup (mac_table_put empty_table 1 7) (1, 0) = Some 7 \<and>
   pg_mac_table_foreach (mac_table_put empty_table 1 7)
     (pg_mac_table_iterator_init (mac_table_put empty_table 1 7)) = []"
proof -
  let ?ma = "mac_table_put empty_table 1 7"
  have key: "mac_key 1 = (1, 0)"
    by (simp add: mac_key_def pg_mac_table_part1_def pg_mac_table_part2_def)
  have bits: "pg_mac_table_is_set (tbl_mask ?ma) p \<longleftrightarrow> p = 1" for p
    using key by (simp add: empty_table_put mac_key_def)
  have inv: "mac_table_inv ?ma" by (rule mt.inv_put [OF empty_table_inv])
  have lookup: "mac_lookup ?ma = [(1, 0) \<mapsto> 7]"
    using mac_table_put_ok(2) [OF empty_table_inv, of 1 7] key
    by (simp add: empty_table_def fun_eq_iff)
  have "fst ` set (pg_mac_table_foreach ?ma (pg_mac_table_iterator_init ?ma)) =
      dom (mac_lookup ?ma) - {1} \<times> {..<64}"
    using mac_table_foreach_skips [OF inv, of 1] bits by simp
  then show ?thesis using lookup by simp
qed

text \<open>
  C13. The length of a table is the number of its keys, and clearing a table leaves a table
  without keys that satisfies the invariant again.
\<close>

theorem mac_table_length_clear:
  assumes "mac_table_inv ma"
  shows "pg_mac_table_compute_length ma = card (dom (mac_lookup ma)) \<and>
         mac_table_inv (pg_mac_table_clear ma) \<and>
         mac_lookup (pg_mac_table_clear ma) = Map.empty \<and>
         pg_mac_table_compute_length (pg_mac_table_clear ma) = 0"
proof -
  have inv: "mac_table_inv (pg_mac_table_clear ma)"
    using clear_no_bits [OF assms] by (simp add: mac_table_inv_def)
  have "mac_lookup (pg_mac_table_clear ma) = Map.empty"
    using clear_no_bits [OF assms] by (simp add: fun_eq_iff)
  then show ?thesis
    using inv assms by (simp add: compute_length_all_keys length_all_keys)
qed

theorem mac_table_length_clear_witness:
  "pg_mac_table_compute_length (mac_table_put empty_table 1 7) = 1 \<and>
   mac_lookup (pg_mac_table_clear (mac_table_put empty_table 1 7)) = Map.empty"
proof -
  have "mac_lookup (mac_table_put empty_table 1 7) = [mac_key 1 \<mapsto> 7]"
    using mac_table_put_ok(2) [OF empty_table_inv, of 1 7]
    by (simp add: empty_table_def fun_eq_iff)
  then show ?thesis
    using mac_table_length_clear [OF mt.inv_put [OF empty_table_inv], of 1 7] by simp
qed

end
