(* ===== verification/PG_World.thy ===== *)
theory PG_World
  imports PG_Mac_Table
begin

text \<open>
  The state the bricks work on. A brick is a record on a heap and a pointer to it its
  address, with \<open>None\<close> for a null pointer; a freed address is no longer on the heap. A
  packet is an \<open>rte_mbuf\<close> with its fields and the identity of its data buffer, so that a
  clone shares the bytes of its origin. An array of packet pointers is an object of its
  own: a handler passes the array on, not the packets, and two bricks can hold the same
  array. The error slot \<open>errp\<close> of the C functions is a field of the state.

  The private states of the bricks (\<open>struct pg_<brick>_state\<close>) are the constructors of
  \<open>priv\<close>, their configurations those of \<open>bconf\<close>, and the fast-path functions a brick can
  have those of \<open>burst_fn\<close> and \<open>poll_fn\<close>. The services of DPDK and the callbacks of the
  user are functions of the record \<open>ext\<close>, an argument of everything that calls them; they
  act on the packet store only.
\<close>

section \<open>Errors\<close>

record pg_error =
  err_no :: int
  err_format :: string
  err_args :: "string list"

definition pg_error_new :: "string \<Rightarrow> string list \<Rightarrow> pg_error" where
  "pg_error_new format args = \<lparr>err_no = 0, err_format = format, err_args = args\<rparr>"

definition pg_error_new_errno :: "int \<Rightarrow> string \<Rightarrow> string list \<Rightarrow> pg_error" where
  "pg_error_new_errno n format args = \<lparr>err_no = n, err_format = format, err_args = args\<rparr>"

section \<open>Packets\<close>

record mbuf =
  buf_addr :: nat
  buf_len :: nat
  data_off :: nat
  data_len :: nat
  pkt_len :: nat
  refcnt :: u16
  l2_type :: nat
  l2_len :: nat
  l3_len :: nat
  l4_len :: nat
  ol_flags :: u64
  udata64 :: u64
  nb_segs :: nat
  seg_next :: "nat option"

text \<open>
  The packet store also carries the state of everything outside the library, devices,
  kernel and packet filter, as an opaque value: a service may read and change it.
\<close>

record mstore =
  mbufs :: "nat \<Rightarrow> mbuf option"
  bufs :: "nat \<Rightarrow> nat \<Rightarrow> u8"
  outside :: nat

datatype arr = Arr nat | Emb nat nat

section \<open>Configurations and private states\<close>

datatype pg_brick_type = PG_MULTIPOLE | PG_MONOPOLE | PG_DIPOLE

record pg_udp_filter_info =
  uf_flag :: u32
  udp_src_port :: u16
  udp_dst_port :: u16

datatype bconf =
    C_diode pg_side
  | C_user_dipole nat nat
  | C_udp_filter pg_side "pg_udp_filter_info list"
  | C_accumulator "pg_side option" u64
  | C_queue nat
  | C_rxtx nat "nat option" "nat option"
  | C_packetsgen pg_side "arr option" nat
  | C_switch pg_side
  | C_antispoof pg_side "u8 list"
  | C_pmtud pg_side u32
  | C_firewall u32
  | C_nic string nat
  | C_tap string
  | C_vhost pg_side u64
  | C_vtep pg_side "u8 list" "u8 list" u16 u32
  | C_print "nat option" u32 "u16 list option"

record pg_brick_config =
  conf_name :: string
  west_max :: nat
  east_max :: nat
  conf_type :: pg_brick_type
  brick_config :: "bconf option"

datatype burst_fn =
  nop_burst_fn | diode_burst_fn | hub_burst_fn | hub_burst_one_side_fn | fail_burst_fn
  | user_dipole_burst_fn | collect_burst_fn | udp_filter_burst_fn | accumulator_burst_fn
  | queue_burst_fn | rxtx_burst_fn | packetsgen_burst_fn | switch_burst_fn
  | antispoof_burst_fn | pmtud_burst_fn | firewall_burst_fn | nic_burst_fn
  | nic_burst_no_offload_fn | tap_burst_fn | vhost_burst_fn | vtep4_burst_fn | vtep6_burst_fn | print_burst_fn

datatype poll_fn =
  accumulator_poll_fn | queue_poll_fn | rxtx_poll_fn | packetsgen_poll_fn | nic_poll_fn
  | tap_poll_fn | vhost_poll_fn

record pg_user_dipole_state =
  ud_private_data :: nat
  ud_callback :: nat

record pg_collect_state =
  col_pkts_mask :: "pg_side \<Rightarrow> u64"
  col_output :: pg_side

record pg_udp_filter_state =
  uf_to :: pg_side
  uf_filters :: "pg_udp_filter_info list"

record pg_accumulator_state =
  acc_output :: "pg_side option"
  acc_len :: "pg_side \<Rightarrow> nat"
  acc_poll_count :: "pg_side \<Rightarrow> nat"
  acc_poll_min :: nat

record pg_queue_state =
  q_output :: pg_side
  q_rx_max_size :: nat
  q_rx :: "(arr \<times> u64) list"
  q_friend :: "nat option"

record pg_rxtx_state =
  rxtx_output :: pg_side
  rxtx_private_data :: nat
  rxtx_rx :: "nat option"
  rxtx_tx :: "nat option"
  rxtx_tx_bytes :: u64
  rxtx_rx_bytes :: u64

record pg_packetsgen_state =
  pgen_output :: pg_side
  pgen_packets :: arr
  pgen_packets_nb :: nat

record pg_address_source =
  src_edge_index :: nat
  src_from :: pg_side

record pg_switch_side =
  sw_sources :: "pg_address_source list"
  sw_masks :: "u64 list"

record pg_switch_state =
  sw_table :: "(pg_side \<times> nat) pg_mac_table"
  sw_is_table_dead :: bool
  sw_output :: pg_side
  sw_sides :: "pg_side \<Rightarrow> pg_switch_side"

text \<open>The prepared ARP packet of an allowed address; the target half is never read.\<close>

record pg_antispoof_arp =
  ar_hrd :: u16
  ar_pro :: u16
  ar_hln :: u8
  ar_pln :: u8
  sender_mac :: "u8 list"
  sender_ip :: u32

record arp =
  arp_ip :: u32
  arp_packet :: pg_antispoof_arp

record pg_antispoof_state =
  as_outside :: pg_side
  as_mac :: "u8 list"
  as_arp_enabled :: bool
  as_arps_size :: nat
  as_arps :: "nat \<Rightarrow> arp"
  as_ndp_enabled :: bool
  as_ndps_size :: nat
  as_ndps :: "nat \<Rightarrow> u8 list"

record pg_pmtud_state =
  pm_output :: pg_side
  pm_eth_mtu_size :: u32
  pm_icmp_mtu_size :: u32

text \<open>A filter rule: its attributes and its compiled filter, the code that NPF runs.\<close>

record nl_rule =
  rule_attr :: u32
  rule_code :: "nat list option"

record pg_firewall_state =
  fw_npf :: "nat option"
  fw_ifp :: "nat option"
  fw_rules :: "nl_rule list"

record pg_nic_state =
  nic_portid :: nat
  nic_output :: pg_side

record pg_tap_state =
  tap_fd :: int
  tap_ifname :: string
  tap_output :: pg_side

record pg_vhost_state =
  vh_output :: pg_side
  vh_socket :: "string option"
  vh_allow_queuing :: int
  vh_vid :: int
  vh_tx_bytes :: u64
  vh_rx_bytes :: u64

text \<open>
  The two variants of the tunnel endpoint differ in the type of an IP address, which here is
  the list of its bytes in memory, 4 or 16. The memory of a MAC table inside a port is zero
  until the table is set up; after \<open>pg_mac_table_free\<close> it has the mask of the table and a
  pointer to freed memory.
\<close>

datatype 'v mac_mem = Zeroed | Freed "nat \<Rightarrow> u64" | Live "'v pg_mac_table"

record dest_addresses =
  da_mac :: "u8 list"
  da_ip :: "u8 list"
  da_lifetime :: u64

record vtep_port =
  vp_vni :: u32
  vp_multicast_ip :: "u8 list"
  vp_mac_to_dst :: "dest_addresses mac_mem"
  vp_known_mac :: "unit mac_mem"
  vp_dead_tables :: u32

record vtep_state =
  vt_mac :: "u8 list"
  vt_output :: pg_side
  vt_udp_dst_port_be :: u16
  vt_ports :: "vtep_port list"
  vt_packet_id :: u16
  vt_sum :: u32
  vt_flags :: u32
  vt_ip :: "u8 list"
  vt_max_lifetime :: u64
  vt_tick :: u64

text \<open>The state of a print brick; files, pcap handles and dumpers are numbers, a date is seconds and microseconds.\<close>

record pg_print_state =
  pr_output :: nat
  pr_pcap :: "nat option"
  pr_dumper :: "nat option"
  pr_type_filter :: "u16 list option"
  pr_flags :: u32
  pr_start_date :: "nat \<times> nat"
  pr_start_cycles :: u64
  pr_hz :: u64

datatype priv =
    P_nop
  | P_hub
  | P_diode pg_side
  | P_fail pg_side
  | P_user_dipole pg_user_dipole_state
  | P_collect pg_collect_state
  | P_udp_filter pg_udp_filter_state
  | P_accumulator pg_accumulator_state
  | P_queue pg_queue_state
  | P_rxtx pg_rxtx_state
  | P_packetsgen pg_packetsgen_state
  | P_switch pg_switch_state
  | P_antispoof pg_antispoof_state
  | P_pmtud pg_pmtud_state
  | P_firewall pg_firewall_state
  | P_nic pg_nic_state
  | P_tap pg_tap_state
  | P_vhost pg_vhost_state
  | P_vtep vtep_state
  | P_print pg_print_state

section \<open>Bricks\<close>

record pg_brick_edge =
  link :: "nat option"
  pair_index :: nat

record pg_brick_side =
  packet_count :: u64
  side_max :: nat
  side_nb :: nat
  edges :: "pg_brick_edge list"
  edge :: pg_brick_edge

record pg_brick =
  burst :: "burst_fn option"
  poll :: "poll_fn option"
  ops :: nat
  refcount :: int
  brick_name :: string
  brick_type :: pg_brick_type
  sides :: "pg_side \<Rightarrow> pg_brick_side"
  priv_state :: priv

section \<open>The world\<close>

text \<open>The global variables of \<open>firewall.c\<close>, \<open>nic.c\<close> and \<open>vhost.c\<close>; \<open>port_conf_offloads\<close> is
  \<open>port_conf.txmode.offloads\<close>, a static variable of \<open>nic_init_ports\<close>.\<close>

record globals =
  nb_firewall :: u64
  pg_npf_nworkers :: u32
  firewall_iface_cnt :: u32
  is_dpdk_init :: bool
  port_conf_offloads :: u64
  vhost_sockets :: "(string \<times> nat) list"
  sockets_path :: "string option"
  vhost_start_ok :: bool
  enable_freacture_mask :: u32
  disable_freacture_mask :: u32
  print_data :: "nat \<Rightarrow> u8"

record world =
  bricks :: "nat \<Rightarrow> pg_brick option"
  brick_next :: nat
  arrays :: "arr \<Rightarrow> (nat \<Rightarrow> nat) option"
  arr_next :: nat
  mst :: mstore
  malloc_cnt :: nat
  glob :: globals
  errp :: "pg_error option"

text \<open>
  The services of other libraries. A call that returns nothing and only acts on the outside
  is a value of \<open>outside_call\<close>.
\<close>

datatype outside_call =
    npf_dpdk_init
  | npfk_gc "nat option"
  | npfk_thread_register nat
  | npfk_thread_unregister "nat option"
  | npfk_ifmap_attach "nat option" "nat option"
  | npf_dpdk_ifdetach "nat option" "nat option"
  | npfk_destroy "nat option"
  | npfk_sysfini
  | rte_eth_promiscuous_enable nat
  | rte_eth_xstats_reset nat
  | rte_eth_dev_stop nat
  | rte_eth_dev_close nat
  | close_fd int
  | rte_vhost_driver_unregister string
  | g_remove string
  | fprintf nat string
  | pcap_dump "nat option" "nat \<times> nat" nat "u8 list"
  | pcap_dump_close "nat option"
  | pcap_close "nat option"
  | fclose nat

record npf_ext =
  NPF_RULE_PASS :: u32
  NPF_RULE_IN :: u32
  NPF_RULE_OUT :: u32
  NPF_RULE_STATEFUL :: u32
  NPF_NO_GC :: u32
  x_npfk_sysinit :: "u32 \<Rightarrow> mstore \<Rightarrow> int \<times> mstore"
  x_npf_dpdk_create :: "u32 \<Rightarrow> mstore \<Rightarrow> nat option \<times> mstore"
  x_npf_dpdk_ifattach :: "nat \<Rightarrow> u32 \<Rightarrow> mstore \<Rightarrow> nat option \<times> mstore"
  x_npfk_load :: "nat option \<Rightarrow> nl_rule list \<Rightarrow> mstore \<Rightarrow> int \<times> mstore"
  x_npfk_packet_handler :: "nat option \<Rightarrow> nat option \<Rightarrow> bool \<Rightarrow> nat \<Rightarrow> mstore \<Rightarrow> int \<times> mstore"
  x_pcap_compile :: "string \<Rightarrow> nat list option"

record eth_ext =
  PKT_TX_UDP_CKSUM :: u64
  PKT_TX_TCP_CKSUM :: u64
  PKT_TX_TCP_SEG :: u64
  PKT_TX_IPV4 :: u64
  PKT_TX_IP_CKSUM :: u64
  DEV_TX_OFFLOAD_UDP_CKSUM :: u64
  DEV_TX_OFFLOAD_TCP_CKSUM :: u64
  x_eth_attach :: "string \<Rightarrow> mstore \<Rightarrow> int \<times> mstore"
  x_eth_dev_count :: "mstore \<Rightarrow> int"
  x_eth_tx_offload_capa :: "nat \<Rightarrow> mstore \<Rightarrow> u64"
  x_eth_rx_offload_capa :: "nat \<Rightarrow> mstore \<Rightarrow> u64"
  x_eth_dev_configure :: "nat \<Rightarrow> u64 \<Rightarrow> mstore \<Rightarrow> int \<times> mstore"
  x_eth_rx_queue_setup :: "nat \<Rightarrow> mstore \<Rightarrow> int \<times> mstore"
  x_eth_tx_queue_setup :: "nat \<Rightarrow> u64 \<Rightarrow> mstore \<Rightarrow> int \<times> mstore"
  x_eth_dev_start :: "nat \<Rightarrow> mstore \<Rightarrow> int \<times> mstore"
  x_eth_txq_offloads :: "nat \<Rightarrow> mstore \<Rightarrow> u64 option"
  x_eth_tx_prepare :: "nat \<Rightarrow> nat list \<Rightarrow> mstore \<Rightarrow> mstore"
  x_eth_tx_burst :: "nat \<Rightarrow> nat list \<Rightarrow> mstore \<Rightarrow> nat \<times> mstore"
  x_eth_rx_burst :: "nat \<Rightarrow> nat \<Rightarrow> mstore \<Rightarrow> nat list \<times> mstore"
  x_eth_ibytes :: "nat \<Rightarrow> mstore \<Rightarrow> u64"
  x_eth_obytes :: "nat \<Rightarrow> mstore \<Rightarrow> u64"
  x_eth_set_mtu :: "nat \<Rightarrow> u16 \<Rightarrow> mstore \<Rightarrow> int \<times> mstore"
  x_eth_get_mtu :: "nat \<Rightarrow> mstore \<Rightarrow> int \<times> u16"
  x_eth_macaddr :: "nat \<Rightarrow> mstore \<Rightarrow> u8 list"
  x_udptcp_cksum :: "(nat \<Rightarrow> u8) \<Rightarrow> nat \<Rightarrow> nat \<Rightarrow> u16"
  x_udptcp6_cksum :: "(nat \<Rightarrow> u8) \<Rightarrow> nat \<Rightarrow> nat \<Rightarrow> u16"

record os_ext =
  x_tun_open :: "mstore \<Rightarrow> int \<times> mstore"
  x_tun_setiff :: "int \<Rightarrow> string \<Rightarrow> mstore \<Rightarrow> string option \<times> mstore"
  x_tun_setpersist :: "int \<Rightarrow> mstore \<Rightarrow> int \<times> mstore"
  x_write :: "int \<Rightarrow> u8 list \<Rightarrow> mstore \<Rightarrow> int \<times> mstore"
  x_read :: "int \<Rightarrow> nat \<Rightarrow> mstore \<Rightarrow> (string + u8 list) \<times> mstore"
  x_errno :: "mstore \<Rightarrow> int"
  x_strerror :: "mstore \<Rightarrow> string"
  x_socket :: "mstore \<Rightarrow> int \<times> mstore"
  x_siocgifhwaddr :: "int \<Rightarrow> string \<Rightarrow> mstore \<Rightarrow> u8 list option"
  x_is_dir :: "string \<Rightarrow> bool"
  x_realpath :: "string \<Rightarrow> string option"
  x_inet_pton4 :: "string \<Rightarrow> u8 list option"
  x_inet_pton6 :: "string \<Rightarrow> u8 list option"
  x_inet_ntop :: "u8 list \<Rightarrow> string"
  x_gettimeofday :: "mstore \<Rightarrow> nat \<times> nat"
  x_timer_cycles :: "mstore \<Rightarrow> u64"
  x_timer_hz :: "mstore \<Rightarrow> u64"
  x_pcap_open_dead :: "mstore \<Rightarrow> nat option \<times> mstore"
  x_pcap_dump_fopen :: "nat \<Rightarrow> nat \<Rightarrow> mstore \<Rightarrow> nat option \<times> mstore"

record vhost_ext =
  x_vhost_register :: "string \<Rightarrow> u64 \<Rightarrow> mstore \<Rightarrow> int \<times> mstore"
  x_vhost_callback_register :: "string \<Rightarrow> mstore \<Rightarrow> int \<times> mstore"
  x_vhost_start :: "string \<Rightarrow> mstore \<Rightarrow> int \<times> mstore"
  x_vhost_features :: "bool \<Rightarrow> string \<Rightarrow> u64 \<Rightarrow> mstore \<Rightarrow> int \<times> mstore"
  x_vhost_flags :: u64
  x_vhost_ifname :: "int \<Rightarrow> mstore \<Rightarrow> string"
  x_vhost_enqueue :: "int \<Rightarrow> nat list \<Rightarrow> mstore \<Rightarrow> nat \<times> mstore"
  x_vhost_dequeue :: "int \<Rightarrow> nat \<Rightarrow> mstore \<Rightarrow> nat list \<times> mstore"

record ext =
  x_malloc_ok :: "nat \<Rightarrow> bool"
  x_alloc :: "mstore \<Rightarrow> nat option \<times> mstore"
  x_alloc_bulk :: "nat \<Rightarrow> mstore \<Rightarrow> nat list option \<times> mstore"
  x_clone :: "nat \<Rightarrow> mstore \<Rightarrow> nat option \<times> mstore"
  x_free :: "nat \<Rightarrow> mstore \<Rightarrow> mstore"
  x_refcnt_update :: "nat \<Rightarrow> int \<Rightarrow> mstore \<Rightarrow> mstore"
  x_append :: "nat \<Rightarrow> nat \<Rightarrow> mstore \<Rightarrow> nat option \<times> mstore"
  x_prepend :: "nat \<Rightarrow> nat \<Rightarrow> mstore \<Rightarrow> nat option \<times> mstore"
  x_adj :: "nat \<Rightarrow> nat \<Rightarrow> mstore \<Rightarrow> bool \<times> mstore"
  x_ipv4_cksum :: "u8 list \<Rightarrow> u16"
  x_raw_cksum :: "u8 list \<Rightarrow> u32 \<Rightarrow> u32"
  x_raw_cksum_reduce :: "u32 \<Rightarrow> u16"
  x_is_multicast_ether :: "u8 list \<Rightarrow> bool"
  RTE_PTYPE_L2_ETHER :: nat
  RTE_PTYPE_L2_ETHER_VLAN :: nat
  RTE_PKTMBUF_HEADROOM :: nat
  SIZEOF_RTE_MBUF :: nat
  x_reset :: "nat \<Rightarrow> mstore \<Rightarrow> mstore"
  x_user_dipole :: "nat \<Rightarrow> nat \<Rightarrow> pg_side \<Rightarrow> (nat \<Rightarrow> nat) \<Rightarrow> u64 \<Rightarrow> nat \<Rightarrow> mstore \<Rightarrow>
     (nat \<Rightarrow> nat) \<times> u64 \<times> mstore"
  x_rxtx_rx :: "nat \<Rightarrow> nat \<Rightarrow> nat list \<Rightarrow> nat \<Rightarrow> mstore \<Rightarrow> mstore"
  x_rxtx_tx :: "nat \<Rightarrow> nat \<Rightarrow> (nat \<Rightarrow> nat) \<Rightarrow> nat \<Rightarrow> mstore \<Rightarrow> (nat \<Rightarrow> nat) \<times> u16 \<times> mstore"
  x_call :: "outside_call \<Rightarrow> mstore \<Rightarrow> mstore"
  x_npf :: npf_ext
  x_eth :: eth_ext
  x_os :: os_ext
  x_vhost :: vhost_ext

section \<open>Access to the heap\<close>

definition get_brick :: "nat \<Rightarrow> world \<Rightarrow> (pg_brick, world) out" where
  "get_brick b w = (case bricks w b of None \<Rightarrow> Abort ''freed brick'' | Some br \<Rightarrow> Ret br w)"

definition upd_brick :: "nat \<Rightarrow> (pg_brick \<Rightarrow> pg_brick) \<Rightarrow> world \<Rightarrow> world" where
  "upd_brick b f w = w\<lparr>bricks := (bricks w)(b := map_option f (bricks w b))\<rparr>"

definition get_pkts :: "arr \<Rightarrow> world \<Rightarrow> (nat \<Rightarrow> nat, world) out" where
  "get_pkts a w = (case arrays w a of None \<Rightarrow> Abort ''freed array'' | Some f \<Rightarrow> Ret f w)"

definition set_pkt :: "arr \<Rightarrow> nat \<Rightarrow> nat \<Rightarrow> world \<Rightarrow> (unit, world) out" where
  "set_pkt a i p w =
     (case arrays w a of None \<Rightarrow> Abort ''freed array''
      | Some f \<Rightarrow> Ret () (w\<lparr>arrays := (arrays w)(a \<mapsto> f(i := p))\<rparr>))"

definition get_mbuf :: "nat \<Rightarrow> world \<Rightarrow> (mbuf, world) out" where
  "get_mbuf p w = (case mbufs (mst w) p of None \<Rightarrow> Abort ''bad packet'' | Some m \<Rightarrow> Ret m w)"

definition upd_mbuf :: "nat \<Rightarrow> (mbuf \<Rightarrow> mbuf) \<Rightarrow> world \<Rightarrow> world" where
  "upd_mbuf p f w = w\<lparr>mst := (mst w)\<lparr>mbufs := (mbufs (mst w))(p := map_option f (mbufs (mst w) p))\<rparr>\<rparr>"

definition new_array :: "world \<Rightarrow> (arr, world) out" where
  "new_array w = Ret (Arr (arr_next w))
     (w\<lparr>arrays := (arrays w)(Arr (arr_next w) \<mapsto> (\<lambda>_. 0)), arr_next := Suc (arr_next w)\<rparr>)"

definition free_array :: "arr \<Rightarrow> world \<Rightarrow> world" where
  "free_array a w = w\<lparr>arrays := (arrays w)(a := None)\<rparr>"

definition set_err :: "pg_error \<Rightarrow> world \<Rightarrow> world" where
  "set_err e w = w\<lparr>errp := Some e\<rparr>"

definition pg_error_is_set :: "world \<Rightarrow> bool" where
  "pg_error_is_set w \<longleftrightarrow> errp w \<noteq> None"

end
