(* ===== verification/PG_Brick.thy ===== *)
theory PG_Brick
  imports PG_World
begin

text \<open>
  Brick management, \<open>src/brick.c\<close>, \<open>src/brick-int.h\<close> and \<open>src/utils/config.c\<close>: creating
  bricks by name, reference counting, linking, unlinking, and the parts of the data path
  that do not depend on a particular brick. \<open>reg\<close> is the list \<open>pg_all_bricks\<close> of the
  registered operations; a brick holds the index of its operations in it. The union of
  \<open>sides\<close> and \<open>side\<close> makes \<open>side\<close> the west side.
\<close>

section \<open>Operations\<close>

record brick_ops =
  op_name :: string
  op_state_size :: int
  op_zero :: priv
  op_init :: "nat \<Rightarrow> pg_brick_config \<Rightarrow> world \<Rightarrow> (int, world) out"
  op_destroy :: "(nat \<Rightarrow> world \<Rightarrow> (unit, world) out) option"
  op_unlink :: bool
  op_unlink_notify :: "(nat \<Rightarrow> pg_side \<Rightarrow> nat \<Rightarrow> world \<Rightarrow> (unit, world) out) option"
  op_reset :: "(nat \<Rightarrow> world \<Rightarrow> (int, world) out) option"
  op_link_notify :: "(priv \<Rightarrow> pg_side \<Rightarrow> nat \<Rightarrow> priv) option"
  op_get_side :: "(priv \<Rightarrow> pg_side) option"
  op_burst_get :: "(nat \<Rightarrow> priv \<Rightarrow> pg_side \<Rightarrow> arr option \<times> u64) option"
  op_rx_bytes :: "(priv \<Rightarrow> mstore \<Rightarrow> u64) option"
  op_tx_bytes :: "(priv \<Rightarrow> mstore \<Rightarrow> u64) option"

definition pg_brick_config_init ::
    "bconf option \<Rightarrow> string \<Rightarrow> nat \<Rightarrow> nat \<Rightarrow> pg_brick_type \<Rightarrow> pg_brick_config" where
  "pg_brick_config_init bc nm wmax emax ty =
     \<lparr>conf_name = nm, west_max = wmax, east_max = emax, conf_type = ty, brick_config = bc\<rparr>"

definition pg_brick_config_new :: "string \<Rightarrow> nat \<Rightarrow> nat \<Rightarrow> pg_brick_type \<Rightarrow> pg_brick_config" where
  "pg_brick_config_new nm wmax emax ty = pg_brick_config_init None nm wmax emax ty"

fun pg_side_to_string :: "pg_side \<Rightarrow> string" where
  "pg_side_to_string PG_WEST_SIDE = ''PG_WEST_SIDE''"
| "pg_side_to_string PG_EAST_SIDE = ''PG_EAST_SIDE''"

fun pg_brick_type_to_string :: "pg_brick_type \<Rightarrow> string" where
  "pg_brick_type_to_string PG_MULTIPOLE = ''PG_MULTIPOLE''"
| "pg_brick_type_to_string PG_MONOPOLE = ''PG_MONOPOLE''"
| "pg_brick_type_to_string PG_DIPOLE = ''PG_DIPOLE''"

section \<open>Creating a brick\<close>

definition null_edge :: pg_brick_edge where
  "null_edge = \<lparr>link = None, pair_index = 0\<rparr>"

definition zero_side :: pg_brick_side where
  "zero_side = \<lparr>packet_count = 0, side_max = 0, side_nb = 0, edges = [], edge = null_edge\<rparr>"

definition upd_side :: "pg_side \<Rightarrow> (pg_brick_side \<Rightarrow> pg_brick_side) \<Rightarrow> pg_brick \<Rightarrow> pg_brick" where
  "upd_side s f br = br\<lparr>sides := (sides br)(s := f (sides br s))\<rparr>"

definition alloc_side :: "pg_brick_type \<Rightarrow> pg_brick_side \<Rightarrow> pg_brick_side" where
  "alloc_side ty side =
     (if ty = PG_MULTIPOLE then
        (if side_max side = 0 then side\<lparr>side_nb := 0\<rparr>
         else side\<lparr>side_nb := 0, edges := replicate (side_max side) null_edge\<rparr>)
      else side\<lparr>edge := null_edge\<rparr>)"

definition alloc_edges :: "nat \<Rightarrow> world \<Rightarrow> (int, world) out" where
  "alloc_edges b w =
     obind (get_brick b w) (\<lambda>br w.
       let w' = upd_brick b (\<lambda>br. br\<lparr>sides := (\<lambda>s. alloc_side (brick_type br) (sides br s))\<rparr>) w in
       if brick_type br = PG_MULTIPOLE \<and>
          side_max (sides br PG_WEST_SIDE) = 0 \<and> side_max (sides br PG_EAST_SIDE) = 0
       then Ret (-1) (set_err (pg_error_new ''Brick'%s',two sides empties'' [brick_name br]) w')
       else Ret 0 w')"

definition pg_brick_set_max_edges :: "nat \<Rightarrow> nat \<Rightarrow> nat \<Rightarrow> world \<Rightarrow> world" where
  "pg_brick_set_max_edges b west_edges east_edges w =
     upd_brick b (\<lambda>br. upd_side PG_EAST_SIDE (\<lambda>s. s\<lparr>side_max := east_edges mod 65536\<rparr>)
       (upd_side PG_WEST_SIDE (\<lambda>s. s\<lparr>side_max := west_edges mod 65536\<rparr>) br)) w"

definition zero_brick_counters :: "nat \<Rightarrow> world \<Rightarrow> world" where
  "zero_brick_counters b w =
     upd_brick b (\<lambda>br. br\<lparr>sides := (\<lambda>s. (sides br s)\<lparr>packet_count := 0\<rparr>)\<rparr>) w"

definition check_side_max :: "pg_brick_config \<Rightarrow> world \<Rightarrow> (int, world) out" where
  "check_side_max config w =
     (if conf_type config = PG_MULTIPOLE \<and> (65535 \<le> west_max config \<or> 65535 \<le> east_max config) then
        let faulte = (if 65535 \<le> west_max config then PG_WEST_SIDE else PG_EAST_SIDE) in
        Ret (-1) (set_err (pg_error_new ''A '%s' cannot have more than %d edge on %s''
          [pg_brick_type_to_string (conf_type config), ''65535'', pg_side_to_string faulte]) w)
      else if (conf_type config = PG_MONOPOLE \<or> conf_type config = PG_DIPOLE) \<and>
              (1 < west_max config \<or> 1 < east_max config) then
        Ret (-1) (set_err (pg_error_new ''A '%s' cannot have more than one neibour per side''
          [pg_brick_type_to_string (conf_type config)]) w)
      else Ret 0 w)"

fun find_ops :: "brick_ops list \<Rightarrow> string \<Rightarrow> nat option" where
  "find_ops [] nm = None"
| "find_ops (bo # bos) nm = (if op_name bo = nm then Some 0 else map_option Suc (find_ops bos nm))"

text \<open>The zeroed memory of a new brick, its embedded packet arrays included.\<close>

definition malloc_brick :: "nat \<Rightarrow> brick_ops \<Rightarrow> pg_brick_type \<Rightarrow> world \<Rightarrow> nat \<times> world" where
  "malloc_brick k bo ty w =
     (let b = brick_next w in
      (b, w\<lparr>bricks := (bricks w)(b \<mapsto> \<lparr>burst = None, poll = None, ops = k, refcount = 1,
               brick_name = [], brick_type = ty, sides = (\<lambda>_. zero_side), priv_state = op_zero bo\<rparr>),
            brick_next := Suc b,
            arrays := (\<lambda>a. case a of Emb b' i \<Rightarrow> if b' = b then Some (\<lambda>_. 0) else arrays w a
                                   | Arr i \<Rightarrow> arrays w a)\<rparr>))"

definition free_brick :: "nat \<Rightarrow> world \<Rightarrow> world" where
  "free_brick b w =
     w\<lparr>bricks := (bricks w)(b := None),
       arrays := (\<lambda>a. case a of Emb b' i \<Rightarrow> if b' = b then None else arrays w a
                              | Arr i \<Rightarrow> arrays w a)\<rparr>"

definition assert_brick_callback :: "nat \<Rightarrow> world \<Rightarrow> (unit, world) out" where
  "assert_brick_callback b w =
     obind (get_brick b w) (\<lambda>br w.
       if burst br = None then Abort ''g_assert(brick->burst)'' else Ret () w)"

definition pg_brick_new ::
    "brick_ops list \<Rightarrow> string option \<Rightarrow> pg_brick_config option \<Rightarrow> world \<Rightarrow> (nat option, world) out" where
  "pg_brick_new reg nm conf w =
     (case conf of None \<Rightarrow> Ret None (set_err (pg_error_new ''Brick config not set'' []) w)
      | Some config \<Rightarrow>
     (case nm of None \<Rightarrow> Ret None (set_err (pg_error_new ''Brick name not set'' []) w)
      | Some nm \<Rightarrow>
     (case find_ops reg nm of
        None \<Rightarrow> Ret None (set_err (pg_error_new ''Brick '%s' not found'' [nm]) w)
      | Some k \<Rightarrow>
        let bo = reg ! k in
        if op_state_size bo \<le> 0 then
          Ret None (set_err (pg_error_new ''Brick state size is not positive'' []) w)
        else
          let (b, w) = malloc_brick k bo (conf_type config) w;
              w = zero_brick_counters b w in
          obind (check_side_max config w) (\<lambda>r w.
            if r < 0 then Ret None (free_brick b w)
            else
              let w = pg_brick_set_max_edges b (west_max config) (east_max config) w;
                  w = upd_brick b (\<lambda>br. br\<lparr>brick_name := conf_name config\<rparr>) w in
              obind (op_init bo b config w) (\<lambda>ret w.
                if ret < 0 then
                  let w = (if \<not> pg_error_is_set w
                           then set_err (pg_error_new ''Failed to init '%s' brick'' [nm]) w else w) in
                  Ret None (free_brick b w)
                else
                  obind (assert_brick_callback b w) (\<lambda>_ w.
                  obind (alloc_edges b w) (\<lambda>r w.
                    if r < 0 then Ret None (free_brick b w) else Ret (Some b) w)))))))"

section \<open>Reference counting\<close>

definition pg_brick_incref :: "nat \<Rightarrow> world \<Rightarrow> (unit, world) out" where
  "pg_brick_incref b w =
     obind (get_brick b w) (\<lambda>_ w. Ret () (upd_brick b (\<lambda>br. br\<lparr>refcount := refcount br + 1\<rparr>) w))"

definition pg_brick_decref ::
    "brick_ops list \<Rightarrow> nat option \<Rightarrow> world \<Rightarrow> (nat option, world) out" where
  "pg_brick_decref reg brick w =
     (case brick of None \<Rightarrow> Ret None (set_err (pg_error_new ''NULL brick'' []) w)
      | Some b \<Rightarrow>
        obind (get_brick b w) (\<lambda>br w.
          let w = upd_brick b (\<lambda>br. br\<lparr>refcount := refcount br - 1\<rparr>) w in
          if 0 < refcount br - 1 then Ret (Some b) w
          else
            obind (case op_destroy (reg ! ops br) of None \<Rightarrow> Ret () w | Some d \<Rightarrow> d b w) (\<lambda>_ w.
              Ret None (free_brick b w))))"

definition pg_brick_reset :: "brick_ops list \<Rightarrow> nat option \<Rightarrow> world \<Rightarrow> (int, world) out" where
  "pg_brick_reset reg brick w =
     (case brick of None \<Rightarrow> Ret (-1) (set_err (pg_error_new ''brick is NULL'' []) w)
      | Some b \<Rightarrow>
        obind (get_brick b w) (\<lambda>br w.
          case op_reset (reg ! ops br) of
            None \<Rightarrow> Ret (-1) (set_err (pg_error_new ''brick do not support reset operation'' []) w)
          | Some f \<Rightarrow> f b w))"

definition pg_brick_refcount :: "nat \<Rightarrow> world \<Rightarrow> (int, world) out" where
  "pg_brick_refcount b w =
     obind (get_brick b w) (\<lambda>br w.
       if 0 < refcount br then Ret (refcount br) w else Abort ''g_assert(brick->refcount > 0)'')"

section \<open>Edges\<close>

text \<open>
  \<open>pg_brick_get_edge\<close> gives a pointer to an edge; \<open>pg_brick_set_edge\<close> writes through such a
  pointer. The address of the first edge of an empty array is the null pointer, \<open>None\<close>.
\<close>

definition pg_brick_get_edge :: "pg_brick \<Rightarrow> pg_side \<Rightarrow> nat \<Rightarrow> pg_brick_edge option" where
  "pg_brick_get_edge br s i =
     (case brick_type br of
        PG_MULTIPOLE \<Rightarrow>
          if i < length (edges (sides br s)) then Some (edges (sides br s) ! i) else None
      | PG_DIPOLE \<Rightarrow> Some (edge (sides br s))
      | PG_MONOPOLE \<Rightarrow> Some (edge (sides br PG_WEST_SIDE)))"

definition pg_brick_set_edge ::
    "pg_side \<Rightarrow> nat \<Rightarrow> (pg_brick_edge \<Rightarrow> pg_brick_edge) \<Rightarrow> pg_brick \<Rightarrow> pg_brick" where
  "pg_brick_set_edge s i f br =
     (case brick_type br of
        PG_MULTIPOLE \<Rightarrow> upd_side s (\<lambda>sd. sd\<lparr>edges := (edges sd)[i := f (edges sd ! i)]\<rparr>) br
      | PG_DIPOLE \<Rightarrow> upd_side s (\<lambda>sd. sd\<lparr>edge := f (edge sd)\<rparr>) br
      | PG_MONOPOLE \<Rightarrow> upd_side PG_WEST_SIDE (\<lambda>sd. sd\<lparr>edge := f (edge sd)\<rparr>) br)"

definition set_edge :: "nat \<Rightarrow> pg_side \<Rightarrow> nat \<Rightarrow> nat \<Rightarrow> world \<Rightarrow> (int, world) out" where
  "set_edge b s i index w =
     obind (get_brick b w) (\<lambda>br w.
       case pg_brick_get_edge br s i of
         None \<Rightarrow> Ret (-1) w
       | Some e \<Rightarrow> Ret 0 (upd_brick b (pg_brick_set_edge s i (\<lambda>e. e\<lparr>pair_index := index\<rparr>)) w))"

definition get_side :: "pg_brick \<Rightarrow> pg_side \<Rightarrow> pg_side" where
  "get_side br s = (if brick_type br = PG_MONOPOLE then PG_WEST_SIDE else s)"

definition count_side :: "pg_brick_side \<Rightarrow> nat \<Rightarrow> nat" where
  "count_side side target =
     length (filter (\<lambda>j. link (edges side ! j) = Some target) [0..<side_max side]) mod 65536"

definition pg_brick_links_count_get ::
    "nat option \<Rightarrow> nat \<Rightarrow> world \<Rightarrow> (int, world) out" where
  "pg_brick_links_count_get brick target w =
     (case brick of None \<Rightarrow> Ret (-1) (set_err (pg_error_new ''brick is NULL'' []) w)
      | Some b \<Rightarrow>
        obind (get_brick b w) (\<lambda>br w.
          case brick_type br of
            PG_MULTIPOLE \<Rightarrow> Ret (\<Sum>s\<leftarrow>pg_sides. int (count_side (sides br s) target)) w
          | PG_DIPOLE \<Rightarrow>
              Ret (\<Sum>s\<leftarrow>pg_sides. if link (edge (sides br s)) = Some target then 1 else 0) w
          | PG_MONOPOLE \<Rightarrow>
              Ret (if link (edge (sides br PG_WEST_SIDE)) = Some target then 1 else 0) w))"

section \<open>The edge iterator\<close>

record edge_iterator =
  eit_edge :: nat
  eit_side :: "pg_side option"
  eit_end :: bool

definition pg_side_get_max :: "pg_brick \<Rightarrow> pg_side \<Rightarrow> nat" where
  "pg_side_get_max br s = side_max (sides br s)"

fun next_side :: "pg_side \<Rightarrow> pg_side option" where
  "next_side PG_WEST_SIDE = Some PG_EAST_SIDE"
| "next_side PG_EAST_SIDE = None"

definition edge_linked :: "pg_brick \<Rightarrow> pg_side \<Rightarrow> nat \<Rightarrow> bool" where
  "edge_linked br s i \<longleftrightarrow>
     (case pg_brick_get_edge br s i of None \<Rightarrow> False | Some e \<Rightarrow> link e \<noteq> None)"

function pg_brick_edge_iterator_next :: "pg_brick \<Rightarrow> edge_iterator \<Rightarrow> edge_iterator" where
  "pg_brick_edge_iterator_next br it =
     (if eit_end it then it
      else if brick_type br = PG_MONOPOLE then it\<lparr>eit_end := True\<rparr>
      else
        case eit_side it of None \<Rightarrow> it\<lparr>eit_end := True\<rparr>
        | Some s \<Rightarrow>
          let it' = (if pg_side_get_max br s \<le> Suc (eit_edge it)
                     then it\<lparr>eit_edge := 0, eit_side := next_side s\<rparr>
                     else it\<lparr>eit_edge := Suc (eit_edge it)\<rparr>) in
          case eit_side it' of None \<Rightarrow> it'\<lparr>eit_end := True\<rparr>
          | Some s' \<Rightarrow>
              if edge_linked br s' (eit_edge it') then it'
              else pg_brick_edge_iterator_next br it')"
  by pat_completeness auto
termination
  by (relation "measure (\<lambda>(br, it). case eit_side it of
        None \<Rightarrow> 0
      | Some PG_WEST_SIDE \<Rightarrow> 2 + (pg_side_get_max br PG_WEST_SIDE - eit_edge it) +
                             pg_side_get_max br PG_EAST_SIDE
      | Some PG_EAST_SIDE \<Rightarrow> 1 + (pg_side_get_max br PG_EAST_SIDE - eit_edge it))")
     (auto split: pg_side.splits option.splits if_splits)

definition pg_brick_edge_iterator_init :: "pg_brick \<Rightarrow> edge_iterator" where
  "pg_brick_edge_iterator_init br =
     (let it = \<lparr>eit_edge = 0, eit_side = Some PG_WEST_SIDE, eit_end = False\<rparr> in
      if edge_linked br PG_WEST_SIDE 0 then it else pg_brick_edge_iterator_next br it)"

section \<open>Linking\<close>

definition first_free :: "pg_brick_edge list \<Rightarrow> nat option" where
  "first_free es =
     (case filter (\<lambda>i. link (es ! i) = None) [0..<length es] of [] \<Rightarrow> None | i # _ \<Rightarrow> Some i)"

definition insert_link :: "nat \<Rightarrow> nat \<Rightarrow> pg_side \<Rightarrow> world \<Rightarrow> (nat, world) out" where
  "insert_link frm to s w =
     obind (get_brick frm w) (\<lambda>br w.
       let t = get_side br s;
           put = (\<lambda>i w. upd_brick frm (pg_brick_set_edge s i (\<lambda>e. e\<lparr>link := Some to\<rparr>)) w);
           count = (\<lambda>w. upd_brick frm (upd_side t (\<lambda>sd. sd\<lparr>side_nb := inc16 (side_nb sd)\<rparr>)) w) in
       case brick_type br of
         PG_MULTIPOLE \<Rightarrow>
           if edges (sides br s) = [] then Abort ''g_assert(s->edges)''
           else (case first_free (take (side_max (sides br s)) (edges (sides br s))) of
                   None \<Rightarrow> Abort ''can't find pair''
                 | Some i \<Rightarrow> obind (pg_brick_incref to (count w)) (\<lambda>_ w. Ret i (put i w)))
       | PG_DIPOLE \<Rightarrow> obind (pg_brick_incref to (count (put 0 w))) (\<lambda>_ w. Ret 0 w)
       | PG_MONOPOLE \<Rightarrow> obind (pg_brick_incref to (count w)) (\<lambda>_ w. Ret 0 (put 0 w)))"

definition is_place_available :: "pg_brick \<Rightarrow> pg_side \<Rightarrow> bool" where
  "is_place_available br s \<longleftrightarrow>
     side_nb (sides br (get_side br s)) < side_max (sides br (get_side br s))"

definition link_notify :: "brick_ops list \<Rightarrow> nat \<Rightarrow> pg_side \<Rightarrow> nat \<Rightarrow> world \<Rightarrow> (unit, world) out" where
  "link_notify reg b s i w =
     obind (get_brick b w) (\<lambda>br w.
       case op_link_notify (reg ! ops br) of None \<Rightarrow> Ret () w
       | Some f \<Rightarrow> Ret () (upd_brick b (\<lambda>br. br\<lparr>priv_state := f (priv_state br) s i\<rparr>) w))"

definition pg_brick_link ::
    "brick_ops list \<Rightarrow> nat option \<Rightarrow> nat option \<Rightarrow> world \<Rightarrow> (int, world) out" where
  "pg_brick_link reg west east w =
     (case (west, east) of
        (Some wb, Some eb) \<Rightarrow>
          if wb = eb then Ret (-1) (set_err (pg_error_new ''Can not link a brick to itself'' []) w)
          else
            obind (get_brick eb w) (\<lambda>ebr w. obind (get_brick wb w) (\<lambda>wbr w.
            if \<not> is_place_available ebr PG_WEST_SIDE then
              Ret (-1) (set_err (pg_error_new ''%s:WEST side full'' [brick_name ebr]) w)
            else if \<not> is_place_available wbr PG_EAST_SIDE then
              Ret (-1) (set_err (pg_error_new ''%s:EAST side full'' [brick_name wbr]) w)
            else
              obind (insert_link eb wb PG_WEST_SIDE w) (\<lambda>east_index w.
              obind (link_notify reg eb PG_WEST_SIDE east_index w) (\<lambda>_ w.
              obind (insert_link wb eb PG_EAST_SIDE w) (\<lambda>west_index w.
              obind (link_notify reg wb PG_EAST_SIDE west_index w) (\<lambda>_ w.
              obind (set_edge eb PG_WEST_SIDE east_index west_index w) (\<lambda>r w.
                if r < 0 then Ret (-1) (set_err (pg_error_new ''Can't set edge'' []) w)
                else obind (set_edge wb PG_EAST_SIDE west_index east_index w) (\<lambda>r w.
                  if r < 0 then Ret (-1) (set_err (pg_error_new ''Can't set edge'' []) w)
                  else Ret 0 w))))))))
      | _ \<Rightarrow> Ret (-1) (set_err (pg_error_new ''Node is not valid'' []) w))"

fun chain_links ::
    "brick_ops list \<Rightarrow> nat option \<Rightarrow> nat option list \<Rightarrow> int \<Rightarrow> world \<Rightarrow> (int, world) out" where
  "chain_links reg west [] ret w = Ret ret w"
| "chain_links reg west (None # _) ret w = Ret ret w"
| "chain_links reg west (Some east # rest) ret w =
     obind (pg_brick_link reg west (Some east) w) (\<lambda>ret w.
       if ret < 0 then Ret ret w else chain_links reg (Some east) rest ret w)"

text \<open>The variable arguments are the list \<open>ap\<close>, which a null pointer ends.\<close>

definition pg_brick_chained_links_int ::
    "brick_ops list \<Rightarrow> nat option \<Rightarrow> nat option list \<Rightarrow> world \<Rightarrow> (int, world) out" where
  "pg_brick_chained_links_int reg west ap w =
     (case ap of Some east # rest \<Rightarrow> chain_links reg west ap (-1) w
      | _ \<Rightarrow> Ret (-1) (set_err (pg_error_new ''brick east not found'' []) w))"

section \<open>Unlinking\<close>

definition reset_edge :: "pg_brick_edge \<Rightarrow> pg_brick_edge" where
  "reset_edge e = e\<lparr>link := None, pair_index := 0\<rparr>"

definition unlink_notify ::
    "brick_ops list \<Rightarrow> pg_brick_edge option \<Rightarrow> pg_side \<Rightarrow> world \<Rightarrow> (unit, world) out" where
  "unlink_notify reg e array_side w =
     (case e of None \<Rightarrow> Ret () w
      | Some e \<Rightarrow>
     (case link e of None \<Rightarrow> Ret () w
      | Some b \<Rightarrow>
        obind (get_brick b w) (\<lambda>br w.
          case op_unlink_notify (reg ! ops br) of None \<Rightarrow> Ret () w
          | Some f \<Rightarrow> f b (pg_flip_side array_side) (pair_index e) w)))"

text \<open>Reading an edge through a pointer taken earlier: the brick may be gone by then.\<close>

definition read_edge :: "nat \<Rightarrow> pg_side \<Rightarrow> nat \<Rightarrow> world \<Rightarrow> (pg_brick_edge, world) out" where
  "read_edge b s i w =
     obind (get_brick b w) (\<lambda>br w.
       case pg_brick_get_edge br s i of None \<Rightarrow> Abort ''null edge'' | Some e \<Rightarrow> Ret e w)"

definition write_edge ::
    "nat \<Rightarrow> pg_side \<Rightarrow> nat \<Rightarrow> (pg_brick_edge \<Rightarrow> pg_brick_edge) \<Rightarrow> world \<Rightarrow> (unit, world) out" where
  "write_edge b s i f w =
     obind (get_brick b w) (\<lambda>br w. Ret () (upd_brick b (pg_brick_set_edge s i f) w))"

definition dec_nb :: "nat \<Rightarrow> pg_side \<Rightarrow> world \<Rightarrow> (unit, world) out" where
  "dec_nb b s w =
     obind (get_brick b w) (\<lambda>br w.
       Ret () (upd_brick b (upd_side (get_side br s) (\<lambda>sd. sd\<lparr>side_nb := dec16 (side_nb sd)\<rparr>)) w))"

definition unless_error :: "(world \<Rightarrow> (unit, world) out) \<Rightarrow> world \<Rightarrow> (unit, world) out" where
  "unless_error f w = (if pg_error_is_set w then Ret () w else f w)"

text \<open>The end of \<open>do_unlink\<close>, from the first \<open>pg_brick_decref\<close> on.\<close>

definition unlink_pair ::
    "brick_ops list \<Rightarrow> nat \<Rightarrow> pg_side \<Rightarrow> pg_side \<Rightarrow> nat \<Rightarrow> nat \<Rightarrow> pg_side \<Rightarrow> nat \<Rightarrow>
     world \<Rightarrow> (unit, world) out" where
  "unlink_pair reg b s side index peer pside pindex w =
     obind (pg_brick_decref reg (Some b) w) (unless_error \<circ> (\<lambda>_ w.
     obind (read_edge b s index w) (\<lambda>e w.
     obind (pg_brick_decref reg (link e) w) (unless_error \<circ> (\<lambda>_ w.
     obind (write_edge peer pside pindex reset_edge w) (\<lambda>_ w.
     obind (write_edge b s index reset_edge w) (\<lambda>_ w.
     obind (dec_nb b side w) (\<lambda>_ w.
     dec_nb peer pside w))))))))"

definition do_unlink :: "brick_ops list \<Rightarrow> nat \<Rightarrow> pg_side \<Rightarrow> nat \<Rightarrow> world \<Rightarrow> (unit, world) out" where
  "do_unlink reg b s index w =
     obind (get_brick b w) (\<lambda>br w.
     obind (if brick_type br = PG_MONOPOLE then
              (case op_get_side (reg ! ops br) of
                 None \<Rightarrow> Abort ''g_assert(brick->ops->get_side)''
               | Some f \<Rightarrow> Ret (f (priv_state br)) w)
            else Ret s w) (\<lambda>side w.
     obind (read_edge b s index w) (\<lambda>e w.
       case link e of None \<Rightarrow> Ret () w
       | Some peer \<Rightarrow>
         obind (get_brick peer w) (\<lambda>pbr w.
           let pside = pg_flip_side side; pindex = pair_index e in
           if pg_brick_get_edge pbr pside pindex = None then Ret () w
           else
             obind (unlink_notify reg (Some e) side w) (unless_error \<circ> (\<lambda>_ w.
             obind (read_edge peer pside pindex w) (\<lambda>pe w.
             obind (unlink_notify reg (Some pe) pside w) (unless_error \<circ> (\<lambda>_ w.
             unlink_pair reg b s side index peer pside pindex w)))))))))"

text \<open>
  \<open>PG_BRICK_FOREACH_EDGES\<close> around \<open>do_unlink\<close>. The iterator moves over the brick as the body
  leaves it; it never goes back, so its own termination measure bounds the loop.
\<close>

definition eit_measure :: "pg_brick \<Rightarrow> edge_iterator \<Rightarrow> nat" where
  "eit_measure br it =
     (case eit_side it of
        None \<Rightarrow> 0
      | Some PG_WEST_SIDE \<Rightarrow> 2 + (pg_side_get_max br PG_WEST_SIDE - eit_edge it) +
                             pg_side_get_max br PG_EAST_SIDE
      | Some PG_EAST_SIDE \<Rightarrow> 1 + (pg_side_get_max br PG_EAST_SIDE - eit_edge it))"

primrec unlink_loop :: "nat \<Rightarrow> brick_ops list \<Rightarrow> nat \<Rightarrow> edge_iterator \<Rightarrow> world \<Rightarrow> (unit, world) out" where
  "unlink_loop 0 reg b it w = Diverge"
| "unlink_loop (Suc n) reg b it w =
     (if eit_end it then Ret () w
      else case eit_side it of None \<Rightarrow> Abort ''PG_MAX_SIDE''
      | Some s \<Rightarrow>
        obind (do_unlink reg b s (eit_edge it) w) (unless_error \<circ> (\<lambda>_ w.
          obind (get_brick b w) (\<lambda>br w.
            unlink_loop n reg b (pg_brick_edge_iterator_next br it) w))))"

definition pg_brick_generic_unlink :: "brick_ops list \<Rightarrow> nat \<Rightarrow> world \<Rightarrow> (unit, world) out" where
  "pg_brick_generic_unlink reg b w =
     obind (get_brick b w) (\<lambda>br w.
       let it = pg_brick_edge_iterator_init br in
       unlink_loop (eit_measure br it + 3) reg b it w)"

definition pg_brick_unlink :: "brick_ops list \<Rightarrow> nat option \<Rightarrow> world \<Rightarrow> (unit, world) out" where
  "pg_brick_unlink reg brick w =
     (case brick of None \<Rightarrow> Ret () (set_err (pg_error_new ''Node is not valid'' []) w)
      | Some b \<Rightarrow>
        obind (get_brick b w) (\<lambda>br w.
          if \<not> op_unlink (reg ! ops br) then
            Ret () (set_err (pg_error_new ''Node unlink callback not set'' []) w)
          else pg_brick_generic_unlink reg b w))"

definition pg_brick_destroy :: "brick_ops list \<Rightarrow> nat option \<Rightarrow> world \<Rightarrow> (unit, world) out" where
  "pg_brick_destroy reg brick w =
     obind (pg_brick_unlink reg brick (w\<lparr>errp := None\<rparr>)) (\<lambda>_ w1.
     obind (pg_brick_decref reg brick w1) (\<lambda>_ w2. Ret () (w2\<lparr>errp := errp w\<rparr>)))"

text \<open>The search for the first edge to \<open>target\<close>; the outer \<open>None\<close> is an edge that cannot be read.\<close>

fun find_link :: "pg_brick \<Rightarrow> pg_side \<Rightarrow> nat \<Rightarrow> nat list \<Rightarrow> nat option option" where
  "find_link br s target [] = Some None"
| "find_link br s target (i # is) =
     (case pg_brick_get_edge br s i of
        None \<Rightarrow> None
      | Some e \<Rightarrow> if link e = Some target then Some (Some i) else find_link br s target is)"

definition pg_brick_unlink_edge ::
    "brick_ops list \<Rightarrow> nat option \<Rightarrow> nat option \<Rightarrow> world \<Rightarrow> (int, world) out" where
  "pg_brick_unlink_edge reg west east w =
     (case west of None \<Rightarrow> Ret (-1) (set_err (pg_error_new ''West brick is not valid'' []) w)
      | Some wb \<Rightarrow>
     (case east of None \<Rightarrow> Ret (-1) (set_err (pg_error_new ''East brick is not valid'' []) w)
      | Some eb \<Rightarrow>
        obind (get_brick wb w) (\<lambda>wbr w. obind (get_brick eb w) (\<lambda>ebr w.
          case find_link wbr PG_EAST_SIDE eb [0..<side_max (sides wbr (get_side wbr PG_EAST_SIDE))] of
            None \<Rightarrow> Ret (-1) (set_err (pg_error_new ''can't get edge'' []) w)
          | Some None \<Rightarrow> Ret (-1) (set_err (pg_error_new ''%s does not seem to be linked with %s''
                      [brick_name wbr, brick_name ebr]) w)
          | Some (Some i) \<Rightarrow>
              obind (do_unlink reg wb PG_EAST_SIDE i w) (\<lambda>_ w.
                if pg_error_is_set w then Ret (-1) w else Ret 0 w)))))"

section \<open>Queries\<close>

definition pg_brick_pollable :: "nat option \<Rightarrow> world \<Rightarrow> (bool, world) out" where
  "pg_brick_pollable brick w =
     (case brick of None \<Rightarrow> Ret False w
      | Some b \<Rightarrow> obind (get_brick b w) (\<lambda>br w. Ret (poll br \<noteq> None) w))"

definition pg_brick_burst_get ::
    "brick_ops list \<Rightarrow> pg_side \<Rightarrow> nat option \<Rightarrow> world \<Rightarrow> (arr option \<times> u64, world) out" where
  "pg_brick_burst_get reg s brick w =
     (case brick of None \<Rightarrow> Ret (None, 0) (set_err (pg_error_new ''NULL brick'' []) w)
      | Some b \<Rightarrow>
        obind (get_brick b w) (\<lambda>br w.
          case op_burst_get (reg ! ops br) of
            None \<Rightarrow> Ret (None, 0) (set_err (pg_error_new ''No burst_get callback'' []) w)
          | Some f \<Rightarrow> Ret (f b (priv_state br) s) w))"

definition pg_brick_west_burst_get ::
    "brick_ops list \<Rightarrow> nat option \<Rightarrow> world \<Rightarrow> (arr option \<times> u64, world) out" where
  "pg_brick_west_burst_get reg = pg_brick_burst_get reg PG_WEST_SIDE"

definition pg_brick_east_burst_get ::
    "brick_ops list \<Rightarrow> nat option \<Rightarrow> world \<Rightarrow> (arr option \<times> u64, world) out" where
  "pg_brick_east_burst_get reg = pg_brick_burst_get reg PG_EAST_SIDE"

definition pg_brick_pkts_count_get :: "nat option \<Rightarrow> pg_side \<Rightarrow> world \<Rightarrow> (u64, world) out" where
  "pg_brick_pkts_count_get brick s w =
     (case brick of None \<Rightarrow> Ret 0 w
      | Some b \<Rightarrow> obind (get_brick b w) (\<lambda>br w. Ret (packet_count (sides br s)) w))"

definition brick_bytes ::
    "(brick_ops \<Rightarrow> (priv \<Rightarrow> mstore \<Rightarrow> u64) option) \<Rightarrow> brick_ops list \<Rightarrow> nat option \<Rightarrow> world \<Rightarrow> (u64, world) out" where
  "brick_bytes f reg brick w =
     (case brick of None \<Rightarrow> Ret 0 w
      | Some b \<Rightarrow>
        obind (get_brick b w) (\<lambda>br w.
          case f (reg ! ops br) of None \<Rightarrow> Ret 0 w | Some g \<Rightarrow> Ret (g (priv_state br) (mst w)) w))"

definition pg_brick_rx_bytes :: "brick_ops list \<Rightarrow> nat option \<Rightarrow> world \<Rightarrow> (u64, world) out" where
  "pg_brick_rx_bytes = brick_bytes op_rx_bytes"

definition pg_brick_tx_bytes :: "brick_ops list \<Rightarrow> nat option \<Rightarrow> world \<Rightarrow> (u64, world) out" where
  "pg_brick_tx_bytes = brick_bytes op_tx_bytes"

definition pg_brick_name :: "nat \<Rightarrow> world \<Rightarrow> (string, world) out" where
  "pg_brick_name b w = obind (get_brick b w) (\<lambda>br w. Ret (brick_name br) w)"

definition pg_brick_type_name :: "brick_ops list \<Rightarrow> nat \<Rightarrow> world \<Rightarrow> (string, world) out" where
  "pg_brick_type_name reg b w = obind (get_brick b w) (\<lambda>br w. Ret (op_name (reg ! ops br)) w)"

end
