(* ===== verification/PG_Topology.thy ===== *)
theory PG_Topology
  imports PG_Brick
begin

text \<open>
  The graph the bricks form. The abstract state is a partial matching of ports, where a
  port is a brick, a side and an index: \<open>m_link\<close> adds a pair, \<open>m_unlink\<close> removes one. The
  invariant \<open>wf_world\<close> says that the edges stored in the bricks are such a matching, that the
  counters \<open>nb\<close> and the reference counts agree with it, and that the private state of each
  brick is in order. The lemmas show that \<open>pg_brick_link\<close> and \<open>do_unlink\<close> implement the
  abstract operations, so a brick with a link is never freed.

  What the management of bricks relies on in the operations of a brick is the locale
  \<open>brick_contract\<close>; its interpretation on the registered bricks is in \<open>PG_Registry\<close>.
\<close>

section \<open>The abstract graph\<close>

type_synonym port = "nat \<times> pg_side \<times> nat"

definition matching :: "(port \<rightharpoonup> port) \<Rightarrow> bool" where
  "matching m \<longleftrightarrow>
     (\<forall>b s i q. m (b, s, i) = Some q \<longrightarrow>
        m q = Some (b, s, i) \<and> fst q \<noteq> b \<and> fst (snd q) = pg_flip_side s)"

definition m_link :: "port \<Rightarrow> port \<Rightarrow> (port \<rightharpoonup> port) \<Rightarrow> (port \<rightharpoonup> port)" where
  "m_link p q m = m(p \<mapsto> q, q \<mapsto> p)"

definition m_unlink :: "port \<Rightarrow> (port \<rightharpoonup> port) \<Rightarrow> (port \<rightharpoonup> port)" where
  "m_unlink p m = (case m p of None \<Rightarrow> m | Some q \<Rightarrow> m(p := None, q := None))"

lemma matchingD:
  assumes "matching m" and "m (b, s, i) = Some q"
  shows "m q = Some (b, s, i)" and "fst q \<noteq> b" and "fst (snd q) = pg_flip_side s"
  using assms unfolding matching_def by blast+

lemma matching_link:
  assumes "matching m" and "m (b, s, i) = None" and "m (c, pg_flip_side s, j) = None" and "b \<noteq> c"
  shows "matching (m_link (b, s, i) (c, pg_flip_side s, j) m)"
  unfolding matching_def
proof (intro allI impI)
  fix b' s' i' q
  assume a: "m_link (b, s, i) (c, pg_flip_side s, j) m (b', s', i') = Some q"
  show "m_link (b, s, i) (c, pg_flip_side s, j) m q = Some (b', s', i') \<and>
      fst q \<noteq> b' \<and> fst (snd q) = pg_flip_side s'"
  proof (cases "(b', s', i') = (b, s, i) \<or> (b', s', i') = (c, pg_flip_side s, j)")
    case True
    then show ?thesis using a assms(4) by (auto simp: m_link_def split: if_splits)
  next
    case False
    then have m: "m (b', s', i') = Some q" using a by (auto simp: m_link_def split: if_splits)
    note q = matchingD [OF assms(1) m]
    then have "q \<noteq> (b, s, i)" "q \<noteq> (c, pg_flip_side s, j)" using assms(2,3) by auto
    then show ?thesis using q by (simp add: m_link_def)
  qed
qed

lemma matching_unlink:
  assumes "matching m" shows "matching (m_unlink p m)"
proof (cases "m p")
  case None
  then show ?thesis using assms by (simp add: m_unlink_def)
next
  case (Some q)
  obtain b s i where p: "p = (b, s, i)" by (cases p) auto
  have q: "m q = Some p" using matchingD(1) [OF assms, of b s i q] Some p by simp
  show ?thesis
    unfolding matching_def
  proof (intro allI impI)
    fix b' s' i' q'
    assume a: "m_unlink p m (b', s', i') = Some q'"
    then have ne: "(b', s', i') \<noteq> p" "(b', s', i') \<noteq> q" and m: "m (b', s', i') = Some q'"
      using Some by (auto simp: m_unlink_def split: if_splits)
    note q' = matchingD [OF assms m]
    then have "q' \<noteq> p" "q' \<noteq> q" using Some q ne by auto
    then show "m_unlink p m q' = Some (b', s', i') \<and> fst q' \<noteq> b' \<and> fst (snd q') = pg_flip_side s'"
      using q' Some by (simp add: m_unlink_def)
  qed
qed

section \<open>The concrete graph\<close>

definition gside :: "brick_ops list \<Rightarrow> pg_brick \<Rightarrow> pg_side" where
  "gside reg br =
     (case op_get_side (reg ! ops br) of None \<Rightarrow> PG_WEST_SIDE | Some f \<Rightarrow> f (priv_state br))"

definition plink :: "brick_ops list \<Rightarrow> pg_brick \<Rightarrow> pg_side \<Rightarrow> nat \<Rightarrow> (nat \<times> nat) option" where
  "plink reg br s i =
     (case brick_type br of
        PG_MULTIPOLE \<Rightarrow>
          if i < length (edges (sides br s))
          then map_option (\<lambda>c. (c, pair_index (edges (sides br s) ! i))) (link (edges (sides br s) ! i))
          else None
      | PG_DIPOLE \<Rightarrow>
          if i = 0 then map_option (\<lambda>c. (c, pair_index (edge (sides br s)))) (link (edge (sides br s)))
          else None
      | PG_MONOPOLE \<Rightarrow>
          if i = 0 \<and> s = gside reg br
          then map_option (\<lambda>c. (c, pair_index (edge (sides br PG_WEST_SIDE))))
                 (link (edge (sides br PG_WEST_SIDE)))
          else None)"

definition graph :: "brick_ops list \<Rightarrow> world \<Rightarrow> port \<rightharpoonup> port" where
  "graph reg w = (\<lambda>(b, s, i).
     case bricks w b of None \<Rightarrow> None
     | Some br \<Rightarrow> map_option (\<lambda>(c, j). (c, pg_flip_side s, j)) (plink reg br s i))"

definition side_links :: "pg_brick \<Rightarrow> pg_side \<Rightarrow> nat" where
  "side_links br s =
     (if brick_type br = PG_MULTIPOLE then length (filter (\<lambda>e. link e \<noteq> None) (edges (sides br s)))
      else if link (edge (sides br s)) \<noteq> None then 1 else 0)"

definition degree :: "pg_brick \<Rightarrow> nat" where
  "degree br =
     (if brick_type br = PG_MONOPOLE then side_links br PG_WEST_SIDE
      else side_links br PG_WEST_SIDE + side_links br PG_EAST_SIDE)"

text \<open>The references to a brick that do not come from its links.\<close>

definition holders :: "world \<Rightarrow> nat \<Rightarrow> int option" where
  "holders w b = map_option (\<lambda>br. refcount br - int (degree br)) (bricks w b)"

definition wf_side :: "pg_brick \<Rightarrow> pg_side \<Rightarrow> bool" where
  "wf_side br s \<longleftrightarrow>
     (brick_type br = PG_MULTIPOLE \<longrightarrow>
        length (edges (sides br s)) = side_max (sides br s) \<and> side_max (sides br s) < 65535) \<and>
     (brick_type br \<noteq> PG_MULTIPOLE \<longrightarrow> side_max (sides br s) \<le> 1) \<and>
     (brick_type br \<noteq> PG_MONOPOLE \<or> s = PG_WEST_SIDE \<longrightarrow> side_nb (sides br s) = side_links br s)"

definition wf_brick :: "brick_ops list \<Rightarrow> pg_brick \<Rightarrow> bool" where
  "wf_brick reg br \<longleftrightarrow>
     ops br < length reg \<and>
     (brick_type br = PG_MONOPOLE \<longrightarrow> op_get_side (reg ! ops br) \<noteq> None) \<and>
     (\<forall>s. wf_side br s)"

definition wf_world :: "brick_ops list \<Rightarrow> (nat \<Rightarrow> priv \<Rightarrow> bool) \<Rightarrow> world \<Rightarrow> bool" where
  "wf_world reg pinv w \<longleftrightarrow>
     (\<forall>b. brick_next w \<le> b \<longrightarrow> bricks w b = None) \<and>
     (\<forall>b br. bricks w b = Some br \<longrightarrow>
        wf_brick reg br \<and> pinv (ops br) (priv_state br) \<and> 1 + int (degree br) \<le> refcount br) \<and>
     matching (graph reg w)"

text \<open>Two bricks, and two worlds, that differ in their data but not in their topology.\<close>

definition same_side :: "pg_brick_side \<Rightarrow> pg_brick_side \<Rightarrow> bool" where
  "same_side s s' \<longleftrightarrow> side_max s' = side_max s \<and> side_nb s' = side_nb s \<and> edges s' = edges s \<and>
     edge s' = edge s"

definition same_brick :: "brick_ops list \<Rightarrow> pg_brick \<Rightarrow> pg_brick \<Rightarrow> bool" where
  "same_brick reg br br' \<longleftrightarrow>
     ops br' = ops br \<and> refcount br' = refcount br \<and> brick_name br' = brick_name br \<and>
     brick_type br' = brick_type br \<and> (\<forall>s. same_side (sides br s) (sides br' s)) \<and>
     gside reg br' = gside reg br"

definition same_topology :: "brick_ops list \<Rightarrow> world \<Rightarrow> world \<Rightarrow> bool" where
  "same_topology reg w w' \<longleftrightarrow>
     brick_next w' = brick_next w \<and> (\<forall>b. rel_option (same_brick reg) (bricks w b) (bricks w' b))"

definition same_shape :: "brick_ops list \<Rightarrow> world \<Rightarrow> world \<Rightarrow> bool" where
  "same_shape reg w w' \<longleftrightarrow>
     (\<forall>b. rel_option (\<lambda>br br'. ops br' = ops br \<and> brick_type br' = brick_type br \<and>
            brick_name br' = brick_name br \<and> gside reg br' = gside reg br \<and>
            (\<forall>s. side_max (sides br' s) = side_max (sides br s))) (bricks w b) (bricks w' b))"

definition pinv_world :: "(nat \<Rightarrow> priv \<Rightarrow> bool) \<Rightarrow> world \<Rightarrow> bool" where
  "pinv_world pinv w \<longleftrightarrow> (\<forall>b br. bricks w b = Some br \<longrightarrow> pinv (ops br) (priv_state br))"

lemma wf_worldD:
  assumes "wf_world reg pinv w" and "bricks w b = Some br"
  shows "wf_brick reg br" and "pinv (ops br) (priv_state br)" and "1 + int (degree br) \<le> refcount br"
    and "wf_side br s"
  using assms by (auto simp: wf_world_def wf_brick_def)

lemma wf_world_matching: "wf_world reg pinv w \<Longrightarrow> matching (graph reg w)"
  by (simp add: wf_world_def)

section \<open>Heap updates\<close>

lemma get_brick_Some [simp]: "bricks w b = Some br \<Longrightarrow> get_brick b w = Ret br w"
  by (simp add: get_brick_def)

lemma upd_brick_fields [simp]:
  "brick_next (upd_brick b f w) = brick_next w" "arrays (upd_brick b f w) = arrays w"
  "mst (upd_brick b f w) = mst w" "errp (upd_brick b f w) = errp w"
  "arr_next (upd_brick b f w) = arr_next w" "malloc_cnt (upd_brick b f w) = malloc_cnt w"
  by (simp_all add: upd_brick_def)

lemma bricks_upd_brick:
  "bricks (upd_brick b f w) c = (if c = b then map_option f (bricks w b) else bricks w c)"
  by (simp add: upd_brick_def)

lemma upd_side_simps [simp]:
  "burst (upd_side s f br) = burst br" "poll (upd_side s f br) = poll br"
  "ops (upd_side s f br) = ops br" "refcount (upd_side s f br) = refcount br"
  "brick_name (upd_side s f br) = brick_name br" "brick_type (upd_side s f br) = brick_type br"
  "priv_state (upd_side s f br) = priv_state br"
  "sides (upd_side s f br) = (sides br)(s := f (sides br s))"
  by (simp_all add: upd_side_def)

lemma set_edge_simps [simp]:
  "burst (pg_brick_set_edge s i f br) = burst br" "poll (pg_brick_set_edge s i f br) = poll br"
  "ops (pg_brick_set_edge s i f br) = ops br" "refcount (pg_brick_set_edge s i f br) = refcount br"
  "brick_name (pg_brick_set_edge s i f br) = brick_name br"
  "brick_type (pg_brick_set_edge s i f br) = brick_type br"
  "priv_state (pg_brick_set_edge s i f br) = priv_state br"
  by (simp_all add: pg_brick_set_edge_def split: pg_brick_type.splits)

lemma side_upd_commute [simp]:
  "sd\<lparr>edge := e, side_nb := n\<rparr> = sd\<lparr>side_nb := n, edge := e\<rparr>" for sd :: pg_brick_side
  by simp

lemma edge_full [simp]: "e\<lparr>link := l, pair_index := j\<rparr> = \<lparr>link = l, pair_index = j\<rparr>" for e :: pg_brick_edge
  by simp

section \<open>Adding a link to a brick\<close>

definition free_port :: "pg_brick \<Rightarrow> pg_side \<Rightarrow> nat \<Rightarrow> bool" where
  "free_port br s i \<longleftrightarrow>
     (case pg_brick_get_edge br s i of None \<Rightarrow> False | Some e \<Rightarrow> link e = None) \<and>
     (brick_type br \<noteq> PG_MULTIPOLE \<longrightarrow> i = 0)"

definition bump :: "pg_side \<Rightarrow> pg_brick \<Rightarrow> pg_brick" where
  "bump s br = upd_side (get_side br s) (\<lambda>sd. sd\<lparr>side_nb := inc16 (side_nb sd)\<rparr>) br"

definition notified :: "brick_ops list \<Rightarrow> pg_side \<Rightarrow> nat \<Rightarrow> pg_brick \<Rightarrow> pg_brick" where
  "notified reg s i br =
     (case op_link_notify (reg ! ops br) of None \<Rightarrow> br
      | Some f \<Rightarrow> br\<lparr>priv_state := f (priv_state br) s i\<rparr>)"

definition link_brick ::
    "brick_ops list \<Rightarrow> nat \<Rightarrow> pg_side \<Rightarrow> nat \<Rightarrow> nat \<Rightarrow> pg_brick \<Rightarrow> pg_brick" where
  "link_brick reg c s i j br =
     pg_brick_set_edge s i (\<lambda>_. \<lparr>link = Some c, pair_index = j\<rparr>)
       (bump s (notified reg s i (br\<lparr>refcount := refcount br + 1\<rparr>)))"

lemma first_free_Some:
  "first_free es = Some i \<Longrightarrow> i < length es \<and> link (es ! i) = None"
proof -
  assume "first_free es = Some i"
  then obtain rest where "filter (\<lambda>i. link (es ! i) = None) [0..<length es] = i # rest"
    by (auto simp: first_free_def split: list.splits)
  then have "i \<in> set (filter (\<lambda>i. link (es ! i) = None) [0..<length es])" by simp
  then show ?thesis by simp
qed

lemma first_free_None: "first_free es = None \<longleftrightarrow> (\<forall>e \<in> set es. link e \<noteq> None)"
proof -
  have "first_free es = None \<longleftrightarrow> filter (\<lambda>i. link (es ! i) = None) [0..<length es] = []"
    by (simp add: first_free_def split: list.splits)
  also have "\<dots> \<longleftrightarrow> (\<forall>i < length es. link (es ! i) \<noteq> None)"
    by (auto simp: filter_empty_conv)
  finally show ?thesis by (simp add: all_set_conv_all_nth)
qed

lemma available_free:
  assumes "wf_side br s" and "brick_type br = PG_MULTIPOLE" and "is_place_available br s"
  obtains i where "first_free (take (side_max (sides br s)) (edges (sides br s))) = Some i"
    and "free_port br s i" and "edges (sides br s) \<noteq> []"
proof -
  let ?es = "edges (sides br s)"
  have len: "length ?es = side_max (sides br s)" using assms by (simp add: wf_side_def)
  have "length (filter (\<lambda>e. link e \<noteq> None) ?es) < length ?es"
    using assms by (simp add: wf_side_def is_place_available_def get_side_def side_links_def)
  then have ex: "\<not> (\<forall>e \<in> set ?es. link e \<noteq> None)" using filter_True [of ?es] by force
  then obtain i where i: "first_free ?es = Some i" using first_free_None by blast
  show thesis
  proof (rule that)
    show "first_free (take (side_max (sides br s)) ?es) = Some i" using i len by simp
    show "free_port br s i"
      using first_free_Some [OF i] assms(2) by (simp add: free_port_def pg_brick_get_edge_def)
    show "?es \<noteq> []" using ex by auto
  qed
qed

lemma insert_link_ok:
  assumes "bricks w b = Some br" and "bricks w c = Some cr" and "b \<noteq> c"
    and "\<And>s. wf_side br s" and "is_place_available br s"
  obtains i where "free_port br s i"
    and "insert_link b c s w =
      Ret i (w\<lparr>bricks := (bricks w)(b \<mapsto> pg_brick_set_edge s i (\<lambda>e. e\<lparr>link := Some c\<rparr>) (bump s br),
                                    c \<mapsto> cr\<lparr>refcount := refcount cr + 1\<rparr>)\<rparr>)"
proof (cases "brick_type br")
  case PG_MULTIPOLE
  from available_free [OF assms(4) PG_MULTIPOLE assms(5)] obtain i where
    i: "first_free (take (side_max (sides br s)) (edges (sides br s))) = Some i"
       "free_port br s i" "edges (sides br s) \<noteq> []" .
  show thesis
  proof (rule that [OF i(2)])
    show "insert_link b c s w = Ret i (w\<lparr>bricks := (bricks w)
        (b \<mapsto> pg_brick_set_edge s i (\<lambda>e. e\<lparr>link := Some c\<rparr>) (bump s br),
         c \<mapsto> cr\<lparr>refcount := refcount cr + 1\<rparr>)\<rparr>)"
      using assms(1-3) i PG_MULTIPOLE
      by (simp add: insert_link_def Let_def pg_brick_incref_def upd_brick_def get_brick_def bump_def
          fun_upd_twist)
  qed
next
  case PG_MONOPOLE
  have "side_nb (sides br PG_WEST_SIDE) = 0"
    using assms(4) [of PG_WEST_SIDE] assms(5) PG_MONOPOLE
    by (simp add: wf_side_def is_place_available_def get_side_def)
  then have free: "free_port br s 0"
    using assms(4) [of PG_WEST_SIDE] PG_MONOPOLE
    by (simp add: wf_side_def free_port_def pg_brick_get_edge_def side_links_def split: if_splits)
  show thesis
    by (rule that [OF free])
       (use assms(1-3) PG_MONOPOLE in \<open>simp add: insert_link_def Let_def pg_brick_incref_def
          upd_brick_def get_brick_def bump_def fun_upd_twist\<close>)
next
  case PG_DIPOLE
  have "side_nb (sides br s) = 0"
    using assms(4) [of s] assms(5) PG_DIPOLE
    by (simp add: wf_side_def is_place_available_def get_side_def)
  then have free: "free_port br s 0"
    using assms(4) [of s] PG_DIPOLE
    by (simp add: wf_side_def free_port_def pg_brick_get_edge_def side_links_def split: if_splits)
  show thesis
    by (rule that [OF free])
       (use assms(1-3) PG_DIPOLE in \<open>simp add: insert_link_def Let_def pg_brick_incref_def
          upd_brick_def get_brick_def bump_def pg_brick_set_edge_def upd_side_def get_side_def
          fun_upd_twist\<close>)
qed

lemma notified_simps [simp]:
  "burst (notified reg s i br) = burst br" "poll (notified reg s i br) = poll br"
  "ops (notified reg s i br) = ops br" "refcount (notified reg s i br) = refcount br"
  "brick_name (notified reg s i br) = brick_name br"
  "brick_type (notified reg s i br) = brick_type br" "sides (notified reg s i br) = sides br"
  by (simp_all add: notified_def split: option.splits)

lemma priv_notified:
  "priv_state (notified reg s i br) =
     (case op_link_notify (reg ! ops br) of None \<Rightarrow> priv_state br | Some f \<Rightarrow> f (priv_state br) s i)"
  by (simp add: notified_def split: option.splits)

lemma bump_simps [simp]:
  "burst (bump s br) = burst br" "poll (bump s br) = poll br" "ops (bump s br) = ops br"
  "refcount (bump s br) = refcount br" "brick_name (bump s br) = brick_name br"
  "brick_type (bump s br) = brick_type br" "priv_state (bump s br) = priv_state br"
  "sides (bump s br) = (sides br)(get_side br s := (sides br (get_side br s))
      \<lparr>side_nb := inc16 (side_nb (sides br (get_side br s)))\<rparr>)"
  by (simp_all add: bump_def)

lemma link_brick_simps [simp]:
  "burst (link_brick reg c s i j br) = burst br" "poll (link_brick reg c s i j br) = poll br"
  "ops (link_brick reg c s i j br) = ops br"
  "refcount (link_brick reg c s i j br) = refcount br + 1"
  "brick_name (link_brick reg c s i j br) = brick_name br"
  "brick_type (link_brick reg c s i j br) = brick_type br"
  by (simp_all add: link_brick_def)

lemma sides_set_edge:
  "sides (pg_brick_set_edge s i f br) =
     (case brick_type br of
        PG_MULTIPOLE \<Rightarrow> (sides br)(s := (sides br s)\<lparr>edges := (edges (sides br s))[i := f (edges (sides br s) ! i)]\<rparr>)
      | PG_DIPOLE \<Rightarrow> (sides br)(s := (sides br s)\<lparr>edge := f (edge (sides br s))\<rparr>)
      | PG_MONOPOLE \<Rightarrow> (sides br)(PG_WEST_SIDE := (sides br PG_WEST_SIDE)
          \<lparr>edge := f (edge (sides br PG_WEST_SIDE))\<rparr>))"
  by (simp add: pg_brick_set_edge_def split: pg_brick_type.splits)

lemma get_side_cong [simp]:
  "get_side (br\<lparr>refcount := n\<rparr>) s = get_side br s" "get_side (br\<lparr>priv_state := q\<rparr>) s = get_side br s"
  "get_side (bump t br) s = get_side br s" "get_side (notified reg t i br) s = get_side br s"
  "get_side (pg_brick_set_edge t i f br) s = get_side br s"
  by (simp_all add: get_side_def)

lemma gside_cong [simp]:
  "gside reg (br\<lparr>refcount := n\<rparr>) = gside reg br" "gside reg (bump t br) = gside reg br"
  "gside reg (pg_brick_set_edge t i f br) = gside reg br" "gside reg (upd_side t g br) = gside reg br"
  by (auto simp: gside_def split: option.splits)

text \<open>The steps of \<open>pg_brick_link\<close> on one of the two bricks add up to \<open>link_brick\<close>.\<close>

lemma link_steps:
  assumes "free_port br s i"
  shows "pg_brick_set_edge s i (\<lambda>e. e\<lparr>pair_index := j\<rparr>)
           ((notified reg s i (pg_brick_set_edge s i (\<lambda>e. e\<lparr>link := Some c\<rparr>) (bump s br)))
             \<lparr>refcount := refcount br + 1\<rparr>) = link_brick reg c s i j br"
    and "pg_brick_set_edge s i (\<lambda>e. e\<lparr>pair_index := j\<rparr>)
           (notified reg s i (pg_brick_set_edge s i (\<lambda>e. e\<lparr>link := Some c\<rparr>)
             (bump s (br\<lparr>refcount := refcount br + 1\<rparr>)))) = link_brick reg c s i j br"
proof -
  have "i < length (edges (sides br s))" if "brick_type br = PG_MULTIPOLE"
    using assms that by (simp add: free_port_def pg_brick_get_edge_def split: if_splits)
  then show "pg_brick_set_edge s i (\<lambda>e. e\<lparr>pair_index := j\<rparr>)
           ((notified reg s i (pg_brick_set_edge s i (\<lambda>e. e\<lparr>link := Some c\<rparr>) (bump s br)))
             \<lparr>refcount := refcount br + 1\<rparr>) = link_brick reg c s i j br"
    and "pg_brick_set_edge s i (\<lambda>e. e\<lparr>pair_index := j\<rparr>)
           (notified reg s i (pg_brick_set_edge s i (\<lambda>e. e\<lparr>link := Some c\<rparr>)
             (bump s (br\<lparr>refcount := refcount br + 1\<rparr>)))) = link_brick reg c s i j br"
    by (auto intro!: pg_brick.equality simp: sides_set_edge link_brick_def priv_notified get_side_def
        split: pg_brick_type.splits option.splits)
qed

lemma available_cong [simp]:
  "is_place_available (br\<lparr>refcount := n\<rparr>) s = is_place_available br s"
  "wf_side (br\<lparr>refcount := n\<rparr>) s = wf_side br s"
  "free_port (br\<lparr>refcount := n\<rparr>) s i = free_port br s i"
  by (simp_all add: is_place_available_def wf_side_def side_links_def free_port_def pg_brick_get_edge_def
      split: pg_brick_type.splits)

lemma free_port_get_edge:
  "free_port br s i \<Longrightarrow> \<exists>e. pg_brick_get_edge br s i = Some e"
  by (cases "pg_brick_get_edge br s i") (simp_all add: free_port_def)

lemma get_edge_after_link:
  "free_port br s i \<Longrightarrow>
   \<exists>e. pg_brick_get_edge (notified reg s i (pg_brick_set_edge s i f (bump s (br\<lparr>refcount := n\<rparr>)))) s i = Some e"
  "free_port br s i \<Longrightarrow>
   \<exists>e. pg_brick_get_edge ((notified reg s i (pg_brick_set_edge s i f (bump s br)))\<lparr>refcount := n\<rparr>) s i = Some e"
  by (auto simp: free_port_def pg_brick_get_edge_def sides_set_edge get_side_def
      split: pg_brick_type.splits if_splits)

lemma pg_brick_link_ok:
  assumes "bricks w wb = Some wbr" and "bricks w eb = Some ebr" and "wb \<noteq> eb"
    and "\<And>s. wf_side wbr s" and "\<And>s. wf_side ebr s"
    and "is_place_available wbr PG_EAST_SIDE" and "is_place_available ebr PG_WEST_SIDE"
  obtains i j where "free_port wbr PG_EAST_SIDE i" and "free_port ebr PG_WEST_SIDE j"
    and "pg_brick_link reg (Some wb) (Some eb) w =
      Ret 0 (w\<lparr>bricks := (bricks w)(eb \<mapsto> link_brick reg wb PG_WEST_SIDE j i ebr,
                                    wb \<mapsto> link_brick reg eb PG_EAST_SIDE i j wbr)\<rparr>)"
proof -
  from insert_link_ok [OF assms(2,1) _ assms(5,7)] assms(3) obtain j where
    j: "free_port ebr PG_WEST_SIDE j" and ins1: "insert_link eb wb PG_WEST_SIDE w =
      Ret j (w\<lparr>bricks := (bricks w)(eb \<mapsto> pg_brick_set_edge PG_WEST_SIDE j (\<lambda>e. e\<lparr>link := Some wb\<rparr>) (bump PG_WEST_SIDE ebr),
                                    wb \<mapsto> wbr\<lparr>refcount := refcount wbr + 1\<rparr>)\<rparr>)" by metis
  define e1 where "e1 = notified reg PG_WEST_SIDE j
      (pg_brick_set_edge PG_WEST_SIDE j (\<lambda>e. e\<lparr>link := Some wb\<rparr>) (bump PG_WEST_SIDE ebr))"
  define w1 where "w1 = w\<lparr>bricks := (bricks w)(eb \<mapsto> e1, wb \<mapsto> wbr\<lparr>refcount := refcount wbr + 1\<rparr>)\<rparr>"
  have not1: "link_notify reg eb PG_WEST_SIDE j
      (w\<lparr>bricks := (bricks w)(eb \<mapsto> pg_brick_set_edge PG_WEST_SIDE j (\<lambda>e. e\<lparr>link := Some wb\<rparr>) (bump PG_WEST_SIDE ebr),
                              wb \<mapsto> wbr\<lparr>refcount := refcount wbr + 1\<rparr>)\<rparr>) = Ret () w1"
    using assms(3)
    by (auto simp: w1_def e1_def link_notify_def upd_brick_def notified_def fun_upd_twist
        split: option.splits)
  have "bricks w1 wb = Some (wbr\<lparr>refcount := refcount wbr + 1\<rparr>)" "bricks w1 eb = Some e1"
    using assms(3) by (simp_all add: w1_def)
  from insert_link_ok [OF this assms(3), of PG_EAST_SIDE] assms(4,6) obtain i where
    i: "free_port wbr PG_EAST_SIDE i" and ins2: "insert_link wb eb PG_EAST_SIDE w1 =
      Ret i (w1\<lparr>bricks := (bricks w1)
        (wb \<mapsto> pg_brick_set_edge PG_EAST_SIDE i (\<lambda>e. e\<lparr>link := Some eb\<rparr>)
                  (bump PG_EAST_SIDE (wbr\<lparr>refcount := refcount wbr + 1\<rparr>)),
         eb \<mapsto> e1\<lparr>refcount := refcount e1 + 1\<rparr>)\<rparr>)" by auto
  define e2 where "e2 = e1\<lparr>refcount := refcount ebr + 1\<rparr>"
  define v2 where "v2 = notified reg PG_EAST_SIDE i (pg_brick_set_edge PG_EAST_SIDE i
      (\<lambda>e. e\<lparr>link := Some eb\<rparr>) (bump PG_EAST_SIDE (wbr\<lparr>refcount := refcount wbr + 1\<rparr>)))"
  define w2 where "w2 = w\<lparr>bricks := (bricks w)(eb \<mapsto> e2, wb \<mapsto> v2)\<rparr>"
  have not2: "link_notify reg wb PG_EAST_SIDE i
      (w1\<lparr>bricks := (bricks w1)
        (wb \<mapsto> pg_brick_set_edge PG_EAST_SIDE i (\<lambda>e. e\<lparr>link := Some eb\<rparr>)
                  (bump PG_EAST_SIDE (wbr\<lparr>refcount := refcount wbr + 1\<rparr>)),
         eb \<mapsto> e1\<lparr>refcount := refcount e1 + 1\<rparr>)\<rparr>) = Ret () w2"
    using assms(3)
    by (auto simp: w2_def w1_def v2_def e2_def e1_def link_notify_def upd_brick_def notified_def
        fun_upd_twist split: option.splits)
  have e: "pg_brick_set_edge PG_WEST_SIDE j (\<lambda>e. e\<lparr>pair_index := i\<rparr>) e2 =
      link_brick reg wb PG_WEST_SIDE j i ebr"
    unfolding e2_def e1_def by (rule link_steps(1) [OF j])
  have v: "pg_brick_set_edge PG_EAST_SIDE i (\<lambda>e. e\<lparr>pair_index := j\<rparr>) v2 =
      link_brick reg eb PG_EAST_SIDE i j wbr"
    unfolding v2_def by (rule link_steps(2) [OF i])
  obtain x y where x: "pg_brick_get_edge e2 PG_WEST_SIDE j = Some x"
    and y: "pg_brick_get_edge v2 PG_EAST_SIDE i = Some y"
    unfolding e2_def e1_def v2_def
    using get_edge_after_link(2) [OF j] get_edge_after_link(1) [OF i] by metis
  define w3 where "w3 = w\<lparr>bricks := (bricks w)(eb \<mapsto> link_brick reg wb PG_WEST_SIDE j i ebr, wb \<mapsto> v2)\<rparr>"
  have set1: "set_edge eb PG_WEST_SIDE j i w2 = Ret 0 w3"
    using assms(3) x e by (auto simp: set_edge_def w2_def w3_def upd_brick_def fun_upd_twist)
  have set2: "set_edge wb PG_EAST_SIDE i j w3 =
      Ret 0 (w\<lparr>bricks := (bricks w)(eb \<mapsto> link_brick reg wb PG_WEST_SIDE j i ebr,
                                    wb \<mapsto> link_brick reg eb PG_EAST_SIDE i j wbr)\<rparr>)"
    using assms(3) y v by (auto simp: set_edge_def w3_def upd_brick_def fun_upd_twist)
  have "pg_brick_link reg (Some wb) (Some eb) w =
      Ret 0 (w\<lparr>bricks := (bricks w)(eb \<mapsto> link_brick reg wb PG_WEST_SIDE j i ebr,
                                    wb \<mapsto> link_brick reg eb PG_EAST_SIDE i j wbr)\<rparr>)"
    using assms(1-3,6,7) ins1 not1 ins2 not2 set1 set2 by (simp add: pg_brick_link_def)
  with i j show thesis by (rule that)
qed

section \<open>What brick management relies on\<close>

text \<open>
  The contract of the operations of a brick. A brick of one port reports the side it was
  last linked on; the callbacks keep the private states in order; and \<open>unlink_notify\<close> and
  \<open>destroy\<close>, when they return, leave the topology alone. Operations marked \<open>quiet\<close> return
  from \<open>unlink_notify\<close>, without an error.
\<close>

locale brick_contract =
  fixes reg :: "brick_ops list"
    and pinv :: "nat \<Rightarrow> priv \<Rightarrow> bool"
    and quiet :: "nat \<Rightarrow> bool"
  assumes get_side_after_link:
      "k < length reg \<Longrightarrow> op_get_side (reg ! k) = Some g \<Longrightarrow> pinv k p \<Longrightarrow>
       \<exists>f. op_link_notify (reg ! k) = Some f \<and> g (f p s i) = s"
    and pinv_link:
      "k < length reg \<Longrightarrow> op_link_notify (reg ! k) = Some f \<Longrightarrow> pinv k p \<Longrightarrow> pinv k (f p s i)"
    and unlink_notify_safe:
      "k < length reg \<Longrightarrow> op_unlink_notify (reg ! k) = Some u \<Longrightarrow> bricks w b = Some br \<Longrightarrow> ops br = k \<Longrightarrow>
       pinv_world pinv w \<Longrightarrow>
       ores (u b s i w) (\<lambda>_ w'. same_topology reg w w' \<and> pinv_world pinv w')"
    and unlink_notify_quiet:
      "k < length reg \<Longrightarrow> op_unlink_notify (reg ! k) = Some u \<Longrightarrow> bricks w b = Some br \<Longrightarrow> ops br = k \<Longrightarrow>
       pinv_world pinv w \<Longrightarrow> quiet k \<Longrightarrow> oret (u b s i w) (\<lambda>_ w'. errp w' = errp w)"
    and destroy_safe:
      "k < length reg \<Longrightarrow> op_destroy (reg ! k) = Some d \<Longrightarrow> bricks w b = Some br \<Longrightarrow> ops br = k \<Longrightarrow>
       pinv_world pinv w \<Longrightarrow>
       ores (d b w) (\<lambda>_ w'. same_topology reg w w' \<and> pinv_world pinv w')"
begin

lemma gside_notified:
  assumes "wf_brick reg br" and "brick_type br = PG_MONOPOLE" and "pinv (ops br) (priv_state br)"
  shows "gside reg (notified reg s i br) = s"
proof -
  from assms obtain g where g: "op_get_side (reg ! ops br) = Some g" by (auto simp: wf_brick_def)
  from get_side_after_link [OF _ g assms(3), of s i] assms(1) show ?thesis
    by (auto simp: wf_brick_def gside_def g priv_notified)
qed

lemma pinv_notified:
  "ops br < length reg \<Longrightarrow> pinv (ops br) (priv_state br) \<Longrightarrow> pinv (ops br) (priv_state (notified reg s i br))"
  using pinv_link [of "ops br"] by (auto simp: priv_notified split: option.splits)

end

lemma length_filter_set:
  assumes "i < length xs" and "\<not> P (xs ! i)" and "P y"
  shows "length (filter P (xs[i := y])) = Suc (length (filter P xs))"
  using assms
proof (induction xs arbitrary: i)
  case (Cons x xs)
  then show ?case by (cases i) auto
qed simp

lemma length_filter_unset:
  assumes "i < length xs" and "P (xs ! i)" and "\<not> P y"
  shows "Suc (length (filter P (xs[i := y]))) = length (filter P xs)"
  using assms
proof (induction xs arbitrary: i)
  case (Cons x xs)
  then show ?case by (cases i) auto
qed simp

lemma side_links_link_brick:
  assumes "free_port br s i"
  shows "brick_type br = PG_MONOPOLE \<Longrightarrow>
      side_links (link_brick reg c s i j br) t =
        (if t = PG_WEST_SIDE then Suc (side_links br t) else side_links br t)"
    and "brick_type br \<noteq> PG_MONOPOLE \<Longrightarrow>
      side_links (link_brick reg c s i j br) t = (if t = s then Suc (side_links br t) else side_links br t)"
  using assms
  by (auto simp: side_links_def link_brick_def sides_set_edge free_port_def pg_brick_get_edge_def
      get_side_def length_filter_set split: pg_brick_type.splits if_splits)

lemma degree_link_brick:
  "free_port br s i \<Longrightarrow> degree (link_brick reg c s i j br) = Suc (degree br)"
  by (cases s) (auto simp: degree_def side_links_link_brick)

lemma side_nb_link_brick:
  "side_nb (sides (link_brick reg c s i j br) t) =
     (if t = get_side br s then inc16 (side_nb (sides br t)) else side_nb (sides br t))"
  "side_max (sides (link_brick reg c s i j br) t) = side_max (sides br t)"
  "length (edges (sides (link_brick reg c s i j br) t)) = length (edges (sides br t))"
  by (auto simp: link_brick_def sides_set_edge get_side_def split: pg_brick_type.splits)

lemma available_less:
  "wf_side br (get_side br s) \<Longrightarrow> is_place_available br s \<Longrightarrow> side_nb (sides br (get_side br s)) < 65535"
  by (cases "brick_type br") (auto simp: wf_side_def is_place_available_def)

lemma wf_side_link_brick:
  assumes "\<And>s. wf_side br s" and "free_port br s i" and "is_place_available br s"
  shows "wf_side (link_brick reg c s i j br) t"
proof (cases "brick_type br = PG_MONOPOLE")
  case True
  then show ?thesis
    using assms(1) [of t] assms(1) [of "get_side br s"] available_less [OF assms(1,3)]
    by (auto simp: wf_side_def side_nb_link_brick side_links_link_brick [OF assms(2)] get_side_def)
next
  case False
  then show ?thesis
    using assms(1) [of t] assms(1) [of "get_side br s"] available_less [OF assms(1,3)]
    by (auto simp: wf_side_def side_nb_link_brick side_links_link_brick [OF assms(2)] get_side_def)
qed

context brick_contract
begin

lemma plink_link_brick:
  assumes "wf_brick reg br" and "pinv (ops br) (priv_state br)" and "free_port br s i"
  shows "plink reg (link_brick reg c s i j br) t l =
           (if t = s \<and> l = i then Some (c, j) else plink reg br t l)"
proof (cases "brick_type br")
  case PG_MULTIPOLE
  then show ?thesis
    using assms(3)
    by (auto simp: plink_def link_brick_def sides_set_edge free_port_def pg_brick_get_edge_def
        get_side_def nth_list_update split: if_splits)
next
  case PG_DIPOLE
  then show ?thesis
    using assms(3)
    by (auto simp: plink_def link_brick_def sides_set_edge free_port_def get_side_def)
next
  case PG_MONOPOLE
  have "gside reg (notified reg s i (br\<lparr>refcount := refcount br + 1\<rparr>)) = s"
    using gside_notified [of "br\<lparr>refcount := refcount br + 1\<rparr>" s i] assms PG_MONOPOLE
    by (simp add: wf_brick_def)
  then have "gside reg (link_brick reg c s i j br) = s"
    by (simp add: link_brick_def)
  then show ?thesis
    using assms(3) PG_MONOPOLE
    by (auto simp: plink_def link_brick_def sides_set_edge free_port_def pg_brick_get_edge_def
        get_side_def)
qed

lemma wf_brick_link_brick:
  assumes "wf_brick reg br" and "free_port br s i" and "is_place_available br s"
  shows "wf_brick reg (link_brick reg c s i j br)"
  using assms wf_side_link_brick [OF _ assms(2,3)] by (auto simp: wf_brick_def)

lemma pinv_link_brick:
  "wf_brick reg br \<Longrightarrow> pinv (ops br) (priv_state br) \<Longrightarrow>
   pinv (ops br) (priv_state (link_brick reg c s i j br))"
  using pinv_notified [of "br\<lparr>refcount := refcount br + 1\<rparr>" s i] by (simp add: link_brick_def wf_brick_def)

lemma free_port_plink:
  assumes "free_port br s i" shows "plink reg br s i = None"
  using assms
  by (auto simp: free_port_def pg_brick_get_edge_def plink_def split: pg_brick_type.splits if_splits)

text \<open>Linking two bricks with a free place each refines adding a pair to the matching.\<close>

lemma pg_brick_link_refines:
  assumes wf: "wf_world reg pinv w" and wb: "bricks w wb = Some wbr" and eb: "bricks w eb = Some ebr"
    and ne: "wb \<noteq> eb"
    and "is_place_available wbr PG_EAST_SIDE" and "is_place_available ebr PG_WEST_SIDE"
  obtains i j w' where "pg_brick_link reg (Some wb) (Some eb) w = Ret 0 w'"
    and "graph reg w (wb, PG_EAST_SIDE, i) = None" and "graph reg w (eb, PG_WEST_SIDE, j) = None"
    and "graph reg w' = m_link (wb, PG_EAST_SIDE, i) (eb, PG_WEST_SIDE, j) (graph reg w)"
    and "wf_world reg pinv w'" and "errp w' = errp w"
    and "bricks w' = (bricks w)(eb \<mapsto> link_brick reg wb PG_WEST_SIDE j i ebr,
                                wb \<mapsto> link_brick reg eb PG_EAST_SIDE i j wbr)"
proof -
  note wwf = wf_worldD [OF wf wb] and ewf = wf_worldD [OF wf eb]
  from pg_brick_link_ok [OF wb eb ne wwf(4) ewf(4) assms(5,6)] obtain i j where
    i: "free_port wbr PG_EAST_SIDE i" and j: "free_port ebr PG_WEST_SIDE j"
    and ret: "pg_brick_link reg (Some wb) (Some eb) w =
      Ret 0 (w\<lparr>bricks := (bricks w)(eb \<mapsto> link_brick reg wb PG_WEST_SIDE j i ebr,
                                    wb \<mapsto> link_brick reg eb PG_EAST_SIDE i j wbr)\<rparr>)" by metis
  let ?w' = "w\<lparr>bricks := (bricks w)(eb \<mapsto> link_brick reg wb PG_WEST_SIDE j i ebr,
                                    wb \<mapsto> link_brick reg eb PG_EAST_SIDE i j wbr)\<rparr>"
  have free: "graph reg w (wb, PG_EAST_SIDE, i) = None" "graph reg w (eb, PG_WEST_SIDE, j) = None"
    using wb eb free_port_plink [OF i] free_port_plink [OF j] by (simp_all add: graph_def)
  have gr: "graph reg ?w' = m_link (wb, PG_EAST_SIDE, i) (eb, PG_WEST_SIDE, j) (graph reg w)"
    using ne wb eb plink_link_brick [OF wwf(1,2) i] plink_link_brick [OF ewf(1,2) j]
    by (auto simp: graph_def m_link_def fun_eq_iff)
  have "matching (graph reg ?w')"
    unfolding gr using matching_link [OF wf_world_matching [OF wf] free(1), of eb j] free ne by simp
  moreover have "wf_brick reg br \<and> pinv (ops br) (priv_state br) \<and> 1 + int (degree br) \<le> refcount br"
    if "bricks ?w' b = Some br" for b br
  proof -
    consider "b = wb" | "b = eb" | "b \<noteq> wb" "b \<noteq> eb" by blast
    then show ?thesis
    proof cases
      case 1
      then show ?thesis
        using that wwf wf_brick_link_brick [OF wwf(1) i assms(5)] pinv_link_brick [OF wwf(1,2)]
          degree_link_brick [OF i] by auto
    next
      case 2
      then show ?thesis
        using that ne ewf wf_brick_link_brick [OF ewf(1) j assms(6)] pinv_link_brick [OF ewf(1,2)]
          degree_link_brick [OF j] by auto
    next
      case 3
      then show ?thesis using that wf_worldD [OF wf, of b br] by simp
    qed
  qed
  moreover have "\<forall>b. brick_next ?w' \<le> b \<longrightarrow> bricks ?w' b = None"
  proof -
    have "wb < brick_next w" "eb < brick_next w"
      using wf wb eb unfolding wf_world_def by (metis linorder_not_less option.distinct(1))+
    then show ?thesis using wf by (auto simp: wf_world_def)
  qed
  ultimately have "wf_world reg pinv ?w'" unfolding wf_world_def by blast
  with ret free gr show thesis by (intro that [of ?w' i j]) simp_all
qed

end

section \<open>Removing a link\<close>

definition unlink_brick :: "pg_side \<Rightarrow> nat \<Rightarrow> pg_brick \<Rightarrow> pg_brick" where
  "unlink_brick s i br =
     upd_side (get_side br s) (\<lambda>sd. sd\<lparr>side_nb := dec16 (side_nb sd)\<rparr>)
       (pg_brick_set_edge s i reset_edge (br\<lparr>refcount := refcount br - 1\<rparr>))"

lemma unlink_brick_simps [simp]:
  "burst (unlink_brick s i br) = burst br" "poll (unlink_brick s i br) = poll br"
  "ops (unlink_brick s i br) = ops br" "refcount (unlink_brick s i br) = refcount br - 1"
  "brick_name (unlink_brick s i br) = brick_name br"
  "brick_type (unlink_brick s i br) = brick_type br"
  "priv_state (unlink_brick s i br) = priv_state br"
  "gside reg (unlink_brick s i br) = gside reg br"
  by (simp_all add: unlink_brick_def)

lemma get_edge_refcount [simp]:
  "pg_brick_get_edge (br\<lparr>refcount := n\<rparr>) s i = pg_brick_get_edge br s i"
  by (simp add: pg_brick_get_edge_def split: pg_brick_type.splits)

lemma get_side_idem: "brick_type br = PG_MONOPOLE \<or> t = s \<Longrightarrow> get_side br t = get_side br s"
  by (auto simp: get_side_def)

lemma unlink_pair_ok:
  assumes "bricks w b = Some br" and "bricks w p = Some pr" and "b \<noteq> p" and "errp w = None"
    and "pg_brick_get_edge br s i = Some e" and "link e = Some p"
    and "1 < refcount br" and "1 < refcount pr"
    and "brick_type br = PG_MONOPOLE \<or> side = s"
  shows "unlink_pair reg b s side i p ps j w =
     Ret () (w\<lparr>bricks := (bricks w)(b \<mapsto> unlink_brick s i br, p \<mapsto> unlink_brick ps j pr)\<rparr>)"
  using assms get_side_idem [OF assms(9)]
  by (simp add: unlink_pair_def pg_brick_decref_def upd_brick_def unless_error_def
      pg_error_is_set_def read_edge_def write_edge_def dec_nb_def unlink_brick_def fun_upd_twist)

definition lside :: "brick_ops list \<Rightarrow> pg_brick \<Rightarrow> pg_side \<Rightarrow> pg_side" where
  "lside reg br s = (if brick_type br = PG_MONOPOLE then gside reg br else s)"

definition linked_port :: "pg_brick \<Rightarrow> pg_side \<Rightarrow> nat \<Rightarrow> bool" where
  "linked_port br s i \<longleftrightarrow> edge_linked br s i \<and> (brick_type br \<noteq> PG_MULTIPOLE \<longrightarrow> i = 0)"

lemma side_links_unlink_brick:
  assumes "linked_port br s i"
  shows "Suc (side_links (unlink_brick s i br) (get_side br s)) = side_links br (get_side br s)"
    and "t \<noteq> get_side br s \<Longrightarrow> side_links (unlink_brick s i br) t = side_links br t"
  using assms
  by (auto simp: side_links_def unlink_brick_def sides_set_edge linked_port_def edge_linked_def
      pg_brick_get_edge_def get_side_def reset_edge_def length_filter_unset
      split: pg_brick_type.splits if_splits)

lemma degree_unlink_brick:
  assumes "linked_port br s i" shows "Suc (degree (unlink_brick s i br)) = degree br"
  using side_links_unlink_brick [OF assms]
  by (cases s; cases "brick_type br = PG_MONOPOLE") (auto simp: degree_def get_side_def)

lemma sides_unlink_brick:
  "side_nb (sides (unlink_brick s i br) t) =
     (if t = get_side br s then dec16 (side_nb (sides br t)) else side_nb (sides br t))"
  "side_max (sides (unlink_brick s i br) t) = side_max (sides br t)"
  "length (edges (sides (unlink_brick s i br) t)) = length (edges (sides br t))"
  by (auto simp: unlink_brick_def sides_set_edge get_side_def split: pg_brick_type.splits)

lemma wf_side_unlink_brick:
  assumes "\<And>s. wf_side br s" and "linked_port br s i"
  shows "wf_side (unlink_brick s i br) t"
proof (cases "t = get_side br s")
  case True
  have "Suc (side_links (unlink_brick s i br) t) = side_links br t"
    using side_links_unlink_brick(1) [OF assms(2)] True by simp
  moreover have "dec16 n = m" if "Suc m = n" for n m
    using that by (auto simp: dec16_def)
  ultimately show ?thesis
    using assms(1) [of t] True
    by (cases "brick_type br = PG_MONOPOLE") (auto simp: wf_side_def sides_unlink_brick get_side_def)
next
  case False
  then show ?thesis
    using assms(1) [of t] side_links_unlink_brick(2) [OF assms(2) False]
    by (auto simp: wf_side_def sides_unlink_brick)
qed

lemma plink_unlink_brick:
  assumes "linked_port br s i"
  shows "plink reg (unlink_brick s i br) t l =
           (if t = lside reg br s \<and> l = i then None else plink reg br t l)"
  using assms
  by (cases "brick_type br")
     (auto simp: plink_def unlink_brick_def sides_set_edge linked_port_def edge_linked_def
       pg_brick_get_edge_def get_side_def reset_edge_def lside_def nth_list_update split: if_splits)

lemma wf_brick_unlink_brick:
  "wf_brick reg br \<Longrightarrow> linked_port br s i \<Longrightarrow> wf_brick reg (unlink_brick s i br)"
  using wf_side_unlink_brick [of br] by (auto simp: wf_brick_def)

lemma plink_linked_port:
  "plink reg br t i = Some (c, j) \<Longrightarrow>
     (brick_type br = PG_MONOPOLE \<longrightarrow> gside reg br = t) \<and> (\<forall>s. lside reg br s = t \<longrightarrow> linked_port br s i) \<and>
     (\<forall>s. lside reg br s = t \<longrightarrow> pg_brick_get_edge br s i = Some \<lparr>link = Some c, pair_index = j\<rparr>)"
  by (cases "brick_type br")
     (auto simp: plink_def linked_port_def edge_linked_def pg_brick_get_edge_def lside_def
       split: if_splits)

section \<open>Changes that keep the topology\<close>

lemma same_brick_refl [simp]: "same_brick reg br br"
  by (simp add: same_brick_def same_side_def)

lemma same_brick_trans: "same_brick reg a b \<Longrightarrow> same_brick reg b c \<Longrightarrow> same_brick reg a c"
  by (simp add: same_brick_def same_side_def)

lemma same_topology_refl [simp]: "same_topology reg w w"
  by (simp add: same_topology_def option.rel_refl)

lemma same_topology_trans:
  "same_topology reg w1 w2 \<Longrightarrow> same_topology reg w2 w3 \<Longrightarrow> same_topology reg w1 w3"
proof -
  assume a: "same_topology reg w1 w2" "same_topology reg w2 w3"
  have "rel_option (same_brick reg) (bricks w1 b) (bricks w3 b)" for b
  proof -
    have "rel_option (same_brick reg) (bricks w1 b) (bricks w2 b)"
      "rel_option (same_brick reg) (bricks w2 b) (bricks w3 b)"
      using a by (simp_all add: same_topology_def)
    then show ?thesis
      by (cases "bricks w1 b"; cases "bricks w2 b"; cases "bricks w3 b") (auto intro: same_brick_trans)
  qed
  then show "same_topology reg w1 w3" using a by (simp add: same_topology_def)
qed

lemma same_topologyD:
  assumes "same_topology reg w w'" and "bricks w b = Some br"
  obtains br' where "bricks w' b = Some br'" and "same_brick reg br br'"
  using assms unfolding same_topology_def by (metis option_rel_Some1)

lemma same_brick_eqs:
  assumes "same_brick reg br br'"
  shows "plink reg br' = plink reg br" and "degree br' = degree br" and "wf_brick reg br' = wf_brick reg br"
    and "pg_brick_get_edge br' s i = pg_brick_get_edge br s i" and "lside reg br' s = lside reg br s"
    and "linked_port br' s i = linked_port br s i" and "refcount br' = refcount br"
    and "brick_type br' = brick_type br" and "ops br' = ops br"
    and "is_place_available br' s = is_place_available br s"
proof -
  have eqs: "edges (sides br' s) = edges (sides br s)" "edge (sides br' s) = edge (sides br s)"
    "side_max (sides br' s) = side_max (sides br s)" "side_nb (sides br' s) = side_nb (sides br s)"
    "brick_type br' = brick_type br" "gside reg br' = gside reg br" "ops br' = ops br"
    "refcount br' = refcount br" for s
    using assms by (auto simp: same_brick_def same_side_def)
  have edge: "pg_brick_get_edge br' s i = pg_brick_get_edge br s i" for s i
    by (cases "brick_type br") (simp_all add: pg_brick_get_edge_def eqs)
  have links: "side_links br' s = side_links br s" for s
    by (simp add: side_links_def eqs)
  show "pg_brick_get_edge br' s i = pg_brick_get_edge br s i" by (rule edge)
  show "plink reg br' = plink reg br" by (cases "brick_type br") (simp_all add: plink_def eqs fun_eq_iff)
  show "degree br' = degree br" by (simp add: degree_def links eqs)
  show "wf_brick reg br' = wf_brick reg br" by (simp add: wf_brick_def wf_side_def links eqs)
  show "linked_port br' s i = linked_port br s i"
    by (simp add: linked_port_def edge_linked_def edge eqs)
qed (use assms in \<open>simp_all add: same_brick_def same_side_def pg_brick_get_edge_def lside_def
    is_place_available_def get_side_def\<close>)

lemma same_topology_graph:
  assumes "same_topology reg w w'" shows "graph reg w' = graph reg w"
proof -
  have "rel_option (same_brick reg) (bricks w b) (bricks w' b)" for b
    using assms by (simp add: same_topology_def)
  then have "graph reg w' (b, s, i) = graph reg w (b, s, i)" for b s i
    using \<open>\<And>b. rel_option (same_brick reg) (bricks w b) (bricks w' b)\<close> [of b]
    by (cases "bricks w b"; cases "bricks w' b") (simp_all add: graph_def same_brick_eqs(1))
  then show ?thesis by auto
qed

lemma wf_world_same_topology:
  assumes "wf_world reg pinv w" and "same_topology reg w w'" and "pinv_world pinv w'"
  shows "wf_world reg pinv w'"
proof -
  have rel: "rel_option (same_brick reg) (bricks w b) (bricks w' b)" for b
    using assms(2) by (simp add: same_topology_def)
  have "wf_brick reg br' \<and> pinv (ops br') (priv_state br') \<and> 1 + int (degree br') \<le> refcount br'"
    if br': "bricks w' b = Some br'" for b br'
  proof -
    obtain br where br: "bricks w b = Some br" and same: "same_brick reg br br'"
      using rel [of b] br' by (cases "bricks w b") auto
    have "pinv (ops br') (priv_state br')" using assms(3) br' by (simp add: pinv_world_def)
    then show ?thesis
      using wf_worldD(1,3) [OF assms(1) br] same_brick_eqs(2,3,7) [OF same] by simp
  qed
  moreover have "bricks w' b = None" if "brick_next w' \<le> b" for b
  proof -
    have "bricks w b = None" using assms(1,2) that by (simp add: wf_world_def same_topology_def)
    then show ?thesis using rel [of b] by simp
  qed
  moreover have "matching (graph reg w')"
    using wf_world_matching [OF assms(1)] same_topology_graph [OF assms(2)] by simp
  ultimately show ?thesis unfolding wf_world_def by blast
qed

lemma wf_world_pinv: "wf_world reg pinv w \<Longrightarrow> pinv_world pinv w"
  by (simp add: wf_world_def pinv_world_def)

lemma same_topology_holders: "same_topology reg w w' \<Longrightarrow> holders w' = holders w"
proof
  fix b assume "same_topology reg w w'"
  then have "rel_option (same_brick reg) (bricks w b) (bricks w' b)" by (simp add: same_topology_def)
  then show "holders w' b = holders w b"
    by (cases "bricks w b"; cases "bricks w' b") (simp_all add: holders_def same_brick_eqs(2,7))
qed

lemma same_topology_shape: "same_topology reg w w' \<Longrightarrow> same_shape reg w w'"
proof -
  assume a: "same_topology reg w w'"
  show "same_shape reg w w'"
    unfolding same_shape_def
  proof
    fix b
    have "rel_option (same_brick reg) (bricks w b) (bricks w' b)"
      using a by (simp add: same_topology_def)
    then show "rel_option (\<lambda>br br'. ops br' = ops br \<and> brick_type br' = brick_type br \<and>
            brick_name br' = brick_name br \<and> gside reg br' = gside reg br \<and>
            (\<forall>s. side_max (sides br' s) = side_max (sides br s))) (bricks w b) (bricks w' b)"
      by (cases "bricks w b"; cases "bricks w' b") (simp_all add: same_brick_def same_side_def)
  qed
qed

lemma same_shape_refl [simp]: "same_shape reg w w"
  by (simp add: same_shape_def option.rel_refl)

lemma same_shape_trans: "same_shape reg w1 w2 \<Longrightarrow> same_shape reg w2 w3 \<Longrightarrow> same_shape reg w1 w3"
proof -
  assume a: "same_shape reg w1 w2" "same_shape reg w2 w3"
  show "same_shape reg w1 w3"
    unfolding same_shape_def
  proof
    fix b
    from a [unfolded same_shape_def, rule_format, of b]
    show "rel_option (\<lambda>br br'. ops br' = ops br \<and> brick_type br' = brick_type br \<and>
            brick_name br' = brick_name br \<and> gside reg br' = gside reg br \<and>
            (\<forall>s. side_max (sides br' s) = side_max (sides br s))) (bricks w1 b) (bricks w3 b)"
      by (cases "bricks w1 b"; cases "bricks w2 b"; cases "bricks w3 b") simp_all
  qed
qed

lemma same_shapeD:
  assumes "same_shape reg w w'" and "bricks w b = Some br"
  obtains br' where "bricks w' b = Some br'" and "ops br' = ops br" and "brick_type br' = brick_type br"
    and "gside reg br' = gside reg br" and "\<And>s. side_max (sides br' s) = side_max (sides br s)"
  using assms(1) [unfolded same_shape_def, rule_format, of b] assms(2) by (cases "bricks w' b") auto

lemma linked_port_degree: "linked_port br s i \<Longrightarrow> 0 < degree br"
  using degree_unlink_brick [of br s i] by linarith

lemma graph_plink:
  assumes "graph reg w (b, t, i) = Some q" and "matching (graph reg w)"
  obtains br c j cr where "q = (c, pg_flip_side t, j)" and "bricks w b = Some br"
    and "bricks w c = Some cr" and "b \<noteq> c"
    and "plink reg br t i = Some (c, j)" and "plink reg cr (pg_flip_side t) j = Some (b, i)"
proof -
  from assms(1) obtain br c j where q: "q = (c, pg_flip_side t, j)" and br: "bricks w b = Some br"
    and p: "plink reg br t i = Some (c, j)"
    by (auto simp: graph_def split: option.splits)
  from matchingD [OF assms(2,1)] q have "graph reg w (c, pg_flip_side t, j) = Some (b, t, i)" "c \<noteq> b"
    by simp_all
  then obtain cr where "bricks w c = Some cr" "plink reg cr (pg_flip_side t) j = Some (b, i)"
    by (auto simp: graph_def split: option.splits)
  with q br p \<open>c \<noteq> b\<close> show thesis by (intro that) auto
qed

lemma lside_of_plink: "plink reg br t i = Some q \<Longrightarrow> lside reg br t = t"
  by (auto simp: lside_def plink_def split: if_splits)

text \<open>The two bricks of a link, with the link removed on both, refine removing the pair.\<close>

lemma unlinked_world:
  assumes wf: "wf_world reg pinv w" and br: "bricks w b = Some br" and cr: "bricks w c = Some cr"
    and g: "graph reg w (b, t, i) = Some (c, pg_flip_side t, j)" and s: "lside reg br s = t"
  defines "w' \<equiv> w\<lparr>bricks := (bricks w)(b \<mapsto> unlink_brick s i br, c \<mapsto> unlink_brick (pg_flip_side t) j cr)\<rparr>"
  shows "wf_world reg pinv w'" and "graph reg w' = m_unlink (b, t, i) (graph reg w)"
    and "holders w' = holders w" and "same_shape reg w w'"
proof -
  obtain br' c' j' cr' where "(c, pg_flip_side t, j) = (c', pg_flip_side t, j')" "bricks w b = Some br'"
    "bricks w c' = Some cr'" "b \<noteq> c'" "plink reg br' t i = Some (c', j')"
    "plink reg cr' (pg_flip_side t) j' = Some (b, i)"
    by (rule graph_plink [OF g wf_world_matching [OF wf]])
  then have ne: "b \<noteq> c" and pb: "plink reg br t i = Some (c, j)"
    and pc: "plink reg cr (pg_flip_side t) j = Some (b, i)"
    using br cr by simp_all
  have lb: "linked_port br s i" using plink_linked_port [OF pb] s by blast
  have ls: "lside reg cr (pg_flip_side t) = pg_flip_side t" using lside_of_plink [OF pc] .
  then have lc: "linked_port cr (pg_flip_side t) j" using plink_linked_port [OF pc] by blast
  have "graph reg w' (y, t', i') = m_unlink (b, t, i) (graph reg w) (y, t', i')" for y t' i'
  proof -
    consider "y = b" | "y = c" | "y \<noteq> b" "y \<noteq> c" by blast
    then show ?thesis
    proof cases
      case 1
      then show ?thesis
        using ne br g by (simp add: w'_def graph_def m_unlink_def plink_unlink_brick [OF lb] s)
    next
      case 2
      then show ?thesis
        using ne cr g by (simp add: w'_def graph_def m_unlink_def plink_unlink_brick [OF lc] ls)
    next
      case 3
      then show ?thesis using g by (simp add: w'_def graph_def m_unlink_def)
    qed
  qed
  then show gr: "graph reg w' = m_unlink (b, t, i) (graph reg w)" by auto
  have "wf_brick reg x \<and> pinv (ops x) (priv_state x) \<and> 1 + int (degree x) \<le> refcount x"
    if x: "bricks w' y = Some x" for x y
  proof -
    consider "y = b" | "y = c" | "y \<noteq> b" "y \<noteq> c" by blast
    then show ?thesis
    proof cases
      case 1
      then show ?thesis
        using x ne wf_worldD [OF wf br] wf_brick_unlink_brick [OF _ lb] degree_unlink_brick [OF lb]
        by (auto simp: w'_def)
    next
      case 2
      then show ?thesis
        using x wf_worldD [OF wf cr] wf_brick_unlink_brick [OF _ lc] degree_unlink_brick [OF lc]
        by (auto simp: w'_def)
    next
      case 3
      then show ?thesis using x wf_worldD [OF wf, of y x] by (simp add: w'_def)
    qed
  qed
  moreover have "bricks w' y = None" if "brick_next w' \<le> y" for y
  proof -
    have "bricks w y = None" using wf that by (simp add: wf_world_def w'_def)
    then show ?thesis using br cr by (auto simp: w'_def)
  qed
  moreover have "matching (graph reg w')"
    unfolding gr by (rule matching_unlink [OF wf_world_matching [OF wf]])
  ultimately show "wf_world reg pinv w'" unfolding wf_world_def by blast
  show "holders w' = holders w"
    using br cr ne degree_unlink_brick [OF lb] degree_unlink_brick [OF lc]
    by (auto simp: holders_def w'_def fun_eq_iff)
  show "same_shape reg w w'"
    using br cr ne by (auto simp: same_shape_def w'_def sides_unlink_brick option.rel_refl)
qed

context brick_contract
begin

lemma unlink_notify_topology:
  assumes "wf_world reg pinv w" and "\<And>b. link e = Some b \<Longrightarrow> bricks w b \<noteq> None"
  shows "ores (unlink_notify reg (Some e) s w) (\<lambda>_ w'. same_topology reg w w' \<and> pinv_world pinv w')"
proof (cases "link e")
  case None
  then show ?thesis using wf_world_pinv [OF assms(1)] by (simp add: unlink_notify_def)
next
  case (Some b)
  then obtain br where br: "bricks w b = Some br" using assms(2) by blast
  have "ops br < length reg" using wf_worldD(1) [OF assms(1) br] by (simp add: wf_brick_def)
  then show ?thesis
    using Some br wf_world_pinv [OF assms(1)] unlink_notify_safe [of "ops br" _ w b br]
    by (auto simp: unlink_notify_def split: option.splits)
qed

lemma unlink_notify_returns:
  assumes "wf_world reg pinv w" and "link e = Some b" and "bricks w b = Some br" and "quiet (ops br)"
  shows "oret (unlink_notify reg (Some e) s w) (\<lambda>_ w'. errp w' = errp w)"
proof -
  have "ops br < length reg" using wf_worldD(1) [OF assms(1,3)] by (simp add: wf_brick_def)
  then show ?thesis
    using assms(2-4) wf_world_pinv [OF assms(1)] unlink_notify_quiet [of "ops br" _ w b br]
    by (auto simp: unlink_notify_def split: option.splits)
qed

definition unlinked :: "port \<Rightarrow> world \<Rightarrow> world \<Rightarrow> bool" where
  "unlinked p w w' \<longleftrightarrow> wf_world reg pinv w' \<and> graph reg w' = m_unlink p (graph reg w) \<and> holders w' = holders w \<and>
     same_shape reg w w'"

lemma unlink_pair_refines:
  assumes wf: "wf_world reg pinv w" and br: "bricks w b = Some br"
    and g: "graph reg w (b, t, i) = Some (c, pg_flip_side t, j)" and s: "lside reg br s = t"
    and err: "errp w = None"
  shows "oret (unlink_pair reg b s t i c (pg_flip_side t) j w) (\<lambda>_ w'. errp w' = None \<and> unlinked (b, t, i) w w')"
proof -
  obtain br' c' j' cr where "(c, pg_flip_side t, j) = (c', pg_flip_side t, j')" "bricks w b = Some br'"
    "bricks w c' = Some cr" "b \<noteq> c'" "plink reg br' t i = Some (c', j')"
    "plink reg cr (pg_flip_side t) j' = Some (b, i)"
    by (rule graph_plink [OF g wf_world_matching [OF wf]])
  then have cr: "bricks w c = Some cr" and ne: "b \<noteq> c" and pb: "plink reg br t i = Some (c, j)"
    and pc: "plink reg cr (pg_flip_side t) j = Some (b, i)"
    using br by simp_all
  have e: "pg_brick_get_edge br s i = Some \<lparr>link = Some c, pair_index = j\<rparr>" and lb: "linked_port br s i"
    using plink_linked_port [OF pb] s by blast+
  have lc: "linked_port cr (pg_flip_side t) j"
    using plink_linked_port [OF pc] lside_of_plink [OF pc] by blast
  have refs: "1 < refcount br" "1 < refcount cr"
    using wf_worldD(3) [OF wf br] linked_port_degree [OF lb] wf_worldD(3) [OF wf cr]
      linked_port_degree [OF lc] by linarith+
  have ty: "brick_type br = PG_MONOPOLE \<or> t = s" using s by (auto simp: lside_def split: if_splits)
  show ?thesis
    using unlinked_world [OF wf br cr g s] err
    by (simp add: unlink_pair_ok [OF br cr ne err e _ refs ty] unlinked_def)
qed

lemma unlinked_same_topology:
  "same_topology reg w w1 \<Longrightarrow> unlinked p w1 w2 \<Longrightarrow> unlinked p w w2"
  using same_topology_graph [of reg w w1] same_topology_holders [of reg w w1]
    same_shape_trans [OF same_topology_shape [of reg w w1]] by (simp add: unlinked_def)

text \<open>
  Unlinking an edge, when it returns, has either removed the link on both bricks or been
  stopped by an error of a callback, with the topology as before.
\<close>

definition unlink_post :: "port \<Rightarrow> world \<Rightarrow> world \<Rightarrow> bool" where
  "unlink_post p w w' \<longleftrightarrow>
     (if errp w' = None then unlinked p w w' else same_topology reg w w' \<and> wf_world reg pinv w')"

lemma unlink_post_trans:
  assumes "same_topology reg w w1" and "unlink_post p w1 w2" shows "unlink_post p w w2"
  using assms same_topology_trans [OF assms(1)] unlinked_same_topology [OF assms(1)]
  by (simp add: unlink_post_def split: if_splits)

text \<open>The second notification and what follows it.\<close>

definition unlink_rest :: "nat \<Rightarrow> pg_side \<Rightarrow> pg_side \<Rightarrow> nat \<Rightarrow> nat \<Rightarrow> nat \<Rightarrow> world \<Rightarrow> (unit, world) out" where
  "unlink_rest b s t i c j w1 =
     obind (read_edge c (pg_flip_side t) j w1) (\<lambda>pe w.
     obind (unlink_notify reg (Some pe) (pg_flip_side t) w) (unless_error \<circ> (\<lambda>_ w.
       unlink_pair reg b s t i c (pg_flip_side t) j w)))"

lemma do_unlink_split:
  assumes "wf_world reg pinv w" and "bricks w b = Some br" and "bricks w c = Some cr"
    and "plink reg br t i = Some (c, j)" and "plink reg cr (pg_flip_side t) j = Some (b, i)"
    and "lside reg br s = t"
  shows "do_unlink reg b s i w =
    obind (unlink_notify reg (Some \<lparr>link = Some c, pair_index = j\<rparr>) t w)
      (unless_error \<circ> (\<lambda>_. unlink_rest b s t i c j))"
proof -
  have e: "pg_brick_get_edge br s i = Some \<lparr>link = Some c, pair_index = j\<rparr>"
    using plink_linked_port [OF assms(4)] assms(6) by blast
  have pe: "pg_brick_get_edge cr (pg_flip_side t) j = Some \<lparr>link = Some b, pair_index = i\<rparr>"
    using plink_linked_port [OF assms(5)] lside_of_plink [OF assms(5)] by blast
  have side: "(if brick_type br = PG_MONOPOLE then
        (case op_get_side (reg ! ops br) of None \<Rightarrow> Abort r | Some f \<Rightarrow> Ret (f (priv_state br)) w)
      else Ret s w) = Ret t w" for r
    using wf_worldD(1) [OF assms(1,2)] assms(6)
    by (auto simp: wf_brick_def lside_def gside_def split: if_splits)
  have "read_edge b s i w = Ret \<lparr>link = Some c, pair_index = j\<rparr> w"
    using assms(2) e by (simp add: read_edge_def)
  then show ?thesis
    using assms(2,3) pe
    by (simp add: do_unlink_def side Let_def unlink_rest_def [abs_def] comp_def)
qed

lemma unlink_rest_refines:
  assumes wf: "wf_world reg pinv w" and br: "bricks w b = Some br" and cr: "bricks w c = Some cr"
    and g: "graph reg w (b, t, i) = Some (c, pg_flip_side t, j)" and s: "lside reg br s = t"
    and pc: "plink reg cr (pg_flip_side t) j = Some (b, i)" and err: "errp w = None"
  shows "ores (unlink_rest b s t i c j w) (\<lambda>_. unlink_post (b, t, i) w)"
    and "quiet (ops br) \<Longrightarrow> oret (unlink_rest b s t i c j w) (\<lambda>_ w'. errp w' = None)"
proof -
  let ?pe = "\<lparr>link = Some b, pair_index = i\<rparr>"
  have "read_edge c (pg_flip_side t) j w = Ret ?pe w"
    using plink_linked_port [OF pc] lside_of_plink [OF pc] cr by (simp add: read_edge_def)
  then have split: "unlink_rest b s t i c j w = obind (unlink_notify reg (Some ?pe) (pg_flip_side t) w)
      (unless_error \<circ> (\<lambda>_ w. unlink_pair reg b s t i c (pg_flip_side t) j w))"
    by (simp add: unlink_rest_def)
  have safe: "ores (unlink_notify reg (Some ?pe) (pg_flip_side t) w)
      (\<lambda>_ w'. same_topology reg w w' \<and> pinv_world pinv w')"
    by (rule unlink_notify_topology [OF wf]) (use br in simp)
  have pair: "oret (unlink_pair reg b s t i c (pg_flip_side t) j w')
      (\<lambda>_ w''. errp w'' = None \<and> unlinked (b, t, i) w' w'')"
    if top: "same_topology reg w w'" and pin: "pinv_world pinv w'" and none: "errp w' = None" for w'
  proof -
    obtain br' where br': "bricks w' b = Some br'" and same: "same_brick reg br br'"
      using top br by (rule same_topologyD)
    show ?thesis
      using unlink_pair_refines [OF wf_world_same_topology [OF wf top pin] br' _ _ none, of t i c j s]
        g s same_topology_graph [OF top] same_brick_eqs(5) [OF same] by simp
  qed
  show "ores (unlink_rest b s t i c j w) (\<lambda>_. unlink_post (b, t, i) w)"
    unfolding split
  proof (intro ores_obind ores_mono [OF safe])
    fix x w' assume top: "same_topology reg w w' \<and> pinv_world pinv w'"
    show "ores ((unless_error \<circ> (\<lambda>_ w. unlink_pair reg b s t i c (pg_flip_side t) j w)) x w')
        (\<lambda>_. unlink_post (b, t, i) w)"
    proof (cases "errp w' = None")
      case True
      from pair [of w'] top True show ?thesis
        by (auto simp: unless_error_def pg_error_is_set_def oret_iff unlink_post_def
            intro: unlinked_same_topology)
    next
      case False
      then show ?thesis
        using top wf_world_same_topology [OF wf, of w']
        by (auto simp: unless_error_def pg_error_is_set_def unlink_post_def)
    qed
  qed
  assume q: "quiet (ops br)"
  have "oret (unlink_notify reg (Some ?pe) (pg_flip_side t) w) (\<lambda>_ w'. errp w' = errp w)"
    by (rule unlink_notify_returns [OF wf _ br q]) simp
  then obtain x w' where "unlink_notify reg (Some ?pe) (pg_flip_side t) w = Ret x w'" "errp w' = None"
    using err by (auto simp: oret_iff)
  then show "oret (unlink_rest b s t i c j w) (\<lambda>_ w'. errp w' = None)"
    using safe pair [of w'] by (auto simp: split unless_error_def pg_error_is_set_def oret_iff)
qed

lemma do_unlink_refines:
  assumes wf: "wf_world reg pinv w" and br: "bricks w b = Some br"
    and g: "graph reg w (b, t, i) = Some (c, pg_flip_side t, j)" and s: "lside reg br s = t"
    and err: "errp w = None"
  shows "ores (do_unlink reg b s i w) (\<lambda>_. unlink_post (b, t, i) w)"
    and "bricks w c = Some cr \<Longrightarrow> quiet (ops br) \<Longrightarrow> quiet (ops cr) \<Longrightarrow>
         oret (do_unlink reg b s i w) (\<lambda>_ w'. errp w' = None)"
proof -
  obtain br' c' j' cr' where "(c, pg_flip_side t, j) = (c', pg_flip_side t, j')" "bricks w b = Some br'"
    "bricks w c' = Some cr'" "b \<noteq> c'" "plink reg br' t i = Some (c', j')"
    "plink reg cr' (pg_flip_side t) j' = Some (b, i)"
    by (rule graph_plink [OF g wf_world_matching [OF wf]])
  then have cr: "bricks w c = Some cr'" and pb: "plink reg br t i = Some (c, j)"
    and pc: "plink reg cr' (pg_flip_side t) j = Some (b, i)"
    using br by simp_all
  let ?e = "\<lparr>link = Some c, pair_index = j\<rparr>"
  note split = do_unlink_split [OF wf br cr pb pc s]
  have safe: "ores (unlink_notify reg (Some ?e) t w) (\<lambda>_ w'. same_topology reg w w' \<and> pinv_world pinv w')"
    by (rule unlink_notify_topology [OF wf]) (use cr in simp)
  have rest: "ores (unlink_rest b s t i c j w') (\<lambda>_. unlink_post (b, t, i) w')"
    "quiet (ops br) \<Longrightarrow> oret (unlink_rest b s t i c j w') (\<lambda>_ w'. errp w' = None)"
    if top: "same_topology reg w w'" and pin: "pinv_world pinv w'" and none: "errp w' = None" for w'
  proof -
    obtain br1 where br1: "bricks w' b = Some br1" and same: "same_brick reg br br1"
      using top br by (rule same_topologyD)
    obtain cr1 where cr1: "bricks w' c = Some cr1" and same': "same_brick reg cr' cr1"
      using top cr by (rule same_topologyD)
    have "graph reg w' (b, t, i) = Some (c, pg_flip_side t, j)" "lside reg br1 s = t"
      "plink reg cr1 (pg_flip_side t) j = Some (b, i)"
      using g s pc same_topology_graph [OF top] same_brick_eqs(5) [OF same] same_brick_eqs(1) [OF same']
      by simp_all
    note r = unlink_rest_refines [OF wf_world_same_topology [OF wf top pin] br1 cr1 this none]
    show "ores (unlink_rest b s t i c j w') (\<lambda>_. unlink_post (b, t, i) w')" by (rule r(1))
    show "oret (unlink_rest b s t i c j w') (\<lambda>_ w'. errp w' = None)" if "quiet (ops br)"
      using r(2) that same_brick_eqs(9) [OF same] by simp
  qed
  show "ores (do_unlink reg b s i w) (\<lambda>_. unlink_post (b, t, i) w)"
    unfolding split
  proof (intro ores_obind ores_mono [OF safe])
    fix x w' assume top: "same_topology reg w w' \<and> pinv_world pinv w'"
    show "ores ((unless_error \<circ> (\<lambda>_. unlink_rest b s t i c j)) x w') (\<lambda>_. unlink_post (b, t, i) w)"
    proof (cases "errp w' = None")
      case True
      have "ores (unlink_rest b s t i c j w') (\<lambda>_. unlink_post (b, t, i) w)"
        by (rule ores_mono [OF rest(1) [of w']]) (use top True in \<open>auto intro: unlink_post_trans\<close>)
      then show ?thesis using True by (simp add: unless_error_def pg_error_is_set_def)
    next
      case False
      then show ?thesis
        using top wf_world_same_topology [OF wf, of w']
        by (auto simp: unless_error_def pg_error_is_set_def unlink_post_def)
    qed
  qed
  assume q: "bricks w c = Some cr" "quiet (ops br)" "quiet (ops cr)"
  then have "oret (unlink_notify reg (Some ?e) t w) (\<lambda>_ w'. errp w' = errp w)"
    using unlink_notify_returns [OF wf, of ?e c cr t] by simp
  then obtain x w' where "unlink_notify reg (Some ?e) t w = Ret x w'" "errp w' = None"
    using err by (auto simp: oret_iff)
  then show "oret (do_unlink reg b s i w) (\<lambda>_ w'. errp w' = None)"
    using safe rest(2) [of w'] q by (simp add: split unless_error_def pg_error_is_set_def)
qed

end

section \<open>Isolating a brick\<close>

lemma m_unlink_apply:
  assumes "matching m"
  shows "m_unlink p m x = (if x = p \<or> m x = Some p then None else m x)"
proof (cases "m p")
  case None
  have "m x \<noteq> Some p"
  proof
    assume "m x = Some p"
    then have "m p = Some x" using matchingD(1) [OF assms, of "fst x" "fst (snd x)" "snd (snd x)"] by simp
    then show False using None by simp
  qed
  then show ?thesis using None by (auto simp: m_unlink_def)
next
  case (Some q)
  have "m x = Some p \<longleftrightarrow> x = q"
  proof
    assume "m x = Some p"
    then have "m p = Some x" using matchingD(1) [OF assms, of "fst x" "fst (snd x)" "snd (snd x)"] by simp
    then show "x = q" using Some by simp
  next
    assume "x = q"
    then show "m x = Some p"
      using Some matchingD(1) [OF assms, of "fst p" "fst (snd p)" "snd (snd p)"] by simp
  qed
  then show ?thesis using Some by (auto simp: m_unlink_def)
qed

lemma matching_fold_unlink: "matching m \<Longrightarrow> matching (fold m_unlink ps m)"
  by (induction ps arbitrary: m) (simp_all add: matching_unlink)

lemma fold_m_unlink_apply:
  assumes "matching m"
  shows "fold m_unlink ps m x = (if x \<in> set ps \<or> (\<exists>p \<in> set ps. m x = Some p) then None else m x)"
  using assms
proof (induction ps arbitrary: m)
  case (Cons p ps)
  note IH = Cons.IH [OF matching_unlink [OF Cons.prems], of p]
  show ?case unfolding fold_Cons comp_apply IH m_unlink_apply [OF Cons.prems, of p x] by auto
qed simp

definition m_isolate :: "nat \<Rightarrow> (port \<rightharpoonup> port) \<Rightarrow> (port \<rightharpoonup> port)" where
  "m_isolate b m = (\<lambda>p. if fst p = b \<or> (\<exists>q. m p = Some q \<and> fst q = b) then None else m p)"

lemma fold_m_unlink_isolate:
  assumes "matching m" and "\<And>p. p \<in> set ps \<Longrightarrow> fst p = b"
    and "\<And>p. fst p = b \<Longrightarrow> m p \<noteq> None \<Longrightarrow> p \<in> set ps"
  shows "fold m_unlink ps m = m_isolate b m"
proof
  fix x
  have partner: "q \<in> set ps" if "m x = Some q" "fst q = b" for q
    using assms(3) [of q] that matchingD(1) [OF assms(1), of "fst x" "fst (snd x)" "snd (snd x)" q] by simp
  show "fold m_unlink ps m x = m_isolate b m x"
  proof (cases "fst x = b \<or> (\<exists>q. m x = Some q \<and> fst q = b)")
    case True
    then have "m x = None \<or> x \<in> set ps \<or> (\<exists>q \<in> set ps. m x = Some q)"
      using assms(3) [of x] partner by blast
    then show ?thesis using True by (auto simp: fold_m_unlink_apply [OF assms(1)] m_isolate_def)
  next
    case False
    then have "x \<notin> set ps" "\<not> (\<exists>q \<in> set ps. m x = Some q)" using assms(2) by blast+
    then show ?thesis using False by (simp add: fold_m_unlink_apply [OF assms(1)] m_isolate_def)
  qed
qed

text \<open>The ports of a brick in the order of the edge iterator, from a given one on.\<close>

fun ahead :: "pg_brick \<Rightarrow> pg_side \<Rightarrow> nat \<Rightarrow> (pg_side \<times> nat) list" where
  "ahead br PG_WEST_SIDE i =
     (if brick_type br = PG_MONOPOLE then []
      else map (Pair PG_WEST_SIDE) [Suc i..<side_max (sides br PG_WEST_SIDE)] @
           map (Pair PG_EAST_SIDE) [0..<max 1 (side_max (sides br PG_EAST_SIDE))])"
| "ahead br PG_EAST_SIDE i =
     (if brick_type br = PG_MONOPOLE then []
      else map (Pair PG_EAST_SIDE) [Suc i..<side_max (sides br PG_EAST_SIDE)])"

definition at :: "pg_side \<Rightarrow> nat \<Rightarrow> edge_iterator" where
  "at s i = \<lparr>eit_edge = i, eit_side = Some s, eit_end = False\<rparr>"

lemma at_simps [simp]: "eit_edge (at s i) = i" "eit_side (at s i) = Some s" "\<not> eit_end (at s i)"
  by (simp_all add: at_def)

declare pg_brick_edge_iterator_next.simps [simp del]

lemma ahead_step:
  assumes "brick_type br \<noteq> PG_MONOPOLE"
  shows "pg_side_get_max br s \<le> Suc i \<Longrightarrow>
      ahead br s i = (case next_side s of None \<Rightarrow> [] | Some s' \<Rightarrow> (s', 0) # ahead br s' 0)"
    and "\<not> pg_side_get_max br s \<le> Suc i \<Longrightarrow> ahead br s i = (s, Suc i) # ahead br s (Suc i)"
  using assms by (cases s; auto simp: pg_side_get_max_def upt_conv_Cons max_def)+

lemma edge_iterator_next_ahead:
  "case filter (\<lambda>(s, i). edge_linked br s i) (ahead br s i) of
     [] \<Rightarrow> eit_end (pg_brick_edge_iterator_next br (at s i))
   | (s', i') # _ \<Rightarrow> pg_brick_edge_iterator_next br (at s i) = at s' i'"
proof (induction "length (ahead br s i)" arbitrary: s i rule: less_induct)
  case less
  note unfold = pg_brick_edge_iterator_next.simps [of br "at s i"]
  show ?case
  proof (cases "brick_type br = PG_MONOPOLE")
    case True
    then have "ahead br s i = []" by (cases s) simp_all
    then show ?thesis using True by (simp add: unfold)
  next
    case False
    show ?thesis
    proof (cases "pg_side_get_max br s \<le> Suc i")
      case True
      note step = ahead_step(1) [OF False True]
      show ?thesis
      proof (cases "next_side s")
        case None
        then show ?thesis using False True step by (simp add: unfold)
      next
        case (Some s')
        have it: "(at s i)\<lparr>eit_edge := 0, eit_side := Some s'\<rparr> = at s' 0" by (simp add: at_def)
        have eq: "pg_brick_edge_iterator_next br (at s i) =
            (if edge_linked br s' 0 then at s' 0 else pg_brick_edge_iterator_next br (at s' 0))"
          using False True Some by (simp add: unfold it)
        show ?thesis unfolding eq using less [of s' 0] step Some by simp
      qed
    next
      case more: False
      note step = ahead_step(2) [OF False more]
      have it: "(at s i)\<lparr>eit_edge := Suc i\<rparr> = at s (Suc i)" by (simp add: at_def)
      have eq: "pg_brick_edge_iterator_next br (at s i) =
          (if edge_linked br s (Suc i) then at s (Suc i) else pg_brick_edge_iterator_next br (at s (Suc i)))"
        using False more by (simp add: unfold it)
      show ?thesis unfolding eq using less [of s "Suc i"] step by simp
    qed
  qed
qed

lemma length_ahead: "length (ahead br s i) + 2 \<le> eit_measure br (at s i) + 2"
  by (cases s) (auto simp: eit_measure_def pg_side_get_max_def max_def)

lemma ahead_filter:
  "filter P (ahead br s i) = (s', i') # r \<Longrightarrow>
   \<exists>pre. ahead br s i = pre @ (s', i') # ahead br s' i' \<and> (\<forall>x \<in> set pre. \<not> P x) \<and> P (s', i')"
proof (induction "length (ahead br s i)" arbitrary: s i rule: less_induct)
  case less
  have "\<exists>t l. ahead br s i = (t, l) # ahead br t l"
  proof (cases "brick_type br = PG_MONOPOLE")
    case True
    then show ?thesis using less.prems by (cases s) simp_all
  next
    case False
    then show ?thesis
      using ahead_step [OF False, of s i] less.prems
      by (cases "pg_side_get_max br s \<le> Suc i"; cases "next_side s") auto
  qed
  then obtain t l where tl: "ahead br s i = (t, l) # ahead br t l" by blast
  show ?case
  proof (cases "P (t, l)")
    case True
    then show ?thesis using less.prems tl by (intro exI [of _ "[]"]) simp
  next
    case False
    then obtain pre where "ahead br t l = pre @ (s', i') # ahead br s' i'" "\<forall>x \<in> set pre. \<not> P x" "P (s', i')"
      using less.hyps [of t l] less.prems tl by auto
    then show ?thesis using tl False by (intro exI [of _ "(t, l) # pre"]) simp
  qed
qed

lemma ahead_index:
  assumes "wf_side br PG_WEST_SIDE" and "wf_side br PG_EAST_SIDE" and "brick_type br \<noteq> PG_MULTIPOLE"
    and "(s', i') \<in> set (ahead br s i)"
  shows "i' = 0"
  using assms by (cases s) (auto simp: wf_side_def max_def split: if_splits)

lemma linked_port_plink: "linked_port br s i \<Longrightarrow> \<exists>c j. plink reg br (lside reg br s) i = Some (c, j)"
  by (cases "brick_type br")
     (auto simp: linked_port_def edge_linked_def pg_brick_get_edge_def plink_def lside_def split: if_splits)

lemma unlinked_plink: "\<not> edge_linked br s i \<Longrightarrow> plink reg br (lside reg br s) i = None"
proof (rule ccontr)
  assume "\<not> edge_linked br s i" "plink reg br (lside reg br s) i \<noteq> None"
  then show False
    using plink_linked_port [of reg br "lside reg br s" i] by (auto simp: linked_port_def)
qed

lemma ahead_cong:
  "brick_type br' = brick_type br \<Longrightarrow> (\<And>s. side_max (sides br' s) = side_max (sides br s)) \<Longrightarrow>
   ahead br' s i = ahead br s i"
  by (cases s) simp_all

lemma fold_m_unlink_None: "(\<And>p. p \<in> set ps \<Longrightarrow> m p = None) \<Longrightarrow> fold m_unlink ps m = m"
  by (induction ps) (simp_all add: m_unlink_def)

definition ports_of :: "brick_ops list \<Rightarrow> nat \<Rightarrow> pg_brick \<Rightarrow> (pg_side \<times> nat) list \<Rightarrow> port list" where
  "ports_of reg b br sis = map (\<lambda>(s, i). (b, lside reg br s, i)) sis"

lemma ports_of_cong:
  "brick_type br' = brick_type br \<Longrightarrow> gside reg br' = gside reg br \<Longrightarrow>
   ports_of reg b br' = ports_of reg b br"
proof -
  assume a: "brick_type br' = brick_type br" "gside reg br' = gside reg br"
  have "lside reg br' = lside reg br" using a by (simp add: lside_def fun_eq_iff)
  then show "ports_of reg b br' = ports_of reg b br" by (simp add: ports_of_def fun_eq_iff)
qed

lemma ports_of_None:
  assumes "bricks w b = Some br" and "\<forall>x \<in> set sis. \<not> (case x of (s, i) \<Rightarrow> edge_linked br s i)"
  shows "fold m_unlink (ports_of reg b br sis) (graph reg w) = graph reg w"
  using assms unlinked_plink
  by (intro fold_m_unlink_None) (force simp: ports_of_def graph_def)

definition all_ports :: "brick_ops list \<Rightarrow> nat \<Rightarrow> pg_brick \<Rightarrow> port list" where
  "all_ports reg b br = ports_of reg b br ((PG_WEST_SIDE, 0) # ahead br PG_WEST_SIDE 0)"

lemma plink_in_ahead:
  assumes "wf_brick reg br" and "plink reg br t l \<noteq> None"
  shows "(b, t, l) \<in> set (all_ports reg b br)"
proof (cases "brick_type br = PG_MONOPOLE")
  case True
  then show ?thesis
    using assms by (auto simp: all_ports_def ports_of_def plink_def lside_def split: if_splits)
next
  case False
  have len: "length (edges (sides br t)) = side_max (sides br t)" if "brick_type br = PG_MULTIPOLE"
    using assms(1) that by (simp add: wf_brick_def wf_side_def)
  have l: "l = 0 \<or> l < side_max (sides br t)"
    using assms(2) False len by (auto simp: plink_def split: pg_brick_type.splits if_splits)
  have "(t, l) \<in> set ((PG_WEST_SIDE, 0) # ahead br PG_WEST_SIDE 0)"
    using False l by (cases t) (auto simp: max_def image_iff)
  then have "(b, lside reg br t, l) \<in> set (all_ports reg b br)"
    unfolding all_ports_def ports_of_def by (force simp only: set_map)
  then show ?thesis using False by (simp add: lside_def)
qed

lemma fold_all_ports:
  assumes "wf_world reg pinv w" and "bricks w b = Some br"
  shows "fold m_unlink (all_ports reg b br) (graph reg w) = m_isolate b (graph reg w)"
proof (rule fold_m_unlink_isolate [OF wf_world_matching [OF assms(1)]])
  show "fst p = b" if "p \<in> set (all_ports reg b br)" for p
    using that by (auto simp: all_ports_def ports_of_def)
  show "p \<in> set (all_ports reg b br)" if "fst p = b" "graph reg w p \<noteq> None" for p
    using that assms(2) plink_in_ahead [OF wf_worldD(1) [OF assms]]
    by (cases p) (auto simp: graph_def)
qed

lemma iterator_init_cases:
  assumes "wf_world reg pinv w" and "bricks w b = Some br"
  obtains (fin) "eit_end (pg_brick_edge_iterator_init br)"
      and "fold m_unlink (all_ports reg b br) (graph reg w) = graph reg w"
  | (go) s i where "pg_brick_edge_iterator_init br = at s i" and "linked_port br s i"
      and "fold m_unlink (all_ports reg b br) (graph reg w) =
        fold m_unlink (ports_of reg b br ((s, i) # ahead br s i)) (graph reg w)"
proof (cases "edge_linked br PG_WEST_SIDE 0")
  case True
  then have "pg_brick_edge_iterator_init br = at PG_WEST_SIDE 0"
    by (simp add: pg_brick_edge_iterator_init_def at_def)
  moreover have "linked_port br PG_WEST_SIDE 0" using True by (simp add: linked_port_def)
  ultimately show thesis by (rule go) (simp only: all_ports_def)
next
  case none: False
  have init: "pg_brick_edge_iterator_init br = pg_brick_edge_iterator_next br (at PG_WEST_SIDE 0)"
    using none by (simp add: pg_brick_edge_iterator_init_def at_def)
  have head: "fold m_unlink (ports_of reg b br [(PG_WEST_SIDE, 0)]) (graph reg w) = graph reg w"
    by (rule ports_of_None [OF assms(2)]) (use none in simp)
  let ?P = "\<lambda>(s, i). edge_linked br s i"
  show thesis
  proof (cases "filter ?P (ahead br PG_WEST_SIDE 0)")
    case Nil
    have "fold m_unlink (ports_of reg b br (ahead br PG_WEST_SIDE 0)) (graph reg w) = graph reg w"
      by (rule ports_of_None [OF assms(2)]) (use Nil in \<open>simp add: filter_empty_conv\<close>)
    then show thesis
      using fin init edge_iterator_next_ahead [of br PG_WEST_SIDE 0] Nil head
      by (simp add: all_ports_def ports_of_def)
  next
    case (Cons x r)
    obtain s i where x: "x = (s, i)" by (cases x) auto
    from ahead_filter [OF Cons [unfolded x]] obtain pre where
      pre: "ahead br PG_WEST_SIDE 0 = pre @ (s, i) # ahead br s i" "\<forall>x \<in> set pre. \<not> ?P x"
        "edge_linked br s i" by auto
    show thesis
    proof (rule go)
      show "pg_brick_edge_iterator_init br = at s i"
        using init edge_iterator_next_ahead [of br PG_WEST_SIDE 0] Cons x by simp
      show "linked_port br s i"
        using ahead_index [of br s i PG_WEST_SIDE 0] wf_worldD(4) [OF assms] pre
        by (auto simp: linked_port_def)
      show "fold m_unlink (all_ports reg b br) (graph reg w) =
          fold m_unlink (ports_of reg b br ((s, i) # ahead br s i)) (graph reg w)"
        using head ports_of_None [OF assms(2) pre(2), of reg] pre(1)
        by (simp add: all_ports_def ports_of_def)
    qed
  qed
qed

context brick_contract
begin

definition loop_post :: "port list \<Rightarrow> world \<Rightarrow> world \<Rightarrow> bool" where
  "loop_post ps w w' \<longleftrightarrow> wf_world reg pinv w' \<and> holders w' = holders w \<and> same_shape reg w w' \<and>
     (errp w' = None \<longrightarrow> graph reg w' = fold m_unlink ps (graph reg w))"

lemma unlink_post_loop: "unlink_post p w w' \<Longrightarrow> errp w' \<noteq> None \<Longrightarrow> loop_post ps w w'"
  using same_topology_holders [of reg w w'] same_topology_shape [of reg w w']
  by (auto simp: unlink_post_def loop_post_def)

lemma next_after_unlink:
  assumes br: "bricks w b = Some br" and wf: "wf_world reg pinv w" and br1: "bricks w1 b = Some br1"
    and wf1: "wf_world reg pinv w1"
    and shape: "brick_type br1 = brick_type br" "\<And>s. side_max (sides br1 s) = side_max (sides br s)"
      "gside reg br1 = gside reg br"
  obtains (fin) "eit_end (pg_brick_edge_iterator_next br1 (at s i))"
      and "fold m_unlink (ports_of reg b br (ahead br s i)) (graph reg w1) = graph reg w1"
  | (go) s' i' where "pg_brick_edge_iterator_next br1 (at s i) = at s' i'" and "linked_port br1 s' i'"
      and "length (ahead br1 s' i') < length (ahead br s i)"
      and "fold m_unlink (ports_of reg b br (ahead br s i)) (graph reg w1) =
        fold m_unlink (ports_of reg b br1 ((s', i') # ahead br1 s' i')) (graph reg w1)"
proof (cases "filter (\<lambda>(s, i). edge_linked br1 s i) (ahead br s i)")
  case Nil
  have ports: "ports_of reg b br1 = ports_of reg b br"
    by (rule ports_of_cong) (use shape in simp_all)
  have same: "ahead br1 s i = ahead br s i" by (rule ahead_cong) (use shape in simp_all)
  show thesis
  proof (rule fin)
    show "eit_end (pg_brick_edge_iterator_next br1 (at s i))"
      using edge_iterator_next_ahead [of br1 s i] Nil same by simp
    show "fold m_unlink (ports_of reg b br (ahead br s i)) (graph reg w1) = graph reg w1"
      using ports_of_None [OF br1, of "ahead br s i" reg] Nil
      by (simp add: ports filter_empty_conv)
  qed
next
  case (Cons x r)
  obtain s' i' where x: "x = (s', i')" by (cases x) auto
  have ports: "ports_of reg b br1 = ports_of reg b br"
    by (rule ports_of_cong) (use shape in simp_all)
  have same: "ahead br1 t l = ahead br t l" for t l by (rule ahead_cong) (use shape in simp_all)
  from ahead_filter [OF Cons [unfolded x]] obtain pre where
    pre: "ahead br s i = pre @ (s', i') # ahead br s' i'" "\<forall>x \<in> set pre. \<not> (case x of (s, i) \<Rightarrow> edge_linked br1 s i)"
      "edge_linked br1 s' i'" by auto
  show thesis
  proof (rule go)
    show "pg_brick_edge_iterator_next br1 (at s i) = at s' i'"
      using edge_iterator_next_ahead [of br1 s i] Cons x same by simp
    show "linked_port br1 s' i'"
      using ahead_index [of br s' i' s i] wf_worldD(4) [OF wf br] pre shape(1) by (auto simp: linked_port_def)
    show "length (ahead br1 s' i') < length (ahead br s i)" using pre same by simp
    show "fold m_unlink (ports_of reg b br (ahead br s i)) (graph reg w1) =
        fold m_unlink (ports_of reg b br1 ((s', i') # ahead br1 s' i')) (graph reg w1)"
      using ports_of_None [OF br1 pre(2), of reg] pre(1) same ports by (simp add: ports_of_def)
  qed
qed

lemma after_unlink:
  assumes wf: "wf_world reg pinv w" and br: "bricks w b = Some br" and err: "errp w1 = None"
    and un: "unlinked (b, lside reg br s, i) w w1"
  defines "ps \<equiv> ports_of reg b br ((s, i) # ahead br s i)"
  obtains (fin) br1 where "bricks w1 b = Some br1" and "eit_end (pg_brick_edge_iterator_next br1 (at s i))"
      and "loop_post ps w w1"
  | (go) br1 s' i' where "bricks w1 b = Some br1" and "pg_brick_edge_iterator_next br1 (at s i) = at s' i'"
      and "linked_port br1 s' i'" and "length (ahead br1 s' i') < length (ahead br s i)"
      and "\<And>w2. loop_post (ports_of reg b br1 ((s', i') # ahead br1 s' i')) w1 w2 \<Longrightarrow> loop_post ps w w2"
proof -
  have wf1: "wf_world reg pinv w1" and sh: "same_shape reg w w1" and h: "holders w1 = holders w"
    and gr: "graph reg w1 = m_unlink (b, lside reg br s, i) (graph reg w)"
    using un by (simp_all add: unlinked_def)
  obtain br1 where br1: "bricks w1 b = Some br1" "brick_type br1 = brick_type br"
    "gside reg br1 = gside reg br" "\<And>s. side_max (sides br1 s) = side_max (sides br s)"
    using same_shapeD [OF sh br] by blast
  have fold: "fold m_unlink ps (graph reg w) =
      fold m_unlink (ports_of reg b br (ahead br s i)) (graph reg w1)"
    by (simp add: ps_def ports_of_def gr)
  show thesis
  proof (rule next_after_unlink [OF br wf br1(1) wf1 br1(2,4,3), of s i])
    assume "eit_end (pg_brick_edge_iterator_next br1 (at s i))"
      "fold m_unlink (ports_of reg b br (ahead br s i)) (graph reg w1) = graph reg w1"
    then show thesis using fin [OF br1(1)] wf1 h sh fold by (simp add: loop_post_def)
  next
    fix s' i'
    assume a: "pg_brick_edge_iterator_next br1 (at s i) = at s' i'" "linked_port br1 s' i'"
      "length (ahead br1 s' i') < length (ahead br s i)"
      "fold m_unlink (ports_of reg b br (ahead br s i)) (graph reg w1) =
       fold m_unlink (ports_of reg b br1 ((s', i') # ahead br1 s' i')) (graph reg w1)"
    show thesis
      by (rule go [OF br1(1) a(1-3)])
         (use h fold a(4) same_shape_trans [OF sh] in \<open>auto simp: loop_post_def\<close>)
  qed
qed

lemma linked_port_graph:
  assumes "bricks w b = Some br" and "linked_port br s i"
  obtains c j where "graph reg w (b, lside reg br s, i) = Some (c, pg_flip_side (lside reg br s), j)"
  using linked_port_plink [OF assms(2), of reg] assms(1) by (auto simp: graph_def)

lemma unlink_loop_refines:
  assumes "wf_world reg pinv w" and "bricks w b = Some br" and "errp w = None"
    and "linked_port br s i" and "length (ahead br s i) + 2 \<le> n"
  shows "ores (unlink_loop n reg b (at s i) w) (\<lambda>_. loop_post (ports_of reg b br ((s, i) # ahead br s i)) w)"
  using assms
proof (induction n arbitrary: w br s i)
  case (Suc n)
  let ?ps = "ports_of reg b br ((s, i) # ahead br s i)"
  obtain c j where g: "graph reg w (b, lside reg br s, i) = Some (c, pg_flip_side (lside reg br s), j)"
    using Suc.prems(2,4) by (rule linked_port_graph)
  have "ores (unless_error (\<lambda>w. obind (get_brick b w)
        (\<lambda>br w. unlink_loop n reg b (pg_brick_edge_iterator_next br (at s i)) w)) w1) (\<lambda>_. loop_post ?ps w)"
    if post: "unlink_post (b, lside reg br s, i) w w1" for w1
  proof (cases "errp w1 = None")
    case False
    then show ?thesis using unlink_post_loop [OF post] by (simp add: unless_error_def pg_error_is_set_def)
  next
    case True
    then have un: "unlinked (b, lside reg br s, i) w w1" using post by (simp add: unlink_post_def)
    show ?thesis
    proof (rule after_unlink [OF Suc.prems(1,2) True un])
      fix br1
      assume "bricks w1 b = Some br1" "eit_end (pg_brick_edge_iterator_next br1 (at s i))" "loop_post ?ps w w1"
      then show ?thesis
        using True Suc.prems(5) by (cases n) (simp_all add: unless_error_def pg_error_is_set_def)
    next
      fix br1 s' i'
      assume a: "bricks w1 b = Some br1" "pg_brick_edge_iterator_next br1 (at s i) = at s' i'"
        "linked_port br1 s' i'" "length (ahead br1 s' i') < length (ahead br s i)"
        and mono: "\<And>w2. loop_post (ports_of reg b br1 ((s', i') # ahead br1 s' i')) w1 w2 \<Longrightarrow> loop_post ?ps w w2"
      have "ores (unlink_loop n reg b (at s' i') w1)
          (\<lambda>_. loop_post (ports_of reg b br1 ((s', i') # ahead br1 s' i')) w1)"
        by (rule Suc.IH [OF _ a(1) True a(3)]) (use un a(4) Suc.prems(5) in \<open>simp_all add: unlinked_def\<close>)
      then have "ores (unlink_loop n reg b (at s' i') w1) (\<lambda>_. loop_post ?ps w)"
        by (rule ores_mono) (rule mono)
      then show ?thesis using True a(1,2) by (simp add: unless_error_def pg_error_is_set_def)
    qed
  qed
  then show ?case
    using ores_mono [OF do_unlink_refines(1) [OF Suc.prems(1,2) g refl Suc.prems(3)]]
    by (simp add: ores_obind comp_def)
qed simp

definition quiet_world :: "world \<Rightarrow> bool" where
  "quiet_world w \<longleftrightarrow> (\<forall>b br. bricks w b = Some br \<longrightarrow> quiet (ops br))"

lemma quiet_same_shape: "same_shape reg w w' \<Longrightarrow> quiet_world w \<Longrightarrow> quiet_world w'"
  unfolding quiet_world_def
proof (intro allI impI)
  fix b br'
  assume a: "same_shape reg w w'" "\<forall>b br. bricks w b = Some br \<longrightarrow> quiet (ops br)" "bricks w' b = Some br'"
  then obtain br where "bricks w b = Some br" "ops br' = ops br"
    using a(1) [unfolded same_shape_def, rule_format, of b] by (cases "bricks w b") auto
  then show "quiet (ops br')" using a(2) by metis
qed

lemma do_unlink_total:
  assumes "wf_world reg pinv w" and "bricks w b = Some br" and "linked_port br s i" and "errp w = None"
    and "quiet_world w"
  obtains w1 where "do_unlink reg b s i w = Ret () w1" and "errp w1 = None"
    and "unlinked (b, lside reg br s, i) w w1"
proof -
  obtain c j where g: "graph reg w (b, lside reg br s, i) = Some (c, pg_flip_side (lside reg br s), j)"
    using assms(2,3) by (rule linked_port_graph)
  obtain br' c' j' cr where "(c, pg_flip_side (lside reg br s), j) = (c', pg_flip_side (lside reg br s), j')"
    "bricks w b = Some br'" "bricks w c' = Some cr" "b \<noteq> c'" "plink reg br' (lside reg br s) i = Some (c', j')"
    "plink reg cr (pg_flip_side (lside reg br s)) j' = Some (b, i)"
    by (rule graph_plink [OF g wf_world_matching [OF assms(1)]])
  then have cr: "bricks w c = Some cr" by simp
  have "quiet (ops br)" "quiet (ops cr)" using assms(2,5) cr by (auto simp: quiet_world_def)
  then have "oret (do_unlink reg b s i w) (\<lambda>_ w'. errp w' = None)"
    using do_unlink_refines(2) [OF assms(1,2) g refl assms(4) cr] by blast
  then obtain w1 where w1: "do_unlink reg b s i w = Ret () w1" "errp w1 = None"
    by (auto simp: oret_iff)
  then have "unlinked (b, lside reg br s, i) w w1"
    using do_unlink_refines(1) [OF assms(1,2) g refl assms(4)] by (simp add: unlink_post_def)
  with w1 show thesis by (rule that)
qed

lemma unlink_loop_total:
  assumes "wf_world reg pinv w" and "bricks w b = Some br" and "errp w = None"
    and "linked_port br s i" and "length (ahead br s i) + 2 \<le> n" and "quiet_world w"
  shows "oret (unlink_loop n reg b (at s i) w) (\<lambda>_ w'. errp w' = None)"
  using assms
proof (induction n arbitrary: w br s i)
  case (Suc n)
  obtain w1 where w1: "do_unlink reg b s i w = Ret () w1" "errp w1 = None"
    and un: "unlinked (b, lside reg br s, i) w w1"
    using do_unlink_total [OF Suc.prems(1,2,4,3,6)] .
  show ?case
  proof (rule after_unlink [OF Suc.prems(1,2) w1(2) un])
    fix br1
    assume "bricks w1 b = Some br1" "eit_end (pg_brick_edge_iterator_next br1 (at s i))"
    then show ?thesis
      using w1 Suc.prems(5) by (cases n) (simp_all add: unless_error_def pg_error_is_set_def)
  next
    fix br1 s' i'
    assume a: "bricks w1 b = Some br1" "pg_brick_edge_iterator_next br1 (at s i) = at s' i'"
      "linked_port br1 s' i'" "length (ahead br1 s' i') < length (ahead br s i)"
    have "oret (unlink_loop n reg b (at s' i') w1) (\<lambda>_ w'. errp w' = None)"
      by (rule Suc.IH [OF _ a(1) w1(2) a(3)])
         (use un a(4) Suc.prems(5,6) quiet_same_shape [of w w1] in \<open>simp_all add: unlinked_def\<close>)
    then show ?thesis using w1 a(1,2) by (simp add: unless_error_def pg_error_is_set_def)
  qed
qed simp

text \<open>Unlinking a brick removes every link it has, and nothing else.\<close>

lemma generic_unlink_refines:
  assumes wf: "wf_world reg pinv w" and br: "bricks w b = Some br" and err: "errp w = None"
  shows "ores (pg_brick_generic_unlink reg b w) (\<lambda>_. loop_post (all_ports reg b br) w)"
    and "quiet_world w \<Longrightarrow> oret (pg_brick_generic_unlink reg b w) (\<lambda>_ w'. errp w' = None)"
proof -
  have unfold: "pg_brick_generic_unlink reg b w =
      unlink_loop (eit_measure br (pg_brick_edge_iterator_init br) + 3) reg b (pg_brick_edge_iterator_init br) w"
    using br by (simp add: pg_brick_generic_unlink_def Let_def)
  have "ores (pg_brick_generic_unlink reg b w) (\<lambda>_. loop_post (all_ports reg b br) w) \<and>
    (quiet_world w \<longrightarrow> oret (pg_brick_generic_unlink reg b w) (\<lambda>_ w'. errp w' = None))"
  proof (rule iterator_init_cases [OF wf br])
    assume a: "eit_end (pg_brick_edge_iterator_init br)"
      "fold m_unlink (all_ports reg b br) (graph reg w) = graph reg w"
    have "unlink_loop (eit_measure br (pg_brick_edge_iterator_init br) + 3) reg b
        (pg_brick_edge_iterator_init br) w = Ret () w"
      using a(1) by (simp add: numeral_3_eq_3)
    then show ?thesis using a(2) wf err by (simp add: unfold loop_post_def)
  next
    fix s i
    assume a: "pg_brick_edge_iterator_init br = at s i" "linked_port br s i"
      and fold: "fold m_unlink (all_ports reg b br) (graph reg w) =
        fold m_unlink (ports_of reg b br ((s, i) # ahead br s i)) (graph reg w)"
    have len: "length (ahead br s i) + 2 \<le> eit_measure br (at s i) + 3"
      using length_ahead [of br s i] by simp
    have "loop_post (all_ports reg b br) w = loop_post (ports_of reg b br ((s, i) # ahead br s i)) w"
      by (simp add: loop_post_def [abs_def] fold)
    then show ?thesis
      using unlink_loop_refines [OF wf br err a(2) len] unlink_loop_total [OF wf br err a(2) len]
      by (simp add: unfold a(1))
  qed
  then show "ores (pg_brick_generic_unlink reg b w) (\<lambda>_. loop_post (all_ports reg b br) w)"
    and "quiet_world w \<Longrightarrow> oret (pg_brick_generic_unlink reg b w) (\<lambda>_ w'. errp w' = None)"
    by blast+
qed

end

end
