(* ===== verification/PG_Packets.thy ===== *)
theory PG_Packets
  imports PG_Topology
begin

text \<open>
  Arrays of packets, \<open>src/packets.c\<close>, and single packets, \<open>src/packet.c\<close>: the loops over a
  packet mask that pack, reference, free and forget packets, and the functions that add a
  header to every packet of a burst. The macros of the C file that take \<open>append\<close> or
  \<open>prepend\<close> are functions of that operation here, \<open>x_append\<close> or \<open>x_prepend\<close> of DPDK, which
  returns the offset of the new room in the data buffer or nothing. Headers are written as
  lists of bytes, as they lie in memory on a little-endian machine.
\<close>

section \<open>Bytes\<close>

definition le16 :: "u16 \<Rightarrow> u8 list" where
  "le16 x = [ucast x, ucast (drop_bit 8 x)]"

definition be16 :: "u16 \<Rightarrow> u8 list" where
  "be16 x = [ucast (drop_bit 8 x), ucast x]"

definition le32 :: "u32 \<Rightarrow> u8 list" where
  "le32 x = [ucast x, ucast (drop_bit 8 x), ucast (drop_bit 16 x), ucast (drop_bit 24 x)]"

definition be32 :: "u32 \<Rightarrow> u8 list" where
  "be32 x = [ucast (drop_bit 24 x), ucast (drop_bit 16 x), ucast (drop_bit 8 x), ucast x]"

definition ld16 :: "(nat \<Rightarrow> u8) \<Rightarrow> nat \<Rightarrow> u16" where
  "ld16 f i = ucast (f i) OR push_bit 8 (ucast (f (i + 1)))"

definition ld32 :: "(nat \<Rightarrow> u8) \<Rightarrow> nat \<Rightarrow> u32" where
  "ld32 f i = ucast (f i) OR push_bit 8 (ucast (f (i + 1))) OR push_bit 16 (ucast (f (i + 2))) OR
     push_bit 24 (ucast (f (i + 3)))"

definition ld48 :: "(nat \<Rightarrow> u8) \<Rightarrow> nat \<Rightarrow> u64" where
  "ld48 f i = ucast (ld32 f i) OR push_bit 32 (ucast (ld16 f (i + 4)))"

fun poke :: "(nat \<Rightarrow> u8) \<Rightarrow> nat \<Rightarrow> u8 list \<Rightarrow> (nat \<Rightarrow> u8)" where
  "poke f i [] = f"
| "poke f i (x # xs) = poke (f(i := x)) (Suc i) xs"

lemma poke_apply:
  "poke f i xs k = (if i \<le> k \<and> k < i + length xs then xs ! (k - i) else f k)"
proof (induction xs arbitrary: f i)
  case (Cons x xs)
  then show ?case by (auto simp: nth_Cons')
qed auto

lemma le16_be16: "le16 (PG_CPU_TO_BE_16 x) = be16 x"
proof -
  have "ucast (PG_CPU_TO_BE_16 x) = (ucast (drop_bit 8 x) :: u8)"
    by (rule bit_word_eqI) (auto simp: bit_unsigned_iff bit_PG_CPU_TO_BE_16 bit_drop_bit_eq add.commute)
  moreover have "ucast (drop_bit 8 (PG_CPU_TO_BE_16 x)) = (ucast x :: u8)"
    by (rule bit_word_eqI) (auto simp: bit_unsigned_iff bit_PG_CPU_TO_BE_16 bit_drop_bit_eq)
  ultimately show ?thesis by (simp add: le16_def be16_def)
qed

text \<open>The data of a packet: \<open>rte_pktmbuf_mtod\<close> is the buffer from \<open>data_off\<close> on.\<close>

definition mtod :: "nat \<Rightarrow> world \<Rightarrow> (nat \<Rightarrow> u8, world) out" where
  "mtod p w = obind (get_mbuf p w) (\<lambda>m w. Ret (\<lambda>i. bufs (mst w) (buf_addr m) (data_off m + i)) w)"

definition write_bytes :: "nat \<Rightarrow> nat \<Rightarrow> u8 list \<Rightarrow> world \<Rightarrow> (unit, world) out" where
  "write_bytes p off bs w =
     obind (get_mbuf p w) (\<lambda>m w.
       Ret () (w\<lparr>mst := (mst w)\<lparr>bufs := (bufs (mst w))
                  (buf_addr m := poke (bufs (mst w) (buf_addr m)) off bs)\<rparr>\<rparr>))"

section \<open>Packets of an array\<close>

definition pg_packets_create :: "ext \<Rightarrow> u64 \<Rightarrow> world \<Rightarrow> (arr, world) out" where
  "pg_packets_create x pkts_mask w =
     obind (new_array w) (\<lambda>a w.
     obind (ofold (\<lambda>i w.
              let (p, ms) = x_alloc x (mst w) in
              set_pkt a i (case p of None \<Rightarrow> 0 | Some p \<Rightarrow> p) (w\<lparr>mst := ms\<rparr>))
            (pg_foreach_bit pkts_mask) w) (\<lambda>_ w. Ret a w))"

definition pg_packets_pack :: "arr \<Rightarrow> arr \<Rightarrow> u64 \<Rightarrow> world \<Rightarrow> (nat, world) out" where
  "pg_packets_pack dst src pkts_mask w =
     obind (ofold (\<lambda>(i, j) w.
              obind (get_pkts src w) (\<lambda>f w. set_pkt dst i (f j) w))
            (enumerate 0 (pg_foreach_bit pkts_mask)) w)
       (\<lambda>_ w. Ret (length (pg_foreach_bit pkts_mask)) w)"

definition pg_packets_incref :: "ext \<Rightarrow> arr \<Rightarrow> u64 \<Rightarrow> world \<Rightarrow> (unit, world) out" where
  "pg_packets_incref x pkts pkts_mask w =
     ofold (\<lambda>i w. obind (get_pkts pkts w) (\<lambda>f w.
       Ret () (w\<lparr>mst := x_refcnt_update x (f i) 1 (mst w)\<rparr>))) (pg_foreach_bit pkts_mask) w"

definition pg_packets_free :: "ext \<Rightarrow> arr \<Rightarrow> u64 \<Rightarrow> world \<Rightarrow> (unit, world) out" where
  "pg_packets_free x pkts pkts_mask w =
     ofold (\<lambda>i w. obind (get_pkts pkts w) (\<lambda>f w.
       Ret () (w\<lparr>mst := x_free x (f i) (mst w)\<rparr>))) (pg_foreach_bit pkts_mask) w"

definition pg_packets_forget :: "arr \<Rightarrow> u64 \<Rightarrow> world \<Rightarrow> (unit, world) out" where
  "pg_packets_forget pkts pkts_mask w =
     ofold (\<lambda>i w. set_pkt pkts i 0 w) (pg_foreach_bit pkts_mask) w"

definition pg_packets_prefetch :: "arr \<Rightarrow> u64 \<Rightarrow> world \<Rightarrow> (unit, world) out" where
  "pg_packets_prefetch pkts pkts_mask w =
     obind (ofold (\<lambda>i w. obind (get_pkts pkts w) (\<lambda>_ w. Ret () w)) (pg_foreach_bit pkts_mask) w) (\<lambda>_ w.
       ofold (\<lambda>i w. obind (get_pkts pkts w) (\<lambda>f w. obind (mtod (f i) w) (\<lambda>_ w. Ret () w)))
         (pg_foreach_bit pkts_mask) w)"

section \<open>Adding headers\<close>

type_synonym pkt_op = "nat \<Rightarrow> nat \<Rightarrow> mstore \<Rightarrow> nat option \<times> mstore"

definition packets_ops ::
    "pkt_op \<Rightarrow> u8 list \<Rightarrow> (mbuf \<Rightarrow> mbuf) \<Rightarrow> arr \<Rightarrow> u64 \<Rightarrow> world \<Rightarrow> (arr option, world) out" where
  "packets_ops op bs setlen pkts pkts_mask w =
     obind (oloop (\<lambda>j w. obind (get_pkts pkts w) (\<lambda>f w.
         if f j = 0 then Ret None w
         else
           let (tmp, ms) = op (f j) (length bs) (mst w); w = w\<lparr>mst := ms\<rparr> in
           case tmp of None \<Rightarrow> Ret (Some ()) w
           | Some off \<Rightarrow>
               obind (write_bytes (f j) off bs w) (\<lambda>_ w. Ret None (upd_mbuf (f j) setlen w))))
       (pg_foreach_bit pkts_mask) w)
     (\<lambda>r w. Ret (case r of None \<Rightarrow> Some pkts | Some _ \<Rightarrow> None) w)"

definition pg_packets_ops_blank :: "pkt_op \<Rightarrow> arr \<Rightarrow> u64 \<Rightarrow> nat \<Rightarrow> world \<Rightarrow> (arr option, world) out" where
  "pg_packets_ops_blank op pkts pkts_mask len w =
     packets_ops op (replicate len 0) (\<lambda>m. m) pkts pkts_mask w"

definition pg_packets_append_blank :: "ext \<Rightarrow> arr \<Rightarrow> u64 \<Rightarrow> nat \<Rightarrow> world \<Rightarrow> (arr option, world) out" where
  "pg_packets_append_blank x = pg_packets_ops_blank (x_append x)"

definition pg_packets_prepend_blank :: "ext \<Rightarrow> arr \<Rightarrow> u64 \<Rightarrow> nat \<Rightarrow> world \<Rightarrow> (arr option, world) out" where
  "pg_packets_prepend_blank x = pg_packets_ops_blank (x_prepend x)"

definition pg_packets_ops_buf :: "pkt_op \<Rightarrow> arr \<Rightarrow> u64 \<Rightarrow> u8 list \<Rightarrow> world \<Rightarrow> (arr option, world) out" where
  "pg_packets_ops_buf op pkts pkts_mask buf w = packets_ops op buf (\<lambda>m. m) pkts pkts_mask w"

definition pg_packets_append_buf :: "ext \<Rightarrow> arr \<Rightarrow> u64 \<Rightarrow> u8 list \<Rightarrow> world \<Rightarrow> (arr option, world) out" where
  "pg_packets_append_buf x = pg_packets_ops_buf (x_append x)"

definition pg_packets_prepend_buf :: "ext \<Rightarrow> arr \<Rightarrow> u64 \<Rightarrow> u8 list \<Rightarrow> world \<Rightarrow> (arr option, world) out" where
  "pg_packets_prepend_buf x = pg_packets_ops_buf (x_prepend x)"

text \<open>A C string is its bytes before the terminating zero.\<close>

definition pg_packets_ops_str :: "pkt_op \<Rightarrow> arr \<Rightarrow> u64 \<Rightarrow> u8 list \<Rightarrow> world \<Rightarrow> (arr option, world) out" where
  "pg_packets_ops_str op pkts pkts_mask str w = packets_ops op (str @ [0]) (\<lambda>m. m) pkts pkts_mask w"

definition pg_packets_append_str :: "ext \<Rightarrow> arr \<Rightarrow> u64 \<Rightarrow> u8 list \<Rightarrow> world \<Rightarrow> (arr option, world) out" where
  "pg_packets_append_str x = pg_packets_ops_str (x_append x)"

definition pg_packets_prepend_str :: "ext \<Rightarrow> arr \<Rightarrow> u64 \<Rightarrow> u8 list \<Rightarrow> world \<Rightarrow> (arr option, world) out" where
  "pg_packets_prepend_str x = pg_packets_ops_str (x_prepend x)"

definition ipv4_header :: "ext \<Rightarrow> u32 \<Rightarrow> u32 \<Rightarrow> u16 \<Rightarrow> u8 \<Rightarrow> u8 list" where
  "ipv4_header x src_ip dst_ip datagram_len proto =
     (let hdr = (\<lambda>cksum. [0x45, 0] @ be16 datagram_len @ [0, 0] @ be16 0x4000 @ [64, proto] @
                  le16 cksum @ le32 src_ip @ le32 dst_ip)
      in hdr (x_ipv4_cksum x (hdr 0)))"

definition packets_ops_ipv4 ::
    "ext \<Rightarrow> pkt_op \<Rightarrow> arr \<Rightarrow> u64 \<Rightarrow> u32 \<Rightarrow> u32 \<Rightarrow> u16 \<Rightarrow> u8 \<Rightarrow> world \<Rightarrow> (arr option, world) out" where
  "packets_ops_ipv4 x op pkts pkts_mask src_ip dst_ip datagram_len proto w =
     packets_ops op (ipv4_header x src_ip dst_ip datagram_len proto) (\<lambda>m. m\<lparr>l3_len := 20\<rparr>) pkts pkts_mask w"

definition pg_packets_append_ipv4 ::
    "ext \<Rightarrow> arr \<Rightarrow> u64 \<Rightarrow> u32 \<Rightarrow> u32 \<Rightarrow> u16 \<Rightarrow> u8 \<Rightarrow> world \<Rightarrow> (arr option, world) out" where
  "pg_packets_append_ipv4 x = packets_ops_ipv4 x (x_append x)"

definition pg_packets_prepend_ipv4 ::
    "ext \<Rightarrow> arr \<Rightarrow> u64 \<Rightarrow> u32 \<Rightarrow> u32 \<Rightarrow> u16 \<Rightarrow> u8 \<Rightarrow> world \<Rightarrow> (arr option, world) out" where
  "pg_packets_prepend_ipv4 x = packets_ops_ipv4 x (x_prepend x)"

definition ipv6_header :: "u8 list \<Rightarrow> u8 list \<Rightarrow> u16 \<Rightarrow> u8 \<Rightarrow> u8 list" where
  "ipv6_header src_ip dst_ip datagram_len proto =
     le32 (PG_CPU_TO_BE_32 0x60000000) @ be16 datagram_len @ [proto, 64] @ src_ip @ dst_ip"

definition pg_packets_append_ipv6 ::
    "ext \<Rightarrow> arr \<Rightarrow> u64 \<Rightarrow> u8 list \<Rightarrow> u8 list \<Rightarrow> u16 \<Rightarrow> u8 \<Rightarrow> world \<Rightarrow> (arr option, world) out" where
  "pg_packets_append_ipv6 x pkts pkts_mask src_ip dst_ip datagram_len proto w =
     packets_ops (x_append x) (ipv6_header src_ip dst_ip datagram_len proto) (\<lambda>m. m\<lparr>l3_len := 40\<rparr>)
       pkts pkts_mask w"

definition udp_header :: "u16 \<Rightarrow> u16 \<Rightarrow> u16 \<Rightarrow> u8 list" where
  "udp_header src_port dst_port datagram_len = be16 src_port @ be16 dst_port @ be16 datagram_len @ [0, 0]"

definition packets_ops_udp ::
    "pkt_op \<Rightarrow> arr \<Rightarrow> u64 \<Rightarrow> u16 \<Rightarrow> u16 \<Rightarrow> u16 \<Rightarrow> world \<Rightarrow> (arr option, world) out" where
  "packets_ops_udp op pkts pkts_mask src_port dst_port datagram_len w =
     packets_ops op (udp_header src_port dst_port datagram_len) (\<lambda>m. m) pkts pkts_mask w"

definition pg_packets_append_udp ::
    "ext \<Rightarrow> arr \<Rightarrow> u64 \<Rightarrow> u16 \<Rightarrow> u16 \<Rightarrow> u16 \<Rightarrow> world \<Rightarrow> (arr option, world) out" where
  "pg_packets_append_udp x = packets_ops_udp (x_append x)"

definition pg_packets_prepend_udp ::
    "ext \<Rightarrow> arr \<Rightarrow> u64 \<Rightarrow> u16 \<Rightarrow> u16 \<Rightarrow> u16 \<Rightarrow> world \<Rightarrow> (arr option, world) out" where
  "pg_packets_prepend_udp x = packets_ops_udp (x_prepend x)"

definition PG_VTEP_BE_I_FLAG :: u32 where
  "PG_VTEP_BE_I_FLAG = PG_CPU_TO_BE_32 0x08000000"

definition vxlan_header :: "u32 \<Rightarrow> u8 list" where
  "vxlan_header vni = le32 PG_VTEP_BE_I_FLAG @ be32 (push_bit 8 vni)"

definition pg_packets_ops_vxlan :: "pkt_op \<Rightarrow> arr \<Rightarrow> u64 \<Rightarrow> u32 \<Rightarrow> world \<Rightarrow> (arr option, world) out" where
  "pg_packets_ops_vxlan op pkts pkts_mask vni w = packets_ops op (vxlan_header vni) (\<lambda>m. m) pkts pkts_mask w"

definition pg_packets_append_vxlan :: "ext \<Rightarrow> arr \<Rightarrow> u64 \<Rightarrow> u32 \<Rightarrow> world \<Rightarrow> (arr option, world) out" where
  "pg_packets_append_vxlan x = pg_packets_ops_vxlan (x_append x)"

definition pg_packets_prepend_vxlan :: "ext \<Rightarrow> arr \<Rightarrow> u64 \<Rightarrow> u32 \<Rightarrow> world \<Rightarrow> (arr option, world) out" where
  "pg_packets_prepend_vxlan x = pg_packets_ops_vxlan (x_prepend x)"

definition ether_header :: "u8 list \<Rightarrow> u8 list \<Rightarrow> u16 \<Rightarrow> u8 list" where
  "ether_header src_mac dst_mac ether_type = dst_mac @ src_mac @ be16 ether_type"

definition pg_packets_ops_ether ::
    "pkt_op \<Rightarrow> arr \<Rightarrow> u64 \<Rightarrow> u8 list \<Rightarrow> u8 list \<Rightarrow> u16 \<Rightarrow> world \<Rightarrow> (arr option, world) out" where
  "pg_packets_ops_ether op pkts pkts_mask src_mac dst_mac ether_type w =
     packets_ops op (ether_header src_mac dst_mac ether_type) (\<lambda>m. m\<lparr>l2_len := 14\<rparr>) pkts pkts_mask w"

definition pg_packets_append_ether ::
    "ext \<Rightarrow> arr \<Rightarrow> u64 \<Rightarrow> u8 list \<Rightarrow> u8 list \<Rightarrow> u16 \<Rightarrow> world \<Rightarrow> (arr option, world) out" where
  "pg_packets_append_ether x = pg_packets_ops_ether (x_append x)"

definition pg_packets_prepend_ether ::
    "ext \<Rightarrow> arr \<Rightarrow> u64 \<Rightarrow> u8 list \<Rightarrow> u8 list \<Rightarrow> u16 \<Rightarrow> world \<Rightarrow> (arr option, world) out" where
  "pg_packets_prepend_ether x = pg_packets_ops_ether (x_prepend x)"

section \<open>Single packets\<close>

definition pg_packet_len :: "mbuf \<Rightarrow> nat" where
  "pg_packet_len packet = pkt_len packet"

definition pg_packet_max_len :: "mbuf \<Rightarrow> int" where
  "pg_packet_max_len packet = (int (buf_len packet) - int (data_off packet)) mod 4294967296"

definition pg_packet_set_len :: "mbuf \<Rightarrow> nat \<Rightarrow> int \<times> mbuf" where
  "pg_packet_set_len packet len =
     (if pg_packet_max_len packet < int len then (-1, packet)
      else (0, packet\<lparr>pkt_len := len, data_len := len mod 65536\<rparr>))"

definition pg_packet_compute_len :: "mbuf \<Rightarrow> nat \<Rightarrow> int \<times> mbuf" where
  "pg_packet_compute_len packet l5_len =
     pg_packet_set_len packet ((l5_len + l2_len packet + l3_len packet + l4_len packet) mod 4294967296)"

definition pg_packet_set_l2_len :: "mbuf \<Rightarrow> nat \<Rightarrow> mbuf" where
  "pg_packet_set_l2_len packet len = packet\<lparr>l2_len := len mod 128\<rparr>"

definition pg_packet_set_l3_len :: "mbuf \<Rightarrow> nat \<Rightarrow> mbuf" where
  "pg_packet_set_l3_len packet len = packet\<lparr>l3_len := len mod 512\<rparr>"

definition pg_packet_set_l4_len :: "mbuf \<Rightarrow> nat \<Rightarrow> mbuf" where
  "pg_packet_set_l4_len packet len = packet\<lparr>l4_len := len mod 256\<rparr>"

section \<open>Lemmas\<close>

lemma get_pkts_Some [simp]: "arrays w a = Some f \<Longrightarrow> get_pkts a w = Ret f w"
  by (simp add: get_pkts_def)

lemma set_pkt_Some [simp]:
  "arrays w a = Some f \<Longrightarrow> set_pkt a i p w = Ret () (w\<lparr>arrays := (arrays w)(a \<mapsto> f(i := p))\<rparr>)"
  by (simp add: set_pkt_def)

text \<open>The loops over an array that act on the packet store.\<close>

lemma ofold_mst:
  assumes "arrays w a = Some f"
  shows "ofold (\<lambda>i w. obind (get_pkts a w) (\<lambda>f w. Ret () (w\<lparr>mst := g (f i) (mst w)\<rparr>))) is w =
    Ret () (w\<lparr>mst := fold (\<lambda>i. g (f i)) is (mst w)\<rparr>)"
  using assms by (induction "is" arbitrary: w) simp_all

lemma pg_packets_free_eq:
  "arrays w a = Some f \<Longrightarrow>
   pg_packets_free x a m w = Ret () (w\<lparr>mst := fold (\<lambda>i. x_free x (f i)) (pg_foreach_bit m) (mst w)\<rparr>)"
  by (simp add: pg_packets_free_def ofold_mst)

lemma pg_packets_incref_eq:
  "arrays w a = Some f \<Longrightarrow>
   pg_packets_incref x a m w =
     Ret () (w\<lparr>mst := fold (\<lambda>i. x_refcnt_update x (f i) 1) (pg_foreach_bit m) (mst w)\<rparr>)"
  using ofold_mst [of w a f "\<lambda>p. x_refcnt_update x p 1" "pg_foreach_bit m"]
  by (simp add: pg_packets_incref_def)

lemma packets_bricks:
  "pg_packets_free x a m w = Ret u w1 \<Longrightarrow> bricks w1 = bricks w \<and> errp w1 = errp w"
  "pg_packets_incref x a m w = Ret u w1 \<Longrightarrow> bricks w1 = bricks w \<and> errp w1 = errp w"
proof -
  have loop: "ores (ofold (\<lambda>i w. obind (get_pkts a w) (\<lambda>f w. Ret () (w\<lparr>mst := g (f i) (mst w)\<rparr>))) is w)
      (\<lambda>_ w1. bricks w1 = bricks w \<and> errp w1 = errp w)" for g :: "nat \<Rightarrow> mstore \<Rightarrow> mstore" and "is" and w :: world
    by (rule ores_ofold) (auto simp: get_pkts_def split: option.splits)
  show "pg_packets_free x a m w = Ret u w1 \<Longrightarrow> bricks w1 = bricks w \<and> errp w1 = errp w"
    using loop [of "x_free x" "pg_foreach_bit m" w] by (simp add: pg_packets_free_def)
  show "pg_packets_incref x a m w = Ret u w1 \<Longrightarrow> bricks w1 = bricks w \<and> errp w1 = errp w"
    using loop [of "\<lambda>p. x_refcnt_update x p 1" "pg_foreach_bit m" w] by (simp add: pg_packets_incref_def)
qed

text \<open>
  What the loops need of the reference counts of DPDK, which have 16 bits: a reference more
  adds one, with wrap-around, freeing a packet with more than one reference takes one away, and
  nothing else changes. \<open>counters_fit\<close> says that no counter wraps when every use of a packet in a
  burst gets a reference.
\<close>

definition mbuf_refs :: "nat \<Rightarrow> (u16 \<Rightarrow> u16) \<Rightarrow> mstore \<Rightarrow> mstore" where
  "mbuf_refs p f ms = ms\<lparr>mbufs := (mbufs ms)(p := map_option (\<lambda>m. m\<lparr>refcnt := f (refcnt m)\<rparr>) (mbufs ms p))\<rparr>"

definition dpdk_refcnt :: "ext \<Rightarrow> bool" where
  "dpdk_refcnt x \<longleftrightarrow>
     (\<forall>p ms m. mbufs ms p = Some m \<longrightarrow>
        x_refcnt_update x p 1 ms = mbuf_refs p (\<lambda>n. n + 1) ms \<and>
        (1 < refcnt m \<longrightarrow> x_free x p ms = mbuf_refs p (\<lambda>n. n - 1) ms))"

definition valid_pkts :: "(nat \<Rightarrow> nat) \<Rightarrow> nat list \<Rightarrow> mstore \<Rightarrow> bool" where
  "valid_pkts f is ms \<longleftrightarrow> (\<forall>i \<in> set is. \<exists>m. mbufs ms (f i) = Some m \<and> 0 < refcnt m)"

lemma mbufs_mbuf_refs:
  "mbufs (mbuf_refs p f ms) q =
     (if q = p then map_option (\<lambda>m. m\<lparr>refcnt := f (refcnt m)\<rparr>) (mbufs ms p) else mbufs ms q)"
  "bufs (mbuf_refs p f ms) = bufs ms"
  by (simp_all add: mbuf_refs_def)

definition adj_refs :: "(nat \<Rightarrow> nat) \<Rightarrow> mstore \<Rightarrow> mstore" where
  "adj_refs c ms = ms\<lparr>mbufs := (\<lambda>p. map_option (\<lambda>m. m\<lparr>refcnt := refcnt m + word_of_nat (c p)\<rparr>) (mbufs ms p))\<rparr>"

definition uses :: "(nat \<Rightarrow> nat) \<Rightarrow> nat list \<Rightarrow> nat \<Rightarrow> nat" where
  "uses f is p = length (filter (\<lambda>i. f i = p) is)"

definition counters_fit :: "(nat \<Rightarrow> nat) \<Rightarrow> nat list \<Rightarrow> mstore \<Rightarrow> bool" where
  "counters_fit f is ms \<longleftrightarrow> (\<forall>p m. mbufs ms p = Some m \<longrightarrow> unat (refcnt m) + uses f is p < 65536)"

text \<open>A count with some references more, when it does not wrap.\<close>

lemma unat_more: "unat r + n < 65536 \<Longrightarrow> unat (r + word_of_nat n) = unat r + n" for r :: u16
  by (simp add: unat_word_ariths(1) unat_of_nat)

lemma uses_Cons: "uses f (i # is) = (uses f is)(f i := Suc (uses f is (f i)))"
  by (auto simp: uses_def fun_eq_iff)

lemma uses_tl_le: "uses f is p \<le> uses f (i # is) p"
  by (simp add: uses_Cons)

lemma adj_refs_0: "adj_refs (\<lambda>_. 0) ms = ms"
  by (simp add: adj_refs_def option.map_ident)

lemma adj_refs_Suc: "mbuf_refs p (\<lambda>n. n + 1) (adj_refs c ms) = adj_refs (c(p := Suc (c p))) ms"
  by (rule mstore.equality) (auto simp: mbuf_refs_def adj_refs_def fun_eq_iff option.map_comp o_def ac_simps)

lemma adj_refs_dec: "mbuf_refs p (\<lambda>n. n - 1) (adj_refs (c(p := Suc (c p))) ms) = adj_refs c ms"
  by (rule mstore.equality) (auto simp: mbuf_refs_def adj_refs_def fun_eq_iff option.map_comp o_def)

lemma fold_incref:
  assumes "dpdk_refcnt x" and "valid_pkts f is ms"
  shows "fold (\<lambda>i. x_refcnt_update x (f i) 1) is (adj_refs c ms) = adj_refs (\<lambda>p. c p + uses f is p) ms"
  using assms(2)
proof (induction "is" arbitrary: c)
  case (Cons i "is")
  obtain m where "mbufs ms (f i) = Some m" using Cons.prems by (auto simp: valid_pkts_def)
  then have "\<exists>m. mbufs (adj_refs c ms) (f i) = Some m" by (simp add: adj_refs_def)
  moreover define c' where "c' = c(f i := Suc (c (f i)))"
  ultimately have "x_refcnt_update x (f i) 1 (adj_refs c ms) = adj_refs c' ms"
    using assms(1) by (auto simp: dpdk_refcnt_def adj_refs_Suc)
  moreover have "(\<lambda>p. c' p + uses f is p) = (\<lambda>p. c p + uses f (i # is) p)"
    by (auto simp: uses_Cons c'_def)
  moreover have "valid_pkts f is ms" using Cons.prems by (simp add: valid_pkts_def)
  ultimately show ?case using Cons.IH [of c'] by simp
qed (simp add: uses_def)

lemma fold_free:
  assumes "dpdk_refcnt x" and "valid_pkts f is ms" and "counters_fit f is ms"
  shows "fold (\<lambda>i. x_free x (f i)) is (adj_refs (uses f is) ms) = ms"
  using assms(2,3)
proof (induction "is")
  case (Cons i "is")
  obtain m where "mbufs ms (f i) = Some m" "0 < refcnt m" using Cons.prems by (auto simp: valid_pkts_def)
  moreover from this have "unat (refcnt m) + uses f (i # is) (f i) < 65536"
    using Cons.prems(2) by (simp add: counters_fit_def)
  ultimately have "1 < refcnt m + word_of_nat (uses f (i # is) (f i))"
    using unat_more [of "refcnt m" "uses f (i # is) (f i)"] by (simp add: word_less_nat_alt uses_Cons)
  then have "\<exists>m. mbufs (adj_refs (uses f (i # is)) ms) (f i) = Some m \<and> 1 < refcnt m"
    using \<open>mbufs ms (f i) = Some m\<close> by (simp add: adj_refs_def)
  then have "x_free x (f i) (adj_refs (uses f (i # is)) ms) = adj_refs (uses f is) ms"
    using assms(1) adj_refs_dec [of "f i" "uses f is" ms] by (auto simp: dpdk_refcnt_def uses_Cons)
  moreover have "valid_pkts f is ms" using Cons.prems by (simp add: valid_pkts_def)
  moreover have "counters_fit f is ms"
    using Cons.prems(2) uses_tl_le [of f "is" _ i] unfolding counters_fit_def by (meson add_left_mono le_less_trans)
  ultimately show ?case using Cons.IH by simp
qed (simp add: uses_def adj_refs_def option.map_ident)

section \<open>Properties\<close>


definition demo_npf :: npf_ext where
  "demo_npf = \<lparr>NPF_RULE_PASS = 1, NPF_RULE_IN = 0x10000000, NPF_RULE_OUT = 0x20000000,
     NPF_RULE_STATEFUL = 8, NPF_NO_GC = 1, x_npfk_sysinit = (\<lambda>n ms. (0, ms)),
     x_npf_dpdk_create = (\<lambda>f ms. (Some 1, ms)), x_npf_dpdk_ifattach = (\<lambda>n i ms. (Some 1, ms)),
     x_npfk_load = (\<lambda>n rs ms. (0, ms)), x_npfk_packet_handler = (\<lambda>n i d p ms. (0, ms)),
     x_pcap_compile = (\<lambda>f. Some [])\<rparr>"

definition demo_eth :: eth_ext where
  "demo_eth = \<lparr>PKT_TX_UDP_CKSUM = 0x20000000000000, PKT_TX_TCP_CKSUM = 0x10000000000000, PKT_TX_TCP_SEG = 0x4000000000000,
     PKT_TX_IPV4 = 0x80000000000000, PKT_TX_IP_CKSUM = 0x40000000000000,
     DEV_TX_OFFLOAD_UDP_CKSUM = 4, DEV_TX_OFFLOAD_TCP_CKSUM = 8, x_eth_attach = (\<lambda>n ms. (0, ms)), x_eth_dev_count = (\<lambda>ms. 1),
     x_eth_tx_offload_capa = (\<lambda>p ms. 0), x_eth_rx_offload_capa = (\<lambda>p ms. 0),
     x_eth_dev_configure = (\<lambda>p f ms. (0, ms)), x_eth_rx_queue_setup = (\<lambda>p ms. (0, ms)),
     x_eth_tx_queue_setup = (\<lambda>p f ms. (0, ms)), x_eth_dev_start = (\<lambda>p ms. (0, ms)),
     x_eth_txq_offloads = (\<lambda>p ms. None), x_eth_tx_prepare = (\<lambda>p ps ms. ms),
     x_eth_tx_burst = (\<lambda>p ps ms. (0, ms)), x_eth_rx_burst = (\<lambda>p n ms. ([], ms)),
     x_eth_ibytes = (\<lambda>p ms. 0), x_eth_obytes = (\<lambda>p ms. 0), x_eth_set_mtu = (\<lambda>p m ms. (0, ms)),
     x_eth_get_mtu = (\<lambda>p ms. (0, 1500)), x_eth_macaddr = (\<lambda>p ms. replicate 6 0),
     x_udptcp_cksum = (\<lambda>f i j. 0), x_udptcp6_cksum = (\<lambda>f i j. 0)\<rparr>"

definition demo_os :: os_ext where
  "demo_os = \<lparr>x_tun_open = (\<lambda>ms. (3, ms)), x_tun_setiff = (\<lambda>fd n ms. (Some n, ms)),
     x_tun_setpersist = (\<lambda>fd ms. (0, ms)), x_write = (\<lambda>fd bs ms. (int (length bs), ms)),
     x_read = (\<lambda>fd n ms. (Inl ''EAGAIN'', ms)), x_errno = (\<lambda>ms. 0), x_strerror = (\<lambda>ms. []), x_socket = (\<lambda>ms. (4, ms)),
     x_siocgifhwaddr = (\<lambda>fd n ms. None), x_is_dir = (\<lambda>_. True),
     x_realpath = Some, x_inet_pton4 = (\<lambda>_. None), x_inet_pton6 = (\<lambda>_. None), x_inet_ntop = (\<lambda>_. []),
     x_gettimeofday = (\<lambda>ms. (0, 0)), x_timer_cycles = (\<lambda>ms. 0), x_timer_hz = (\<lambda>ms. 1000),
     x_pcap_open_dead = (\<lambda>ms. (Some 1, ms)), x_pcap_dump_fopen = (\<lambda>p f ms. (Some 1, ms))\<rparr>"

definition demo_vhost :: vhost_ext where
  "demo_vhost = \<lparr>x_vhost_register = (\<lambda>p f ms. (0, ms)), x_vhost_callback_register = (\<lambda>p ms. (0, ms)),
     x_vhost_start = (\<lambda>p ms. (0, ms)), x_vhost_features = (\<lambda>e p m ms. (0, ms)), x_vhost_flags = 0, x_vhost_ifname = (\<lambda>v ms. []),
     x_vhost_enqueue = (\<lambda>v ps ms. (0, ms)), x_vhost_dequeue = (\<lambda>v n ms. ([], ms))\<rparr>"

fun demo_raw_cksum :: "u8 list \<Rightarrow> u32 \<Rightarrow> u32" where
  "demo_raw_cksum (a # b # bs) s = demo_raw_cksum bs (s + (ucast a OR push_bit 8 (ucast b)))"
| "demo_raw_cksum _ s = s"

definition demo_reduce :: "u32 \<Rightarrow> u16" where
  "demo_reduce s =
     (let s = drop_bit 16 s + (s AND 0xffff); s = drop_bit 16 s + (s AND 0xffff) in ucast s)"

definition demo_ext :: ext where
  "demo_ext = \<lparr>x_malloc_ok = (\<lambda>_. True), x_alloc = (\<lambda>ms. (None, ms)), x_alloc_bulk = (\<lambda>n ms. (None, ms)),
     x_clone = (\<lambda>p ms. (None, ms)),
     x_free = (\<lambda>p ms. case mbufs ms p of None \<Rightarrow> ms
        | Some m \<Rightarrow> if refcnt m \<le> 1 then ms\<lparr>mbufs := (mbufs ms)(p := None)\<rparr> else mbuf_refs p (\<lambda>n. n - 1) ms),
     x_refcnt_update = (\<lambda>p d ms. mbuf_refs p (\<lambda>n. n + word_of_int d) ms),
     x_append = (\<lambda>p n ms. (None, ms)), x_prepend = (\<lambda>p n ms. (None, ms)), x_adj = (\<lambda>p n ms. (False, ms)),
     x_ipv4_cksum = (\<lambda>bs. let c = demo_reduce (demo_raw_cksum bs 0) in if c = 0xffff then c else NOT c),
     x_raw_cksum = demo_raw_cksum, x_raw_cksum_reduce = demo_reduce,
     x_is_multicast_ether = (\<lambda>a. a ! 0 AND 1 \<noteq> 0), RTE_PTYPE_L2_ETHER = 1, RTE_PTYPE_L2_ETHER_VLAN = 6,
     RTE_PKTMBUF_HEADROOM = 128, SIZEOF_RTE_MBUF = 128,
     x_reset = (\<lambda>p ms. ms), x_user_dipole = (\<lambda>c b s f m d ms. (f, m, ms)),
     x_rxtx_rx = (\<lambda>c b ps d ms. ms), x_rxtx_tx = (\<lambda>c b f d ms. (f, 0, ms)), x_call = (\<lambda>c ms. ms),
     x_npf = demo_npf, x_eth = demo_eth, x_os = demo_os, x_vhost = demo_vhost\<rparr>"

lemma demo_ext_refcnt: "dpdk_refcnt demo_ext"
  by (auto simp: dpdk_refcnt_def demo_ext_def not_le [symmetric])

definition demo_mbuf :: mbuf where
  "demo_mbuf = \<lparr>buf_addr = 1, buf_len = 2048, data_off = 128, data_len = 60, pkt_len = 60, refcnt = 1,
     l2_type = 0, l2_len = 14, l3_len = 20, l4_len = 0, ol_flags = 0, udata64 = 0,
     nb_segs = 1, seg_next = None\<rparr>"

definition demo_world :: world where
  "demo_world = \<lparr>bricks = (\<lambda>_. None), brick_next = 0,
     arrays = [Arr 0 \<mapsto> (\<lambda>i. Suc i), Arr 1 \<mapsto> (\<lambda>_. 0)], arr_next = 2,
     mst = \<lparr>mbufs = (\<lambda>p. if 1 \<le> p \<and> p \<le> 64 then Some (demo_mbuf\<lparr>buf_addr := p\<rparr>) else None),
            bufs = (\<lambda>_ _. 0), outside = 0\<rparr>,
     malloc_cnt = 0,
     glob = \<lparr>nb_firewall = 0, pg_npf_nworkers = 0, firewall_iface_cnt = 0, is_dpdk_init = False,
             port_conf_offloads = 0,
             vhost_sockets = [], sockets_path = None, vhost_start_ok = False,
             enable_freacture_mask = 0, disable_freacture_mask = 0, print_data = (\<lambda>_. 0)\<rparr>,
     errp = None\<rparr>"

lemma demo_valid: "valid_pkts Suc (pg_foreach_bit m) (mst demo_world)"
  using bit64_less [of m]
  by (auto simp: valid_pkts_def demo_world_def demo_mbuf_def set_pg_foreach_bit Suc_le_eq)

lemma uses_Suc_le: "distinct is \<Longrightarrow> uses Suc is p \<le> 1"
  by (induction "is") (auto simp: uses_def filter_empty_conv)

lemma demo_counters: "counters_fit Suc (pg_foreach_bit m) (mst demo_world)"
proof -
  have "uses Suc (pg_foreach_bit m) p < 65535" for p
    using uses_Suc_le [of "pg_foreach_bit m" p] by (simp add: pg_foreach_bit_filter)
  then show ?thesis
    by (auto simp: counters_fit_def demo_world_def demo_mbuf_def split: if_splits)
qed


lemma pack_loop:
  assumes "arrays w src = Some f" and "arrays w dst = Some g" and "src \<noteq> dst"
  shows "ofold (\<lambda>(i, j) w. obind (get_pkts src w) (\<lambda>f w. set_pkt dst i (f j) w)) (enumerate n js) w =
    Ret () (w\<lparr>arrays := (arrays w)(dst \<mapsto> (\<lambda>i. if n \<le> i \<and> i < n + length js then f (js ! (i - n)) else g i))\<rparr>)"
  using assms
proof (induction js arbitrary: n g w)
  case Nil
  have "(\<lambda>i. if n \<le> i \<and> i < n + length ([]::nat list) then f ([] ! (i - n)) else g i) = g" by auto
  then show ?case using Nil by (simp add: fun_upd_idem)
next
  case (Cons j js)
  define g' where "g' = g(n := f j)"
  define w' where "w' = w\<lparr>arrays := (arrays w)(dst \<mapsto> g')\<rparr>"
  have w': "arrays w' src = Some f" "arrays w' dst = Some g'"
    using Cons.prems by (simp_all add: w'_def)
  have "(\<lambda>i. if Suc n \<le> i \<and> i < Suc n + length js then f (js ! (i - Suc n)) else g' i) =
      (\<lambda>i. if n \<le> i \<and> i < n + length (j # js) then f ((j # js) ! (i - n)) else g i)"
    by (auto simp: fun_eq_iff nth_Cons' g'_def)
  moreover have "obind (get_pkts src w) (\<lambda>f w. set_pkt dst n (f j) w) = Ret () w'"
    using Cons.prems by (simp add: w'_def g'_def)
  moreover have "w'\<lparr>arrays := (arrays w')(dst \<mapsto> h)\<rparr> = w\<lparr>arrays := (arrays w)(dst \<mapsto> h)\<rparr>" for h
    by (simp add: w'_def)
  ultimately show ?case
    using Cons.IH [OF w' Cons.prems(3), of "Suc n"] by (simp only: enumerate_simps ofold.simps case_prod_conv obind.simps)
qed

text \<open>
  C16. \<open>pg_packets_pack\<close> copies the packets of the mask, in the order of their index, to the
  first places of the destination, returns their number and changes nothing else.
\<close>

theorem pg_packets_pack_spec:
  assumes "arrays w src = Some f" and "arrays w dst = Some g" and "src \<noteq> dst"
  shows "pg_packets_pack dst src pkts_mask w =
    Ret (pg_mask_count pkts_mask)
      (w\<lparr>arrays := (arrays w)(dst \<mapsto> (\<lambda>i. if i < pg_mask_count pkts_mask
                                           then f (pg_foreach_bit pkts_mask ! i) else g i))\<rparr>)"
  using pack_loop [OF assms, of 0 "pg_foreach_bit pkts_mask", unfolded diff_zero]
  by (simp add: pg_packets_pack_def length_pg_foreach_bit)

theorem pg_packets_pack_spec_witness:
  "pg_packets_pack (Arr 1) (Arr 0) 10 demo_world =
    Ret (pg_mask_count 10)
      (demo_world\<lparr>arrays := (arrays demo_world)(Arr 1 \<mapsto>
        (\<lambda>i. if i < pg_mask_count 10 then Suc (pg_foreach_bit 10 ! i) else 0))\<rparr>)"
  using pg_packets_pack_spec [of demo_world "Arr 0" Suc "Arr 1" "\<lambda>_. 0" 10]
  by (simp add: demo_world_def)

end
