(* ===== verification/PG_Flow.thy ===== *)
theory PG_Flow
  imports PG_Packets
begin

text \<open>
  The data path between bricks. A handler of a brick calls \<open>pg_brick_burst\<close> on its
  neighbours, which calls their handlers in turn; so the handlers take that function as an
  argument \<open>brst\<close>, and \<open>PG_Registry\<close> closes the recursion. The locale \<open>bursts\<close> states what
  a handler may assume of it: when it returns, no brick has appeared, vanished or changed
  its links, and the private states are in order. Every brick proves the same of its handler
  inside the locale.
\<close>

type_synonym burster = "nat option \<Rightarrow> pg_side \<Rightarrow> nat \<Rightarrow> arr \<Rightarrow> u64 \<Rightarrow> world \<Rightarrow> (int, world) out"

section \<open>Common parts of \<open>brick.c\<close>\<close>

definition count_pkts :: "nat \<Rightarrow> pg_side \<Rightarrow> u64 \<Rightarrow> world \<Rightarrow> world" where
  "count_pkts b from pkts_mask w =
     upd_brick b (upd_side (pg_flip_side from)
       (\<lambda>s. s\<lparr>packet_count := packet_count s + word_of_nat (pg_mask_count pkts_mask)\<rparr>)) w"

definition pg_brick_burst_to_east :: "burster \<Rightarrow> nat option \<Rightarrow> nat \<Rightarrow> arr \<Rightarrow> u64 \<Rightarrow> world \<Rightarrow> (int, world) out" where
  "pg_brick_burst_to_east brst b edge_index pkts pkts_mask w =
     brst b PG_WEST_SIDE edge_index pkts pkts_mask w"

definition pg_brick_burst_to_west :: "burster \<Rightarrow> nat option \<Rightarrow> nat \<Rightarrow> arr \<Rightarrow> u64 \<Rightarrow> world \<Rightarrow> (int, world) out" where
  "pg_brick_burst_to_west brst b edge_index pkts pkts_mask w =
     brst b PG_EAST_SIDE edge_index pkts pkts_mask w"

text \<open>
  One round of the loops that send a burst to the edges of a side: an edge without a link is
  skipped, and a failing neighbour ends the loop with -1. The edges are read through the
  brick in every round, as the code reads them.
\<close>

definition burst_port ::
    "burster \<Rightarrow> nat \<Rightarrow> pg_side \<Rightarrow> pg_side \<Rightarrow> arr \<Rightarrow> u64 \<Rightarrow> nat \<Rightarrow> world \<Rightarrow> (int option, world) out" where
  "burst_port brst b s from pkts pkts_mask i w =
     obind (get_brick b w) (\<lambda>br w.
       if length (edges (sides br s)) \<le> i then Abort ''edge out of range''
       else
         let e = edges (sides br s) ! i in
         case link e of None \<Rightarrow> Ret None w
         | Some peer \<Rightarrow>
             obind (brst (Some peer) from (pair_index e) pkts pkts_mask w) (\<lambda>ret w.
               if ret < 0 then Ret (Some (-1)) w else Ret None w))"

definition loop_result :: "(int option, world) out \<Rightarrow> (int, world) out" where
  "loop_result m = obind m (\<lambda>r w. Ret (case r of None \<Rightarrow> 0 | Some r \<Rightarrow> r) w)"

definition pg_brick_side_forward ::
    "burster \<Rightarrow> nat \<Rightarrow> pg_side \<Rightarrow> pg_side \<Rightarrow> arr \<Rightarrow> u64 \<Rightarrow> world \<Rightarrow> (int, world) out" where
  "pg_brick_side_forward brst b s from pkts pkts_mask w =
     obind (get_brick b w) (\<lambda>br w.
       loop_result (oloop (burst_port brst b s from pkts pkts_mask) [0..<side_nb (sides br s)] w))"

text \<open>Forwarding over the only edge of a side, as the bricks of two ports do it.\<close>

definition burst_edge :: "burster \<Rightarrow> nat \<Rightarrow> pg_side \<Rightarrow> pg_side \<Rightarrow> arr \<Rightarrow> u64 \<Rightarrow> world \<Rightarrow> (int, world) out" where
  "burst_edge brst b s from pkts pkts_mask w =
     obind (get_brick b w) (\<lambda>br w.
       brst (link (edge (sides br s))) from (pair_index (edge (sides br s))) pkts pkts_mask w)"

text \<open>A handler writes the private state of its brick field by field.\<close>

definition upd_priv :: "nat \<Rightarrow> (priv \<Rightarrow> priv) \<Rightarrow> world \<Rightarrow> world" where
  "upd_priv b f w = upd_brick b (\<lambda>br. br\<lparr>priv_state := f (priv_state br)\<rparr>) w"

text \<open>
  The private state of a brick, \<open>pg_brick_get_state\<close>; \<open>prj\<close> selects the structure of the
  brick at hand.
\<close>

definition get_state :: "(priv \<Rightarrow> 'st option) \<Rightarrow> nat \<Rightarrow> world \<Rightarrow> ('st, world) out" where
  "get_state prj b w =
     obind (get_brick b w) (\<lambda>br w.
       case prj (priv_state br) of None \<Rightarrow> Abort ''state of another brick'' | Some st \<Rightarrow> Ret st w)"

definition state_at :: "(priv \<Rightarrow> 'st option) \<Rightarrow> world \<Rightarrow> nat \<Rightarrow> 'st option" where
  "state_at prj w b = Option.bind (bricks w b) (\<lambda>br. prj (priv_state br))"

lemma get_state_at [simp]: "state_at prj w b = Some st \<Longrightarrow> get_state prj b w = Ret st w"
  by (auto simp: state_at_def get_state_def get_brick_def split: bind_splits)

lemma get_state_iff: "get_state prj b w = Ret st w1 \<longleftrightarrow> w1 = w \<and> state_at prj w b = Some st"
  by (auto simp: state_at_def get_state_def get_brick_def split: option.splits bind_splits)

lemma state_at_data: "bricks w' = bricks w \<Longrightarrow> state_at prj w' = state_at prj w"
  by (simp add: state_at_def fun_eq_iff)

lemma state_at_upd_priv:
  assumes "\<And>p. prj (f p) = map_option g (prj p)"
  shows "state_at prj (upd_priv b f w) c = (if c = b then map_option g (state_at prj w b) else state_at prj w c)"
  using assms by (cases "bricks w b") (simp_all add: state_at_def upd_priv_def bricks_upd_brick)

lemma upd_priv_fields [simp]:
  "brick_next (upd_priv b f w) = brick_next w" "arrays (upd_priv b f w) = arrays w"
  "mst (upd_priv b f w) = mst w" "errp (upd_priv b f w) = errp w" "glob (upd_priv b f w) = glob w"
  by (simp_all add: upd_priv_def upd_brick_def)

section \<open>Private states\<close>

text \<open>The kind of a private state is the brick it belongs to.\<close>

fun kind :: "priv \<Rightarrow> nat" where
  "kind P_nop = 0" | "kind P_hub = 1" | "kind (P_diode _) = 2" | "kind (P_fail _) = 3"
| "kind (P_user_dipole _) = 4" | "kind (P_collect _) = 5" | "kind (P_udp_filter _) = 6"
| "kind (P_accumulator _) = 7" | "kind (P_queue _) = 8" | "kind (P_rxtx _) = 9"
| "kind (P_packetsgen _) = 10" | "kind (P_switch _) = 11" | "kind (P_antispoof _) = 12"
| "kind (P_pmtud _) = 13" | "kind (P_firewall _) = 14" | "kind (P_nic _) = 15"
| "kind (P_tap _) = 16" | "kind (P_vhost _) = 17" | "kind (P_vtep _) = 18"
| "kind (P_print _) = 19"

text \<open>The side a monopole is linked on, which its \<open>link_notify\<close> sets.\<close>

fun out_side :: "priv \<Rightarrow> pg_side" where
  "out_side (P_fail s) = s" | "out_side (P_collect st) = col_output st"
| "out_side (P_queue st) = q_output st" | "out_side (P_rxtx st) = rxtx_output st"
| "out_side (P_nic st) = nic_output st" | "out_side (P_tap st) = tap_output st"
| "out_side (P_vhost st) = vh_output st"
| "out_side _ = PG_WEST_SIDE"

text \<open>
  What holds of a private state whenever no handler of the brick is running: the MAC table
  of a switch that is not dead is well-formed, the vectors of an accumulator hold at most 64
  packets, a queue holds no more bursts than its size, and the tables of allowed addresses of
  an antispoof brick are within their arrays.
\<close>

fun priv_ok :: "priv \<Rightarrow> bool" where
  "priv_ok (P_switch st) \<longleftrightarrow> sw_is_table_dead st \<or> mac_table_inv (sw_table st)"
| "priv_ok (P_accumulator st) \<longleftrightarrow> (\<forall>s. acc_len st s \<le> 64)"
| "priv_ok (P_queue st) \<longleftrightarrow> length (q_rx st) \<le> max 1 (q_rx_max_size st)"
| "priv_ok (P_antispoof st) \<longleftrightarrow> as_arps_size st \<le> 100 \<and> as_ndps_size st \<le> 100"
| "priv_ok _ \<longleftrightarrow> True"

definition priv_step :: "priv \<Rightarrow> priv \<Rightarrow> bool" where
  "priv_step p p' \<longleftrightarrow> kind p' = kind p \<and> out_side p' = out_side p \<and> (priv_ok p \<longrightarrow> priv_ok p')"

lemma priv_step_refl [simp]: "priv_step p p"
  by (simp add: priv_step_def)

lemma priv_step_trans: "priv_step p q \<Longrightarrow> priv_step q r \<Longrightarrow> priv_step p r"
  by (simp add: priv_step_def)

section \<open>Steps that keep the topology\<close>

definition brick_step :: "pg_brick \<Rightarrow> pg_brick \<Rightarrow> bool" where
  "brick_step br br' \<longleftrightarrow>
     ops br' = ops br \<and> refcount br' = refcount br \<and> brick_name br' = brick_name br \<and>
     brick_type br' = brick_type br \<and> (\<forall>s. same_side (sides br s) (sides br' s)) \<and>
     priv_step (priv_state br) (priv_state br')"

definition safe_step :: "world \<Rightarrow> world \<Rightarrow> bool" where
  "safe_step w w' \<longleftrightarrow>
     brick_next w' = brick_next w \<and> (\<forall>b. rel_option brick_step (bricks w b) (bricks w' b))"

lemma brick_step_refl [simp]: "brick_step br br"
  by (simp add: brick_step_def same_side_def)

lemma brick_step_trans: "brick_step a b \<Longrightarrow> brick_step b c \<Longrightarrow> brick_step a c"
  using priv_step_trans [of "priv_state a" "priv_state b" "priv_state c"]
  by (simp add: brick_step_def same_side_def)

lemma safe_step_refl [simp]: "safe_step w w"
  by (simp add: safe_step_def option.rel_refl)

lemma safe_step_trans [trans]:
  assumes "safe_step w1 w2" and "safe_step w2 w3" shows "safe_step w1 w3"
proof -
  have "rel_option brick_step (bricks w1 b) (bricks w3 b)" for b
  proof -
    have "rel_option brick_step (bricks w1 b) (bricks w2 b)"
      and "rel_option brick_step (bricks w2 b) (bricks w3 b)"
      using assms by (simp_all add: safe_step_def)
    then show ?thesis
      by (cases "bricks w1 b"; cases "bricks w2 b"; cases "bricks w3 b")
         (auto intro: brick_step_trans)
  qed
  then show ?thesis using assms by (simp add: safe_step_def)
qed

lemma safe_stepD:
  assumes "safe_step w w'" and "bricks w b = Some br"
  obtains br' where "bricks w' b = Some br'" and "brick_step br br'"
  using assms unfolding safe_step_def by (metis option_rel_Some1)

lemma safe_step_data:
  assumes "bricks w' = bricks w" and "brick_next w' = brick_next w"
  shows "safe_step w w'"
  using assms by (simp add: safe_step_def option.rel_refl)

lemma safe_step_fields [simp]:
  "safe_step w (w\<lparr>mst := ms\<rparr>)" "safe_step w (w\<lparr>arrays := ar\<rparr>)"
  "safe_step w (w\<lparr>malloc_cnt := n\<rparr>)" "safe_step w (w\<lparr>errp := e\<rparr>)"
  "safe_step w (w\<lparr>glob := g\<rparr>)" "safe_step w (set_err er w)" "safe_step w (free_array a w)" "safe_step w (upd_mbuf p f w)"
  by (rule safe_step_data; simp add: set_err_def free_array_def upd_mbuf_def)+

lemma safe_step_upd:
  assumes "\<And>br. bricks w b = Some br \<Longrightarrow> brick_step br (f br)"
  shows "safe_step w (upd_brick b f w)"
proof -
  have "rel_option brick_step (bricks w c) (bricks (upd_brick b f w) c)" for c
    using assms by (cases "bricks w c") (auto simp: bricks_upd_brick)
  then show ?thesis by (simp add: safe_step_def)
qed

lemma safe_step_count [simp]: "safe_step w (count_pkts b from m w)"
  unfolding count_pkts_def by (rule safe_step_upd) (auto simp: brick_step_def same_side_def)

lemma safe_step_handlers [simp]:
  "safe_step w (upd_brick b (\<lambda>br. br\<lparr>burst := f br\<rparr>) w)"
  "safe_step w (upd_brick b (\<lambda>br. br\<lparr>poll := g br\<rparr>) w)"
  "safe_step w (upd_brick b (\<lambda>br. br\<lparr>burst := f br, poll := g br\<rparr>) w)"
  by (rule safe_step_upd; auto simp: brick_step_def same_side_def)+

lemma safe_step_priv:
  assumes "\<And>br. bricks w b = Some br \<Longrightarrow> priv_step (priv_state br) (f (priv_state br))"
  shows "safe_step w (upd_priv b f w)"
  unfolding upd_priv_def
  by (rule safe_step_upd) (use assms in \<open>simp add: brick_step_def same_side_def\<close>)

section \<open>Calls that keep the topology whenever they return\<close>

definition safe :: "world \<Rightarrow> ('a, world) out \<Rightarrow> bool" where
  "safe w m \<longleftrightarrow> ores m (\<lambda>_ w'. safe_step w w')"

named_theorems safe_intros \<open>rules for calls that keep the topology\<close>

lemma safe_Ret [simp]: "safe w (Ret x w') \<longleftrightarrow> safe_step w w'"
  by (simp add: safe_def)

lemma safe_stop [simp, safe_intros]: "safe w (Abort r)" "safe w Diverge"
  by (simp_all add: safe_def)

lemma safe_step_safe: "safe_step w w1 \<Longrightarrow> safe w1 m \<Longrightarrow> safe w m"
  by (cases m) (auto simp: safe_def intro: safe_step_trans)

lemma safe_RetD: "safe w m \<Longrightarrow> m = Ret x w' \<Longrightarrow> safe_step w w'"
  by (simp add: safe_def)

lemma safe_obind':
  assumes "safe w m" and "\<And>x w1. m = Ret x w1 \<Longrightarrow> safe_step w w1 \<Longrightarrow> safe w1 (f x w1)"
  shows "safe w (obind m f)"
  using assms by (cases m) (auto intro: safe_step_safe)

lemma safe_obind [safe_intros]:
  assumes "safe w m" and "\<And>x w1. safe w1 (f x w1)" shows "safe w (obind m f)"
  using assms by (blast intro: safe_obind')

lemma safe_if [safe_intros]: "(c \<Longrightarrow> safe w m) \<Longrightarrow> (\<not> c \<Longrightarrow> safe w m') \<Longrightarrow> safe w (if c then m else m')"
  by simp

lemma safe_Let [safe_intros]: "(\<And>x. safe w (f x)) \<Longrightarrow> safe w (let x = y in f x)"
  by simp

lemma safe_case_option [safe_intros]:
  "safe w m \<Longrightarrow> (\<And>x. safe w (f x)) \<Longrightarrow> safe w (case z of None \<Rightarrow> m | Some x \<Rightarrow> f x)"
  by (simp split: option.splits)

lemma safe_case_prod [safe_intros]: "(\<And>x y. safe w (f x y)) \<Longrightarrow> safe w (case z of (x, y) \<Rightarrow> f x y)"
  by (simp split: prod.splits)

lemma safe_case_prod_app [safe_intros]:
  "(\<And>x y. safe w (f x y v)) \<Longrightarrow> safe w ((case z of (x, y) \<Rightarrow> f x y) v)"
  by (simp split: prod.splits)

lemma safe_case_side [safe_intros]:
  "safe w m \<Longrightarrow> safe w m' \<Longrightarrow> safe w (case s of PG_WEST_SIDE \<Rightarrow> m | PG_EAST_SIDE \<Rightarrow> m')"
  by (simp split: pg_side.splits)

lemma safe_get [simp, safe_intros]:
  "safe w (get_brick b w)" "safe w (get_pkts a w)" "safe w (get_mbuf p w)"
  by (simp_all add: get_brick_def get_pkts_def get_mbuf_def split: option.splits)

lemma safe_set_pkt [simp, safe_intros]: "safe w (set_pkt a i p w)"
  by (simp add: set_pkt_def split: option.splits)

lemma safe_new_array [simp, safe_intros]: "safe w (new_array w)"
  by (simp add: new_array_def safe_step_data)

lemma safe_mtod [simp, safe_intros]: "safe w (mtod p w)"
  unfolding mtod_def by (intro safe_intros) simp

lemma safe_write_bytes [simp, safe_intros]: "safe w (write_bytes p n bs w)"
  unfolding write_bytes_def by (intro safe_intros) simp

lemma safe_ofold [safe_intros]:
  assumes "\<And>x w. safe w (f x w)" shows "safe w (ofold f xs w)"
proof (induction xs arbitrary: w)
  case (Cons x xs)
  show ?case by (simp add: safe_obind assms Cons)
qed simp

lemma safe_oacc [safe_intros]:
  assumes "\<And>x acc w. safe w (f x acc w)" shows "safe w (oacc f xs acc w)"
proof (induction xs arbitrary: acc w)
  case (Cons x xs)
  show ?case by (simp add: safe_obind assms Cons)
qed simp

lemma safe_oloop [safe_intros]:
  assumes "\<And>x w. safe w (f x w)" shows "safe w (oloop f xs w)"
proof (induction xs arbitrary: w)
  case (Cons x xs)
  then show ?case by (auto intro!: safe_obind assms split: option.splits)
qed simp

lemma safe_get_state [simp, safe_intros]: "safe w (get_state prj b w)"
  unfolding get_state_def by (intro safe_intros) simp

lemma safe_loop_result [safe_intros]: "safe w m \<Longrightarrow> safe w (loop_result m)"
  unfolding loop_result_def by (intro safe_intros) simp_all

lemma safe_packets [simp, safe_intros]:
  "safe w (pg_packets_free x a m w)" "safe w (pg_packets_incref x a m w)"
  "safe w (pg_packets_forget a m w)" "safe w (pg_packets_prefetch a m w)"
  "safe w (pg_packets_pack a a' m w)"
  unfolding pg_packets_free_def pg_packets_incref_def pg_packets_forget_def
    pg_packets_prefetch_def pg_packets_pack_def
  by (intro safe_intros; simp)+

section \<open>What a handler relies on\<close>

text \<open>The calls that the linked ports among \<open>is\<close> of a side ask for, and making them in order.\<close>

definition port_calls :: "pg_brick \<Rightarrow> pg_side \<Rightarrow> pg_side \<Rightarrow> nat list \<Rightarrow> (nat \<times> pg_side \<times> nat) list" where
  "port_calls br s from is =
     concat (map (\<lambda>i. case link (edges (sides br s) ! i) of None \<Rightarrow> []
       | Some peer \<Rightarrow> [(peer, from, pair_index (edges (sides br s) ! i))]) is)"

definition burst_all ::
    "burster \<Rightarrow> arr \<Rightarrow> u64 \<Rightarrow> (nat \<times> pg_side \<times> nat) list \<Rightarrow> world \<Rightarrow> (int option, world) out" where
  "burst_all brst a m = oloop (\<lambda>(peer, s, j) w.
     obind (brst (Some peer) s j a m w) (\<lambda>ret w. if ret < 0 then Ret (Some (-1)) w else Ret None w))"

lemma burst_all_Cons:
  "burst_all brst a m ((peer, s, j) # calls) w =
     obind (brst (Some peer) s j a m w) (\<lambda>ret w.
       if ret < 0 then Ret (Some (-1)) w else burst_all brst a m calls w)"
  by (cases "brst (Some peer) s j a m w") (simp_all add: burst_all_def)

locale bursts =
  fixes brst :: burster
  assumes burst_safe: "safe w (brst b from i a m w)"
begin

lemma burst_edge_safe: "safe w (burst_edge brst b s from a m w)"
  unfolding burst_edge_def by (intro safe_intros burst_safe)

lemma burst_port_safe: "safe w (burst_port brst b s from a m i w)"
  unfolding burst_port_def by (intro safe_intros burst_safe; simp)

lemma side_forward_safe: "safe w (pg_brick_side_forward brst b s from a m w)"
  unfolding pg_brick_side_forward_def by (intro safe_intros burst_port_safe)

text \<open>
  Since the calls keep the links, the loop over the ports of a side makes the calls that its
  links before the loop ask for, in the order of the ports.
\<close>

lemma burst_ports:
  assumes "bricks w b = Some br" and "\<forall>i \<in> set is. i < length (edges (sides br s))"
  shows "oloop (burst_port brst b s from a m) is w = burst_all brst a m (port_calls br s from is) w"
  using assms
proof (induction "is" arbitrary: w br)
  case (Cons i js)
  define e where "e = edges (sides br s) ! i"
  have step: "burst_port brst b s from a m i w =
      (case link e of None \<Rightarrow> Ret None w | Some peer \<Rightarrow>
        obind (brst (Some peer) from (pair_index e) a m w) (\<lambda>ret w.
          if ret < 0 then Ret (Some (-1)) w else Ret None w))"
    unfolding e_def using Cons.prems by (simp add: burst_port_def Let_def)
  have calls: "port_calls br s from (i # js) =
      (case link e of None \<Rightarrow> [] | Some peer \<Rightarrow> [(peer, from, pair_index e)]) @ port_calls br s from js"
    unfolding e_def by (simp add: port_calls_def)
  show ?case
  proof (cases "link e")
    case None
    then show ?thesis
      using Cons.prems Cons.IH [OF Cons.prems(1)] by (simp add: step calls)
  next
    case (Some peer)
    have "oloop (burst_port brst b s from a m) js w1 = burst_all brst a m (port_calls br s from js) w1"
      if "safe_step w w1" for w1
    proof -
      obtain br1 where br1: "bricks w1 b = Some br1" "brick_step br br1"
        using safe_stepD \<open>safe_step w w1\<close> Cons.prems(1) by blast
      then have same: "edges (sides br1 s) = edges (sides br s)"
        by (simp add: brick_step_def same_side_def)
      have "port_calls br1 s from js = port_calls br s from js"
        and "\<forall>i \<in> set js. i < length (edges (sides br1 s))"
        using Cons.prems(2) unfolding port_calls_def same by auto
      then show ?thesis
        using Cons.IH [OF br1(1)] by simp
    qed
    then show ?thesis
      using Some burst_safe [of w "Some peer" "from" "pair_index e" a m]
      by (cases "brst (Some peer) from (pair_index e) a m w")
         (auto simp: step calls burst_all_Cons)
  qed
qed (simp add: burst_all_def port_calls_def)

end

section \<open>Example bricks\<close>

text \<open>A world with a brick of a given private state and no links, for the examples.\<close>

definition place :: "nat \<Rightarrow> priv \<Rightarrow> world \<Rightarrow> world" where
  "place b p w = w\<lparr>bricks := (bricks w)(b \<mapsto> \<lparr>burst = None, poll = None, ops = 0, refcount = 1,
     brick_name = ''demo'', brick_type = PG_DIPOLE, sides = (\<lambda>_. zero_side), priv_state = p\<rparr>)\<rparr>"

lemma place_simps [simp]:
  "state_at prj (place b p w) c = (if c = b then prj p else state_at prj w c)"
  "arrays (place b p w) = arrays w" "mst (place b p w) = mst w" "errp (place b p w) = errp w"
  by (simp_all add: place_def state_at_def)

lemma state_at_demo [simp]: "state_at prj demo_world b = None"
  by (simp add: state_at_def demo_world_def)

lemma demo_array [simp]: "arrays demo_world (Arr 0) = Some Suc"
  by (simp add: demo_world_def)

end
