(* ===== verification/PG_Relay.thy ===== *)
theory PG_Relay
  imports PG_Flow
begin

text \<open>
  The bricks that pass a burst on to the edge of the opposite side, or do not: \<open>src/nop.c\<close>,
  \<open>src/diode.c\<close>, \<open>src/user-dipole.c\<close> and \<open>src/fail.c\<close>. Each has its handler, its \<open>init\<close>, its
  constructor and its operations. The user's callback of \<open>user_dipole\<close> is a function of
  \<open>ext\<close>: it may change the packets, the array and the mask.
\<close>

text \<open>Only the sign of \<open>sizeof(struct pg_<brick>_state)\<close> is used, by \<open>pg_brick_new\<close>.\<close>

definition sizeof_state :: int where
  "sizeof_state = 1"

definition base_ops :: brick_ops where
  "base_ops = \<lparr>op_name = [], op_state_size = sizeof_state, op_zero = P_nop,
     op_init = (\<lambda>_ _ w. Ret 0 w), op_destroy = None, op_unlink = False, op_unlink_notify = None,
     op_reset = None, op_link_notify = None, op_get_side = None, op_burst_get = None,
     op_rx_bytes = None, op_tx_bytes = None\<rparr>"

definition set_burst :: "nat \<Rightarrow> burst_fn \<Rightarrow> world \<Rightarrow> world" where
  "set_burst b f w = upd_brick b (\<lambda>br. br\<lparr>burst := Some f\<rparr>) w"

definition set_poll :: "nat \<Rightarrow> poll_fn \<Rightarrow> world \<Rightarrow> world" where
  "set_poll b f w = upd_brick b (\<lambda>br. br\<lparr>poll := Some f\<rparr>) w"

lemma safe_step_set [simp]: "safe_step w (set_burst b f w)" "safe_step w (set_poll b g w)"
  by (simp_all add: set_burst_def set_poll_def)

lemma safe_step_handled:
  "safe_step w w1 \<Longrightarrow> safe_step w (set_burst b f w1)" "safe_step w w1 \<Longrightarrow> safe_step w (set_poll b g w1)"
  by (erule safe_step_trans, simp)+

section \<open>nop\<close>

definition nop_burst :: "burster \<Rightarrow> nat \<Rightarrow> pg_side \<Rightarrow> nat \<Rightarrow> arr \<Rightarrow> u64 \<Rightarrow> world \<Rightarrow> (int, world) out" where
  "nop_burst brst b from edge_index pkts pkts_mask w =
     burst_edge brst b (pg_flip_side from) from pkts pkts_mask w"

text \<open>The assertion on \<open>should_be_zero\<close> holds of every new brick: its memory is zeroed.\<close>

definition nop_init :: "nat \<Rightarrow> pg_brick_config \<Rightarrow> world \<Rightarrow> (int, world) out" where
  "nop_init b config w = Ret 0 (set_burst b nop_burst_fn w)"

definition nop_ops :: brick_ops where
  "nop_ops = base_ops\<lparr>op_name := ''nop'', op_zero := P_nop, op_init := nop_init, op_unlink := True\<rparr>"

definition pg_nop_new :: "brick_ops list \<Rightarrow> string \<Rightarrow> world \<Rightarrow> (nat option, world) out" where
  "pg_nop_new reg nm w = pg_brick_new reg (Some ''nop'') (Some (pg_brick_config_new nm 1 1 PG_DIPOLE)) w"

section \<open>diode\<close>

fun st_diode :: "priv \<Rightarrow> pg_side option" where
  "st_diode (P_diode out) = Some out"
| "st_diode _ = None"

definition diode_config_new :: "string \<Rightarrow> pg_side \<Rightarrow> pg_brick_config" where
  "diode_config_new nm output = pg_brick_config_init (Some (C_diode output)) nm 1 1 PG_DIPOLE"

definition diode_burst :: "burster \<Rightarrow> nat \<Rightarrow> pg_side \<Rightarrow> nat \<Rightarrow> arr \<Rightarrow> u64 \<Rightarrow> world \<Rightarrow> (int, world) out" where
  "diode_burst brst b from edge_index pkts pkts_mask w =
     obind (get_state st_diode b w) (\<lambda>output w.
       if output = from then Ret 0 w
       else burst_edge brst b (pg_flip_side from) from pkts pkts_mask w)"

definition diode_init :: "nat \<Rightarrow> pg_brick_config \<Rightarrow> world \<Rightarrow> (int, world) out" where
  "diode_init b config w =
     (case brick_config config of
        Some (C_diode output) \<Rightarrow>
          let w = upd_priv b (\<lambda>p. case p of P_diode _ \<Rightarrow> P_diode output | _ \<Rightarrow> p) (set_burst b diode_burst_fn w) in
          if pg_error_is_set w then Ret (-1) w else Ret 0 w
      | _ \<Rightarrow> Abort ''config of another brick'')"

definition diode_ops :: brick_ops where
  "diode_ops = base_ops\<lparr>op_name := ''diode'', op_zero := P_diode PG_WEST_SIDE, op_init := diode_init,
     op_unlink := True\<rparr>"

definition pg_diode_new :: "brick_ops list \<Rightarrow> string \<Rightarrow> pg_side \<Rightarrow> world \<Rightarrow> (nat option, world) out" where
  "pg_diode_new reg nm output w = pg_brick_new reg (Some ''diode'') (Some (diode_config_new nm output)) w"

section \<open>fail\<close>

definition fail_burst :: "nat \<Rightarrow> pg_side \<Rightarrow> nat \<Rightarrow> arr \<Rightarrow> u64 \<Rightarrow> world \<Rightarrow> (int, world) out" where
  "fail_burst b from edge_index pkts pkts_mask w =
     obind (get_brick b w) (\<lambda>br w.
       Ret (-1) (set_err (pg_error_new ''Fail brick : %s'' [brick_name br]) w))"

definition fail_init :: "nat \<Rightarrow> pg_brick_config \<Rightarrow> world \<Rightarrow> (int, world) out" where
  "fail_init b config w = Ret 0 (set_burst b fail_burst_fn w)"

fun fail_link :: "priv \<Rightarrow> pg_side \<Rightarrow> nat \<Rightarrow> priv" where
  "fail_link (P_fail _) side edge_index = P_fail (pg_flip_side side)"
| "fail_link p side edge_index = p"

fun fail_get_side :: "priv \<Rightarrow> pg_side" where
  "fail_get_side (P_fail output) = pg_flip_side output"
| "fail_get_side p = PG_WEST_SIDE"

definition fail_ops :: brick_ops where
  "fail_ops = base_ops\<lparr>op_name := ''fail'', op_zero := P_fail PG_WEST_SIDE, op_init := fail_init,
     op_link_notify := Some fail_link, op_get_side := Some fail_get_side, op_unlink := True\<rparr>"

definition pg_fail_new :: "brick_ops list \<Rightarrow> string \<Rightarrow> world \<Rightarrow> (nat option, world) out" where
  "pg_fail_new reg nm w = pg_brick_new reg (Some ''fail'') (Some (pg_brick_config_new nm 1 1 PG_MONOPOLE)) w"

section \<open>user dipole\<close>

fun st_user_dipole :: "priv \<Rightarrow> pg_user_dipole_state option" where
  "st_user_dipole (P_user_dipole st) = Some st"
| "st_user_dipole _ = None"

definition user_dipole_config_new :: "string \<Rightarrow> nat \<Rightarrow> nat \<Rightarrow> pg_brick_config" where
  "user_dipole_config_new nm callback private_data =
     pg_brick_config_init (Some (C_user_dipole callback private_data)) nm 1 1 PG_DIPOLE"

definition user_dipole_burst ::
    "ext \<Rightarrow> burster \<Rightarrow> nat \<Rightarrow> pg_side \<Rightarrow> nat \<Rightarrow> arr \<Rightarrow> u64 \<Rightarrow> world \<Rightarrow> (int, world) out" where
  "user_dipole_burst x brst b from edge_index pkts pkts_mask w =
     obind (get_state st_user_dipole b w) (\<lambda>st w.
     obind (get_pkts pkts w) (\<lambda>f w.
       let (f', pkts_mask, ms) =
             x_user_dipole x (ud_callback st) b (pg_flip_side from) f pkts_mask (ud_private_data st) (mst w) in
       burst_edge brst b (pg_flip_side from) from pkts pkts_mask
         (w\<lparr>arrays := (arrays w)(pkts \<mapsto> f'), mst := ms\<rparr>)))"

definition user_dipole_init :: "nat \<Rightarrow> pg_brick_config \<Rightarrow> world \<Rightarrow> (int, world) out" where
  "user_dipole_init b config w =
     (case brick_config config of
        Some (C_user_dipole callback private_data) \<Rightarrow>
          Ret 0 (set_burst b user_dipole_burst_fn (upd_priv b (\<lambda>p. case p of
            P_user_dipole st \<Rightarrow>
              P_user_dipole (st\<lparr>ud_callback := callback, ud_private_data := private_data\<rparr>)
            | _ \<Rightarrow> p) w))
      | _ \<Rightarrow> Abort ''config of another brick'')"

definition user_dipole_ops :: brick_ops where
  "user_dipole_ops = base_ops\<lparr>op_name := ''user_dipole'',
     op_zero := P_user_dipole \<lparr>ud_private_data = 0, ud_callback = 0\<rparr>, op_init := user_dipole_init,
     op_unlink := True\<rparr>"

definition pg_user_dipole_new :: "brick_ops list \<Rightarrow> string \<Rightarrow> nat \<Rightarrow> nat \<Rightarrow> world \<Rightarrow> (nat option, world) out" where
  "pg_user_dipole_new reg nm callback private_data w =
     pg_brick_new reg (Some ''user_dipole'') (Some (user_dipole_config_new nm callback private_data)) w"

definition pg_user_dipole_private_data :: "nat \<Rightarrow> world \<Rightarrow> (nat, world) out" where
  "pg_user_dipole_private_data b w =
     obind (get_state st_user_dipole b w) (\<lambda>st w. Ret (ud_private_data st) w)"

section \<open>Lemmas\<close>

lemma priv_step_diode: "priv_step p (case p of P_diode _ \<Rightarrow> P_diode out | _ \<Rightarrow> p)"
  by (cases p) (simp_all add: priv_step_def)

lemma priv_step_user_dipole: "priv_step p (case p of P_user_dipole st \<Rightarrow> P_user_dipole (f st) | _ \<Rightarrow> p)"
  by (cases p) (simp_all add: priv_step_def)

lemma relay_init_safe:
  "safe w (nop_init b c w)" "safe w (diode_init b c w)" "safe w (fail_init b c w)"
  "safe w (user_dipole_init b c w)"
proof -
  show "safe w (diode_init b c w)"
    unfolding diode_init_def
    by (auto simp: Let_def split: option.splits bconf.splits
        intro!: safe_step_trans [OF safe_step_set(1) safe_step_priv] priv_step_diode)
  show "safe w (user_dipole_init b c w)"
    unfolding user_dipole_init_def
    by (auto split: option.splits bconf.splits
        intro!: safe_step_trans [OF safe_step_priv safe_step_set(1)] priv_step_user_dipole)
qed (simp_all add: nop_init_def fail_init_def)

lemma fail_burst_safe: "safe w (fail_burst b from i a m w)"
  unfolding fail_burst_def by (intro safe_intros) simp

context bursts
begin

lemma nop_burst_safe: "safe w (nop_burst brst b from i a m w)"
  by (simp add: nop_burst_def burst_edge_safe)

lemma diode_burst_safe: "safe w (diode_burst brst b from i a m w)"
  unfolding diode_burst_def by (intro safe_intros burst_edge_safe) simp

lemma user_dipole_burst_safe: "safe w (user_dipole_burst x brst b from i a m w)"
proof -
  have "safe w1 (burst_edge brst b s from a m' (w1\<lparr>arrays := ar, mst := ms\<rparr>))" for w1 s m' ar ms
    by (rule safe_step_safe [OF safe_step_data burst_edge_safe]) simp_all
  then show ?thesis
    unfolding user_dipole_burst_def by (intro safe_intros)
qed

end

end
