(* ===== verification/PG_Hub.thy ===== *)
theory PG_Hub
  imports PG_Relay
begin

text \<open>
  The hub, \<open>src/hub.c\<close>: a burst goes out of every linked port but the one it came in by, or,
  in the mode without backward traffic, of every linked port of the opposite side.
\<close>

definition hub_burst_one_side ::
    "burster \<Rightarrow> nat \<Rightarrow> pg_side \<Rightarrow> nat \<Rightarrow> arr \<Rightarrow> u64 \<Rightarrow> world \<Rightarrow> (int, world) out" where
  "hub_burst_one_side brst b from edge_index pkts pkts_mask w =
     (let (i, flip_i) = (if from = PG_WEST_SIDE then (PG_WEST_SIDE, pg_flip_side PG_WEST_SIDE)
                         else (pg_flip_side PG_WEST_SIDE, PG_WEST_SIDE));
          flip_i = pg_flip_side flip_i;
          i = pg_flip_side i in
      obind (get_brick b w) (\<lambda>br w.
        loop_result (oloop (burst_port brst b i flip_i pkts pkts_mask) [0..<side_max (sides br i)] w)))"

definition hub_burst ::
    "burster \<Rightarrow> nat \<Rightarrow> pg_side \<Rightarrow> nat \<Rightarrow> arr \<Rightarrow> u64 \<Rightarrow> world \<Rightarrow> (int, world) out" where
  "hub_burst brst b from edge_index pkts pkts_mask w =
     (let (i, flip_i) = (if from = PG_WEST_SIDE then (PG_WEST_SIDE, pg_flip_side PG_WEST_SIDE)
                         else (pg_flip_side PG_WEST_SIDE, PG_WEST_SIDE)) in
      obind (get_brick b w) (\<lambda>br w.
      obind (oloop (burst_port brst b i flip_i pkts pkts_mask)
               (filter (\<lambda>j. j \<noteq> edge_index) [0..<side_max (sides br i)]) w) (\<lambda>r w.
        case r of Some ret \<Rightarrow> Ret ret w
        | None \<Rightarrow>
          let flip_i = pg_flip_side flip_i; i = pg_flip_side i in
          obind (get_brick b w) (\<lambda>br w.
            loop_result (oloop (burst_port brst b i flip_i pkts pkts_mask)
              [0..<side_max (sides br i)] w)))))"

definition pg_hub_set_no_backward :: "nat \<Rightarrow> int \<Rightarrow> world \<Rightarrow> (unit, world) out" where
  "pg_hub_set_no_backward b val w =
     obind (get_brick b w) (\<lambda>_ w.
       Ret () (set_burst b (if val \<noteq> 0 then hub_burst_one_side_fn else hub_burst_fn) w))"

definition hub_init :: "nat \<Rightarrow> pg_brick_config \<Rightarrow> world \<Rightarrow> (int, world) out" where
  "hub_init b config w = Ret 0 (set_burst b hub_burst_fn w)"

definition hub_ops :: brick_ops where
  "hub_ops = base_ops\<lparr>op_name := ''hub'', op_zero := P_hub, op_init := hub_init, op_unlink := True\<rparr>"

definition pg_hub_new :: "brick_ops list \<Rightarrow> string \<Rightarrow> nat \<Rightarrow> nat \<Rightarrow> world \<Rightarrow> (nat option, world) out" where
  "pg_hub_new reg nm wmax emax w =
     pg_brick_new reg (Some ''hub'') (Some (pg_brick_config_new nm wmax emax PG_MULTIPOLE)) w"

section \<open>The ports a burst goes to\<close>

definition hub_targets :: "pg_brick \<Rightarrow> pg_side \<Rightarrow> nat \<Rightarrow> (nat \<times> pg_side \<times> nat) list" where
  "hub_targets br from i =
     port_calls br from (pg_flip_side from) (filter (\<lambda>j. j \<noteq> i) [0..<side_max (sides br from)]) @
     port_calls br (pg_flip_side from) from [0..<side_max (sides br (pg_flip_side from))]"

lemma hub_init_safe: "safe w (hub_init b c w)"
  by (simp add: hub_init_def)

lemma hub_sides:
  "(if from = PG_WEST_SIDE then (PG_WEST_SIDE, pg_flip_side PG_WEST_SIDE)
    else (pg_flip_side PG_WEST_SIDE, PG_WEST_SIDE)) = (from, pg_flip_side from)"
  by (cases "from") simp_all

lemma burst_all_append:
  "burst_all brst a m (xs @ ys) w =
     obind (burst_all brst a m xs w) (\<lambda>r w. case r of None \<Rightarrow> burst_all brst a m ys w | Some r \<Rightarrow> Ret (Some r) w)"
proof (induction xs arbitrary: w)
  case Nil
  show ?case by (simp add: burst_all_def)
next
  case (Cons c xs)
  obtain p s j where c: "c = (p, s, j)" by (cases c)
  show ?case
    by (cases "brst (Some p) s j a m w") (simp_all add: c burst_all_Cons Cons)
qed

context bursts
begin

lemma hub_burst_one_side_safe: "safe w (hub_burst_one_side brst b from i a m w)"
  unfolding hub_burst_one_side_def by (intro safe_intros burst_port_safe)

lemma hub_burst_safe: "safe w (hub_burst brst b from i a m w)"
  unfolding hub_burst_def by (intro safe_intros burst_port_safe; simp)

lemma hub_burst_one_side_targets:
  assumes "bricks w b = Some br" and "\<And>s. length (edges (sides br s)) = side_max (sides br s)"
  shows "hub_burst_one_side brst b from i a m w =
    loop_result (burst_all brst a m
      (port_calls br (pg_flip_side from) from [0..<side_max (sides br (pg_flip_side from))]) w)"
  unfolding hub_burst_one_side_def hub_sides using assms by (simp add: burst_ports Let_def)

lemma hub_burst_targets:
  assumes br: "bricks w b = Some br" and len: "\<And>s. length (edges (sides br s)) = side_max (sides br s)"
  shows "hub_burst brst b from i a m w = loop_result (burst_all brst a m (hub_targets br from i) w)"
proof -
  define first where "first = port_calls br from (pg_flip_side from) (filter (\<lambda>j. j \<noteq> i) [0..<side_max (sides br from)])"
  have one: "oloop (burst_port brst b from (pg_flip_side from) a m)
      (filter (\<lambda>j. j \<noteq> i) [0..<side_max (sides br from)]) w = burst_all brst a m first w"
    unfolding first_def by (rule burst_ports [OF br]) (simp add: len)
  have "safe w (burst_all brst a m first w)"
    unfolding one [symmetric] by (intro safe_intros burst_port_safe)
  then have keep: "\<exists>br1. bricks w1 b = Some br1 \<and> brick_step br br1"
    if "burst_all brst a m first w = Ret r w1" for r w1
    using safe_stepD [OF safe_RetD [OF _ that] br] by blast
  have two: "obind (get_brick b w1) (\<lambda>br w. loop_result (oloop
        (burst_port brst b (pg_flip_side from) from a m) [0..<side_max (sides br (pg_flip_side from))] w)) =
      loop_result (burst_all brst a m
        (port_calls br (pg_flip_side from) from [0..<side_max (sides br (pg_flip_side from))]) w1)"
    if ret: "burst_all brst a m first w = Ret r w1" for r w1
  proof -
    obtain br1 where br1: "bricks w1 b = Some br1" and step: "brick_step br br1"
      using keep [OF ret] by blast
    have same: "edges (sides br1 s) = edges (sides br s)" "side_max (sides br1 s) = side_max (sides br s)" for s
      using step by (simp_all add: brick_step_def same_side_def)
    have "port_calls br1 s t js = port_calls br s t js" for s t js
      unfolding port_calls_def same ..
    then show ?thesis using br1 by (simp add: burst_ports same len)
  qed
  show ?thesis
    unfolding hub_burst_def hub_sides
    using br two
    by (cases "burst_all brst a m first w")
       (auto simp: one hub_targets_def first_def [symmetric] burst_all_append loop_result_def Let_def split: option.splits)
qed

end

end
