(* ===== verification/PG_Collect.thy ===== *)
theory PG_Collect
  imports PG_Relay
begin

text \<open>
  The collect brick, \<open>src/collect.c\<close>: it keeps clones of the last burst of each side in the
  two arrays embedded in its state, for the tests to read.
\<close>

fun st_collect :: "priv \<Rightarrow> pg_collect_state option" where
  "st_collect (P_collect st) = Some st"
| "st_collect _ = None"

fun on_collect :: "(pg_collect_state \<Rightarrow> pg_collect_state) \<Rightarrow> priv \<Rightarrow> priv" where
  "on_collect f (P_collect st) = P_collect (f st)"
| "on_collect f p = p"

text \<open>The array \<open>state->pkts[side]\<close>.\<close>

fun collect_arr :: "nat \<Rightarrow> pg_side \<Rightarrow> arr" where
  "collect_arr b PG_WEST_SIDE = Emb b 0"
| "collect_arr b PG_EAST_SIDE = Emb b 1"

definition PG_MAX_PKTS_BURST :: nat where
  "PG_MAX_PKTS_BURST = 64"

definition clone_into :: "ext \<Rightarrow> arr \<Rightarrow> arr \<Rightarrow> nat \<Rightarrow> world \<Rightarrow> (unit, world) out" where
  "clone_into x collector pkts it w =
     obind (get_pkts pkts w) (\<lambda>f w.
     obind (let (c, ms) = x_clone x (f it) (mst w) in Ret c (w\<lparr>mst := ms\<rparr>)) (\<lambda>c w.
       case c of None \<Rightarrow> Abort ''null packet''
       | Some p \<Rightarrow>
         obind (set_pkt collector it p w) (\<lambda>_ w.
         obind (get_mbuf (f it) w) (\<lambda>m w.
         Ret () (upd_mbuf p (\<lambda>c. c\<lparr>udata64 := udata64 m\<rparr>) w)))))"

definition collect_burst ::
    "ext \<Rightarrow> nat \<Rightarrow> pg_side \<Rightarrow> nat \<Rightarrow> arr \<Rightarrow> u64 \<Rightarrow> world \<Rightarrow> (int, world) out" where
  "collect_burst x b from edge_index pkts pkts_mask w =
     (if PG_MAX_PKTS_BURST < pg_last_bit_pos pkts_mask then
        Ret (-1) (set_err (pg_error_new ''Burst too big'' []) w)
      else
        obind (get_state st_collect b w) (\<lambda>st w.
        obind (if col_pkts_mask st from \<noteq> 0
               then pg_packets_free x (collect_arr b from) (col_pkts_mask st from) w
               else Ret () w) (\<lambda>_ w.
        obind (Ret () (upd_priv b (on_collect
                 (\<lambda>st. st\<lparr>col_pkts_mask := (col_pkts_mask st)(from := pkts_mask)\<rparr>)) w)) (\<lambda>_ w.
        obind (ofold (clone_into x (collect_arr b from) pkts) (pg_foreach_bit pkts_mask) w) (\<lambda>_ w.
        Ret 0 w)))))"

definition collect_burst_get :: "nat \<Rightarrow> priv \<Rightarrow> pg_side \<Rightarrow> arr option \<times> u64" where
  "collect_burst_get b p side =
     (case st_collect p of None \<Rightarrow> (None, 0)
      | Some st \<Rightarrow>
          if col_pkts_mask st side = 0 then (None, 0)
          else (Some (collect_arr b side), col_pkts_mask st side))"

definition collect_init :: "nat \<Rightarrow> pg_brick_config \<Rightarrow> world \<Rightarrow> (int, world) out" where
  "collect_init b config w = Ret 0 (set_burst b collect_burst_fn w)"

definition collect_link :: "priv \<Rightarrow> pg_side \<Rightarrow> nat \<Rightarrow> priv" where
  "collect_link p side edge_index = on_collect (\<lambda>st. st\<lparr>col_output := pg_flip_side side\<rparr>) p"

fun collect_get_side :: "priv \<Rightarrow> pg_side" where
  "collect_get_side (P_collect st) = pg_flip_side (col_output st)"
| "collect_get_side p = PG_WEST_SIDE"

definition collect_destroy :: "ext \<Rightarrow> nat \<Rightarrow> world \<Rightarrow> (unit, world) out" where
  "collect_destroy x b w =
     obind (get_state st_collect b w) (\<lambda>st w.
       ofold (\<lambda>i w. if col_pkts_mask st i = 0 then Ret () w
                    else pg_packets_free x (collect_arr b i) (col_pkts_mask st i) w) pg_sides w)"

definition collect_reset :: "ext \<Rightarrow> nat \<Rightarrow> world \<Rightarrow> (int, world) out" where
  "collect_reset x b w =
     obind (ofold (\<lambda>i w.
         obind (get_state st_collect b w) (\<lambda>st w.
           if col_pkts_mask st i = 0 then Ret () w
           else
             obind (pg_packets_free x (collect_arr b i) (col_pkts_mask st i) w) (\<lambda>_ w.
             Ret () (upd_priv b (on_collect (\<lambda>st. st\<lparr>col_pkts_mask := (col_pkts_mask st)(i := 0)\<rparr>)) w))))
       pg_sides w)
     (\<lambda>_ w. Ret 0 w)"

definition collect_ops :: "ext \<Rightarrow> brick_ops" where
  "collect_ops x = base_ops\<lparr>op_name := ''collect'',
     op_zero := P_collect \<lparr>col_pkts_mask = (\<lambda>_. 0), col_output = PG_WEST_SIDE\<rparr>,
     op_init := collect_init, op_link_notify := Some collect_link, op_get_side := Some collect_get_side,
     op_unlink := True, op_reset := Some (collect_reset x), op_destroy := Some (collect_destroy x),
     op_burst_get := Some collect_burst_get\<rparr>"

definition pg_collect_new :: "brick_ops list \<Rightarrow> string \<Rightarrow> world \<Rightarrow> (nat option, world) out" where
  "pg_collect_new reg nm w =
     pg_brick_new reg (Some ''collect'') (Some (pg_brick_config_new nm 1 1 PG_MONOPOLE)) w"

section \<open>Lemmas\<close>

lemma priv_step_collect:
  assumes "\<And>st. col_output (f st) = col_output st"
  shows "priv_step p (on_collect f p)"
  by (cases p) (simp_all add: priv_step_def assms)

lemma safe_step_collect [simp]:
  "safe_step w (upd_priv b (on_collect (\<lambda>st. st\<lparr>col_pkts_mask := g st\<rparr>)) w)"
  by (rule safe_step_priv) (simp add: priv_step_collect)

lemma collect_init_safe: "safe w (collect_init b c w)"
  by (simp add: collect_init_def)

lemma clone_into_safe: "safe w (clone_into x c a it w)"
  unfolding clone_into_def by (intro safe_intros; simp)

lemma collect_burst_safe: "safe w (collect_burst x b from i a m w)"
  unfolding collect_burst_def by (intro safe_intros clone_into_safe; simp)

lemma collect_destroy_safe: "safe w (collect_destroy x b w)"
  unfolding collect_destroy_def by (intro safe_intros; simp)

lemma collect_reset_safe: "safe w (collect_reset x b w)"
  unfolding collect_reset_def by (intro safe_intros; simp)

end
