(* ===== verification/PG_Stack.thy ===== *)
theory PG_Stack
  imports PG_Prelude
begin

text \<open>
  The growing stacks of \<open>src/utils/stack.h\<close>. The five C structures differ in the type of
  their elements only, so they are one record over \<open>'a\<close>; so are their \<open>pop\<close> functions. The
  values are the block that \<open>realloc\<close> returned, \<open>None\<close> the null pointer; \<open>realloc_ok\<close> says
  whether the next \<open>realloc\<close> succeeds. Lengths stay far below the width of \<open>size_t\<close>.
\<close>

record 'a pg_stack =
  st_values :: "(nat \<Rightarrow> 'a) option"
  st_len :: nat
  st_total_size :: nat
  st_limit :: nat

definition PG_STACK_BLOCK_SIZE :: nat where
  "PG_STACK_BLOCK_SIZE = 126"

definition STACK_CREATE :: "'a pg_stack" where
  "STACK_CREATE = \<lparr>st_values = None, st_len = 0, st_total_size = 0, st_limit = 0\<rparr>"

text \<open>The cells that \<open>realloc\<close> adds have no defined content; here they keep \<open>undefined\<close>.\<close>

definition stack_grow :: "bool \<Rightarrow> 'a pg_stack \<Rightarrow> 'a pg_stack" where
  "stack_grow realloc_ok st =
     st\<lparr>st_total_size := st_total_size st + PG_STACK_BLOCK_SIZE,
        st_values := (if realloc_ok then Some (case st_values st of None \<Rightarrow> (\<lambda>_. undefined) | Some v \<Rightarrow> v)
                      else None)\<rparr>"

definition stack_push :: "bool \<Rightarrow> 'a pg_stack \<Rightarrow> 'a \<Rightarrow> (unit, 'a pg_stack) out" where
  "stack_push realloc_ok st val =
     (if st_limit st \<noteq> 0 \<and> st_limit st \<le> st_len st + 1 then Ret () st
      else
        let st = (if st_len st = st_total_size st then stack_grow realloc_ok st else st) in
        case st_values st of None \<Rightarrow> Abort ''null pointer''
        | Some v \<Rightarrow> Ret () (st\<lparr>st_values := Some (v(st_len st := val)), st_len := st_len st + 1\<rparr>))"

definition stack_len :: "'a pg_stack \<Rightarrow> nat" where
  "stack_len st = st_len st"

definition stack_set_limit :: "'a pg_stack \<Rightarrow> nat \<Rightarrow> 'a pg_stack" where
  "stack_set_limit st l = st\<lparr>st_limit := l\<rparr>"

definition stack_pop :: "'a pg_stack \<Rightarrow> 'a \<Rightarrow> 'a \<times> 'a pg_stack" where
  "stack_pop st fail_ret =
     (if st_len st = 0 then (fail_ret, st)
      else case st_values st of None \<Rightarrow> (fail_ret, st)
      | Some v \<Rightarrow> (v (st_len st - 1), st\<lparr>st_len := st_len st - 1\<rparr>))"

definition stack_destroy :: "'a pg_stack \<Rightarrow> 'a pg_stack" where
  "stack_destroy st = st\<lparr>st_values := None, st_len := 0, st_total_size := 0\<rparr>"

section \<open>The stack as a list\<close>

definition stack_inv :: "'a pg_stack \<Rightarrow> bool" where
  "stack_inv st \<longleftrightarrow> st_len st \<le> st_total_size st \<and> (st_total_size st \<noteq> 0 \<longrightarrow> st_values st \<noteq> None)"

text \<open>The contents, top first.\<close>

definition stack_list :: "'a pg_stack \<Rightarrow> 'a list" where
  "stack_list st = rev (map (\<lambda>i. the (st_values st) i) [0..<st_len st])"

definition stack_full :: "'a pg_stack \<Rightarrow> bool" where
  "stack_full st \<longleftrightarrow> st_limit st \<noteq> 0 \<and> st_limit st \<le> st_len st + 1"

locale lifo =
  fixes inv :: "'s \<Rightarrow> bool" and contents :: "'s \<Rightarrow> 'a list" and full :: "'s \<Rightarrow> bool"
    and empty :: 's and push :: "'s \<Rightarrow> 'a \<Rightarrow> (unit, 's) out" and pop :: "'s \<Rightarrow> 'a \<Rightarrow> 'a \<times> 's"
  assumes inv_empty: "inv empty" and contents_empty: "contents empty = []"
    and push_ok: "inv s \<Longrightarrow> oret (push s x) (\<lambda>_ s'. inv s' \<and>
       contents s' = (if full s then contents s else x # contents s))"
    and push_full: "inv s \<Longrightarrow> full s \<Longrightarrow> push s x = Ret () s"
    and pop_empty: "inv s \<Longrightarrow> contents s = [] \<Longrightarrow> pop s d = (d, s)"
    and pop_Cons: "inv s \<Longrightarrow> contents s = x # xs \<Longrightarrow>
       fst (pop s d) = x \<and> contents (snd (pop s d)) = xs \<and> inv (snd (pop s d))"
begin

primrec push_all :: "'a list \<Rightarrow> 's \<Rightarrow> (unit, 's) out" where
  "push_all [] s = Ret () s"
| "push_all (x # xs) s = obind (push s x) (\<lambda>_. push_all xs)"

primrec pop_n :: "nat \<Rightarrow> 'a \<Rightarrow> 's \<Rightarrow> 'a list" where
  "pop_n 0 d s = []"
| "pop_n (Suc n) d s = fst (pop s d) # pop_n n d (snd (pop s d))"

lemma push_all_contents:
  assumes "inv s" and "\<And>s' x. P s' \<Longrightarrow> inv s' \<Longrightarrow> \<not> full s' \<and> oret (push s' x) (\<lambda>_. P)" and "P s"
  shows "oret (push_all xs s) (\<lambda>_ s'. inv s' \<and> contents s' = rev xs @ contents s)"
  using assms(1,3)
proof (induction xs arbitrary: s)
  case (Cons x xs)
  obtain s1 where s1: "push s x = Ret () s1" and P1: "P s1"
    using assms(2) [OF Cons.prems(2,1)] by (auto simp: oret_iff)
  have "inv s1" and "contents s1 = x # contents s"
    using push_ok [OF Cons.prems(1), of x] assms(2) [OF Cons.prems(2,1)] s1 by auto
  then show ?case using Cons.IH [OF _ P1] s1 by simp
qed simp

lemma pop_n_contents:
  assumes "inv s" shows "pop_n (length (contents s)) d s = contents s"
  using assms
proof (induction "contents s" arbitrary: s)
  case Nil
  then have "contents s = []" by simp
  then show ?case by simp
next
  case (Cons x xs)
  have c: "contents s = x # xs" using Cons.hyps(2) by simp
  note p = pop_Cons [OF Cons.prems c, of d]
  have "pop_n (length (contents (snd (pop s d)))) d (snd (pop s d)) = contents (snd (pop s d))"
    using Cons.hyps(1) p by metis
  then show ?case using p by (simp add: c)
qed

end

lemma stack_list_push:
  assumes "stack_inv st"
  shows "oret (stack_push True st x) (\<lambda>_ st'. stack_inv st' \<and> st_limit st' = st_limit st \<and>
    st_len st' = (if stack_full st then st_len st else Suc (st_len st)) \<and>
    stack_list st' = (if stack_full st then stack_list st else x # stack_list st))"
proof (cases "stack_full st")
  case True
  then show ?thesis using assms by (simp add: stack_push_def stack_full_def)
next
  case False
  define st1 where "st1 = (if st_len st = st_total_size st then stack_grow True st else st)"
  obtain v where v: "st_values st1 = Some v"
    and len: "st_len st1 = st_len st" "st_limit st1 = st_limit st" "st_len st < st_total_size st1"
    using assms
    by (cases "st_values st") (auto simp: st1_def stack_grow_def stack_inv_def PG_STACK_BLOCK_SIZE_def)
  have same: "stack_list st = rev (map v [0..<st_len st])"
  proof -
    have "the (st_values st) i = v i" if "i < st_len st" for i
      using assms v that
      by (cases "st_values st") (auto simp: st1_def stack_grow_def stack_inv_def split: if_splits)
    then show ?thesis by (simp add: stack_list_def cong: map_cong)
  qed
  have "stack_push True st x = Ret () (st1\<lparr>st_values := Some (v(st_len st := x)), st_len := Suc (st_len st)\<rparr>)"
    using False v len(1) by (auto simp: stack_push_def stack_full_def st1_def [symmetric] Let_def)
  then show ?thesis
    using False len v same by (simp add: stack_inv_def stack_list_def)
qed

interpretation lq: lifo stack_inv stack_list stack_full STACK_CREATE "stack_push True" stack_pop
proof
  fix s :: "'a pg_stack" and x d :: 'a and xs :: "'a list"
  show "stack_inv (STACK_CREATE :: 'a pg_stack)" and "stack_list (STACK_CREATE :: 'a pg_stack) = []"
    by (simp_all add: STACK_CREATE_def stack_inv_def stack_list_def)
  show "oret (stack_push True s x) (\<lambda>_ s'. stack_inv s' \<and>
      stack_list s' = (if stack_full s then stack_list s else x # stack_list s))" if "stack_inv s"
    using stack_list_push [OF that, of x] by (rule oret_mono) simp
  show "stack_push True s x = Ret () s" if "stack_full s"
    using that by (simp add: stack_push_def stack_full_def)
  show "stack_pop s d = (d, s)" if "stack_list s = []"
    using that by (simp add: stack_pop_def stack_list_def)
  show "fst (stack_pop s d) = x \<and> stack_list (snd (stack_pop s d)) = xs \<and> stack_inv (snd (stack_pop s d))"
    if inv: "stack_inv s" and top: "stack_list s = x # xs"
  proof -
    obtain n where n: "st_len s = Suc n"
      using top by (cases "st_len s") (auto simp: stack_list_def)
    then obtain v where v: "st_values s = Some v"
      using inv by (auto simp: stack_inv_def)
    have "the (st_values s) n = x" and "rev (map (\<lambda>i. the (st_values s) i) [0..<n]) = xs"
      using top n by (simp_all add: stack_list_def)
    then show ?thesis
      using inv n v by (auto simp: stack_pop_def stack_list_def stack_inv_def)
  qed
qed

text \<open>
  C21. A stack without a limit is last in, first out: after pushing a list of values, which
  always succeeds when memory does, popping as many values gives them back in reverse order,
  and the values below are as they were.
\<close>

theorem stack_push_pop_lifo:
  assumes "stack_inv st" and "st_limit st = 0"
  shows "oret (ofold (\<lambda>x st. stack_push True st x) xs st) (\<lambda>_ st'.
    stack_inv st' \<and> stack_list st' = rev xs @ stack_list st \<and>
    lq.pop_n (length xs + length (stack_list st)) d st' = rev xs @ stack_list st)"
proof -
  have fold: "ofold (\<lambda>x st. stack_push True st x) xs st = lq.push_all xs st" for st
    by (induction xs arbitrary: st) simp_all
  have "oret (lq.push_all xs st) (\<lambda>_ st'. stack_inv st' \<and> stack_list st' = rev xs @ stack_list st)"
  proof (rule lq.push_all_contents [where P = "\<lambda>st. st_limit st = 0", OF assms(1) _ assms(2)])
    fix s :: "'a pg_stack" and x assume "st_limit s = 0" and "stack_inv s"
    then show "\<not> stack_full s \<and> oret (stack_push True s x) (\<lambda>_ s. st_limit s = 0)"
      using oret_mono [OF stack_list_push [of s x], of "\<lambda>_ s. st_limit s = 0"] by (simp add: stack_full_def)
  qed
  then show ?thesis
    unfolding fold
    by (rule oret_mono) (metis length_append length_rev lq.pop_n_contents)
qed

theorem stack_push_pop_lifo_witness:
  "oret (ofold (\<lambda>x st. stack_push True st x) [1, 2, 3 :: nat] STACK_CREATE) (\<lambda>_ st'.
    stack_inv st' \<and> stack_list st' = [3, 2, 1] \<and> lq.pop_n 3 0 st' = [3, 2, 1])"
  using stack_push_pop_lifo [OF lq.inv_empty, of "[1, 2, 3 :: nat]" 0]
  by (simp add: STACK_CREATE_def stack_list_def numeral_3_eq_3)

text \<open>
  C22. A stack with limit \<open>l\<close> never holds more than \<open>l - 1\<close> values: a push on a stack that
  holds \<open>l - 1\<close> values is dropped without a word, one value before the limit.
\<close>

theorem stack_limit_off_by_one:
  assumes "stack_inv st" and "st_limit st = Suc l" and "st_len st \<le> l"
  shows "oret (ofold (\<lambda>x st. stack_push True st x) xs st) (\<lambda>_ st'.
    st_limit st' = Suc l \<and> stack_len st' = min l (st_len st + length xs))"
  using assms
proof (induction xs arbitrary: st)
  case (Cons x xs)
  show ?case
    unfolding ofold.simps
  proof (rule oret_obind, rule oret_mono [OF stack_list_push [OF Cons.prems(1), of x]])
    fix u st'
    assume st': "stack_inv st' \<and> st_limit st' = st_limit st \<and>
      st_len st' = (if stack_full st then st_len st else Suc (st_len st)) \<and>
      stack_list st' = (if stack_full st then stack_list st else x # stack_list st)"
    then show "oret (ofold (\<lambda>x st. stack_push True st x) xs st') (\<lambda>_ st''.
        st_limit st'' = Suc l \<and> stack_len st'' = min l (st_len st + length (x # xs)))"
      using Cons.IH [of st'] Cons.prems(2,3) by (auto simp: stack_full_def split: if_splits)
  qed
qed (simp add: stack_len_def)

theorem stack_limit_off_by_one_witness:
  "oret (ofold (\<lambda>x st. stack_push True st x) [7, 8, 9 :: nat] (stack_set_limit STACK_CREATE 2)) (\<lambda>_ st'.
    st_limit st' = 2 \<and> stack_len st' = 1)"
  using stack_limit_off_by_one [of "stack_set_limit STACK_CREATE 2" 1 "[7, 8, 9 :: nat]"]
  by (simp add: STACK_CREATE_def stack_set_limit_def stack_inv_def numeral_2_eq_2)

end
