(* ===== verification/PG_Net.thy ===== *)
theory PG_Net
  imports PG_Flow
begin

text \<open>
  The protocol helpers of \<open>src/utils/network.h\<close>, \<open>src/utils/ip.h\<close> and \<open>src/utils/mac.c\<close>: where
  the headers of a packet are, the walk over the extension headers of IPv6, the incremental
  IPv4 checksum, address comparison and multicast addresses. A pointer into a packet is the
  function that reads the bytes from there on. The machine is little-endian: a 16-bit load
  gives the swapped value of a field in network order.
\<close>

section \<open>Constants\<close>

definition ETHER_TYPE_IPv4 :: u16 where "ETHER_TYPE_IPv4 = 0x0800"
definition ETHER_TYPE_IPv6 :: u16 where "ETHER_TYPE_IPv6 = 0x86DD"
definition ETHER_TYPE_ARP :: u16 where "ETHER_TYPE_ARP = 0x0806"
definition ETHER_TYPE_RARP :: u16 where "ETHER_TYPE_RARP = 0x8035"
definition ETHER_TYPE_VLAN :: u16 where "ETHER_TYPE_VLAN = 0x8100"
definition IPV4_HDR_DF_FLAG :: u16 where "IPV4_HDR_DF_FLAG = 0x4000"

definition PG_BE_ETHER_TYPE_IPv4 :: u16 where "PG_BE_ETHER_TYPE_IPv4 = PG_CPU_TO_BE_16 ETHER_TYPE_IPv4"
definition PG_BE_ETHER_TYPE_IPv6 :: u16 where "PG_BE_ETHER_TYPE_IPv6 = PG_CPU_TO_BE_16 ETHER_TYPE_IPv6"
definition PG_BE_ETHER_TYPE_ARP :: u16 where "PG_BE_ETHER_TYPE_ARP = PG_CPU_TO_BE_16 ETHER_TYPE_ARP"
definition PG_BE_ETHER_TYPE_RARP :: u16 where "PG_BE_ETHER_TYPE_RARP = PG_CPU_TO_BE_16 ETHER_TYPE_RARP"
definition PG_BE_ETHER_TYPE_VLAN :: u16 where "PG_BE_ETHER_TYPE_VLAN = PG_CPU_TO_BE_16 ETHER_TYPE_VLAN"

definition PG_UDP_PROTOCOL_NUMBER :: u8 where "PG_UDP_PROTOCOL_NUMBER = 17"
definition PG_TCP_PROTOCOL_NUMBER :: u8 where "PG_TCP_PROTOCOL_NUMBER = 6"
definition PG_ICMP_PROTOCOL :: u8 where "PG_ICMP_PROTOCOL = 1"
definition PG_IP_TYPE_ICMPV6 :: u8 where "PG_IP_TYPE_ICMPV6 = 0x3A"
definition PG_ICMPV6_TYPE_NA :: u8 where "PG_ICMPV6_TYPE_NA = 0x88"

section \<open>Headers of a packet\<close>

text \<open>The bytes of a packet from the offset \<open>off\<close> of its data on.\<close>

definition pkt_bytes :: "nat \<Rightarrow> mbuf \<Rightarrow> mstore \<Rightarrow> nat \<Rightarrow> u8" where
  "pkt_bytes off m ms = (\<lambda>i. bufs ms (buf_addr m) (data_off m + off + i))"

definition pkt_data :: "(nat \<Rightarrow> nat) \<Rightarrow> world \<Rightarrow> nat \<Rightarrow> nat \<Rightarrow> u8" where
  "pkt_data f w i = (case mbufs (mst w) (f i) of None \<Rightarrow> (\<lambda>_. 0) | Some m \<Rightarrow> pkt_bytes 0 m (mst w))"

lemma mtod_pkt_data: "mbufs (mst w) (f i) \<noteq> None \<Longrightarrow> mtod (f i) w = Ret (pkt_data f w i) w"
  by (auto simp: mtod_def get_mbuf_def pkt_data_def pkt_bytes_def)

definition bytes_at :: "(nat \<Rightarrow> u8) \<Rightarrow> nat \<Rightarrow> nat \<Rightarrow> u8 list" where
  "bytes_at f i n = map (\<lambda>k. f (i + k)) [0..<n]"

definition pg_utils_get_ether_type :: "nat \<Rightarrow> world \<Rightarrow> (u16, world) out" where
  "pg_utils_get_ether_type p w =
     obind (get_mbuf p w) (\<lambda>m w. Ret (ld16 (bufs (mst w) (buf_addr m)) (data_off m + l2_len m - 2)) w)"

definition pg_utils_get_l3 :: "nat \<Rightarrow> world \<Rightarrow> (nat \<Rightarrow> u8, world) out" where
  "pg_utils_get_l3 p w = obind (get_mbuf p w) (\<lambda>m w. Ret (pkt_bytes (l2_len m) m (mst w)) w)"

definition ether_dst :: "(nat \<Rightarrow> u8) \<Rightarrow> u8 list" where
  "ether_dst eth = bytes_at eth 0 6"

definition ether_src :: "(nat \<Rightarrow> u8) \<Rightarrow> u8 list" where
  "ether_src eth = bytes_at eth 6 6"

text \<open>
  The loop of \<open>pg_utils_get_ipv6_l4\<close>. \<open>n\<close> is the number of rounds left before the counter
  reaches 8; a position is relative to the end of the fixed header, \<open>starting_pos\<close>. The
  first branch stands for the destination, hop-by-hop, routing and mobility headers, the
  second for the fragment header, the third for the authentication header.
\<close>

fun ipv6_skip :: "nat \<Rightarrow> (nat \<Rightarrow> u8) \<Rightarrow> u8 \<Rightarrow> nat \<Rightarrow> (u8 \<times> nat) option" where
  "ipv6_skip 0 f next_header next_data = None"
| "ipv6_skip (Suc n) f next_header next_data =
     (if next_header \<in> {0x3C, 0x00, 0x2B, 0x88} then
        ipv6_skip n f (f next_data) (next_data + (unat (f (next_data + 1)) + 1) * 8)
      else if next_header = 0x2C then ipv6_skip n f (f next_data) (next_data + 8)
      else if next_header = 0x33 then
        ipv6_skip n f (f next_data) (next_data + (unat (f (next_data + 1)) + 2) * 4)
      else Some (next_header, next_data))"

definition pg_utils_get_ipv6_l4 :: "nat \<Rightarrow> world \<Rightarrow> (int \<times> u8 \<times> (nat \<Rightarrow> u8), world) out" where
  "pg_utils_get_ipv6_l4 p w =
     obind (pg_utils_get_l3 p w) (\<lambda>h6 w.
       case ipv6_skip 7 (\<lambda>i. h6 (40 + i)) (h6 6) 0 of
         None \<Rightarrow> Ret (-1, 0, h6) w
       | Some (ip_type, pos) \<Rightarrow> Ret (int pos, ip_type, \<lambda>i. h6 (40 + pos + i)) w)"

definition pg_utils_get_ipv6_l3_len :: "nat \<Rightarrow> world \<Rightarrow> (int, world) out" where
  "pg_utils_get_ipv6_l3_len p w =
     obind (pg_utils_get_ipv6_l4 p w) (\<lambda>(len, _, _) w. Ret (len + 40) w)"

definition pg_utils_guess_l2 :: "ext \<Rightarrow> nat \<Rightarrow> world \<Rightarrow> (unit, world) out" where
  "pg_utils_guess_l2 x p w =
     obind (mtod p w) (\<lambda>eth w.
       let vlan = (ld16 eth 12 = PG_BE_ETHER_TYPE_VLAN) in
       Ret () (upd_mbuf p (\<lambda>m. m\<lparr>
         l2_type := (if vlan then or (RTE_PTYPE_L2_ETHER x) (RTE_PTYPE_L2_ETHER_VLAN x)
                     else RTE_PTYPE_L2_ETHER x),
         l2_len := (if vlan then 14 + 4 else 14)\<rparr>) w))"

definition pg_utils_guess_metadata :: "ext \<Rightarrow> nat \<Rightarrow> world \<Rightarrow> (unit, world) out" where
  "pg_utils_guess_metadata x p w = pg_utils_guess_l2 x p w"

section \<open>IPv4 checksum\<close>

text \<open>The IPv4 header of 20 bytes, as it lies in memory; fields are as they are stored.\<close>

definition ipv4_bytes :: "u16 \<Rightarrow> u16 \<Rightarrow> u16 \<Rightarrow> u8 \<Rightarrow> u8 \<Rightarrow> u16 \<Rightarrow> u32 \<Rightarrow> u32 \<Rightarrow> u8 list" where
  "ipv4_bytes total_length packet_id fragment_offset ttl proto cksum src dst =
     [0x45, 0] @ le16 total_length @ le16 packet_id @ le16 fragment_offset @ [ttl, proto] @
     le16 cksum @ le32 src @ le32 dst"

definition pg_ipv4_init_cksum :: "ext \<Rightarrow> u32 \<Rightarrow> u32" where
  "pg_ipv4_init_cksum x src_ip =
     x_raw_cksum x (ipv4_bytes 0 0 0 64 PG_UDP_PROTOCOL_NUMBER 0 src_ip 0) 0"

definition pg_ipv4_udp_cksum :: "ext \<Rightarrow> u32 \<Rightarrow> u16 \<Rightarrow> u16 \<Rightarrow> u32 \<Rightarrow> u16" where
  "pg_ipv4_udp_cksum x base_sum_ipv4 len packet_id dst_ip =
     (let cksum = x_raw_cksum_reduce x (base_sum_ipv4 + ucast len + ucast packet_id +
            (dst_ip AND 0xffff) + drop_bit 16 dst_ip) in
      if cksum = 0xffff then 0xffff else NOT cksum)"

section \<open>Addresses\<close>

definition pg_is_same_ipv4 :: "u32 \<Rightarrow> u32 \<Rightarrow> bool" where
  "pg_is_same_ipv4 a b \<longleftrightarrow> a = b"

definition pg_is_same_ipv6_tab_tab :: "u8 list \<Rightarrow> u8 list \<Rightarrow> bool" where
  "pg_is_same_ipv6_tab_tab dest src \<longleftrightarrow> dest = src"

definition pg_multicast_get_dst_addr4 :: "u32 \<Rightarrow> u8 list" where
  "pg_multicast_get_dst_addr4 ip =
     [0x01, 0x00, 0x5e, le32 ip ! 1 AND 0x7f, le32 ip ! 2, le32 ip ! 3]"

definition pg_multicast_get_dst_addr6 :: "u8 list \<Rightarrow> u8 list" where
  "pg_multicast_get_dst_addr6 ip = [0x33, 0x33, ip ! 12, ip ! 13, ip ! 14, ip ! 15]"

definition is_multicast_ip_tab :: "u8 list \<Rightarrow> bool" where
  "is_multicast_ip_tab ip \<longleftrightarrow> ip ! 0 = 0xff"

definition is_multicast_ipv4 :: "u32 \<Rightarrow> bool" where
  "is_multicast_ipv4 ip \<longleftrightarrow> 224 \<le> le32 ip ! 0 \<and> le32 ip ! 0 \<le> 239"

section \<open>Lemmas\<close>

text \<open>
  What DPDK documents of its checksum functions: \<open>__rte_raw_cksum\<close> adds the 16-bit words of
  the buffer to the sum it is given, and \<open>rte_ipv4_cksum\<close> is the complement of the reduced
  sum of the header, with 0xffff for a sum of 0xffff.
\<close>

fun words_sum :: "u8 list \<Rightarrow> u32" where
  "words_sum (a # b # bs) = (ucast a OR push_bit 8 (ucast b)) + words_sum bs"
| "words_sum _ = 0"

definition dpdk_cksum :: "ext \<Rightarrow> bool" where
  "dpdk_cksum x \<longleftrightarrow>
     (\<forall>bs s. even (length bs) \<longrightarrow> x_raw_cksum x bs s = s + words_sum bs) \<and>
     (\<forall>bs. length bs = 20 \<longrightarrow> x_ipv4_cksum x bs =
        (let c = x_raw_cksum_reduce x (x_raw_cksum x bs 0) in if c = 0xffff then c else NOT c))"

lemma le16_word: "(ucast (ucast (x :: u16) :: u8) OR push_bit 8 (ucast (ucast (drop_bit 8 x) :: u8)) :: u32) = ucast x"
  by (rule bit_word_eqI)
     (auto simp: bit_or_iff bit_push_bit_iff bit_unsigned_iff bit_drop_bit_eq dest: bit_imp_le_length)

lemma le32_low:
  "(ucast (ucast (x :: u32) :: u8) OR push_bit 8 (ucast (ucast (drop_bit 8 x) :: u8)) :: u32) = x AND 0xffff"
proof -
  have m: "(0xffff :: u32) = mask 16" by (simp add: mask_eq_exp_minus_1)
  show ?thesis
    unfolding m
    by (intro bit_word_eqI)
       (auto simp: bit_or_iff bit_and_iff bit_push_bit_iff bit_unsigned_iff bit_drop_bit_eq bit_mask_iff)
qed

lemma le32_high:
  "(ucast (ucast (drop_bit 16 x) :: u8) OR push_bit 8 (ucast (ucast (drop_bit 24 x) :: u8)) :: u32) =
   drop_bit 16 (x :: u32)"
proof (rule bit_word_eqI)
  fix n :: nat assume "n < LENGTH(32)"
  have "24 + (n - 8) = 16 + n" if "8 \<le> n" using that by simp
  then show "bit (ucast (ucast (drop_bit 16 x) :: u8) OR push_bit 8 (ucast (ucast (drop_bit 24 x) :: u8)) :: u32) n =
      bit (drop_bit 16 x) n"
    by (cases "n < 8"; cases "n < 16")
       (auto simp: bit_or_iff bit_push_bit_iff bit_unsigned_iff bit_drop_bit_eq bit_imp_le_length dest: bit_imp_le_length)
qed

lemma words_sum_ipv4:
  "words_sum (ipv4_bytes len i f ttl proto c src dst) =
     words_sum (ipv4_bytes 0 0 f ttl proto c src 0) + ucast len + ucast i +
     (dst AND 0xffff) + drop_bit 16 dst"
  by (simp add: ipv4_bytes_def le16_def le32_def le16_word le32_low le32_high add.assoc)

lemma length_ipv4_bytes [simp]: "length (ipv4_bytes len i f ttl proto c src dst) = 20"
  by (simp add: ipv4_bytes_def le16_def le32_def)

text \<open>
  C23. The incremental checksum is the checksum: from the half sum that \<open>pg_ipv4_init_cksum\<close>
  computes once per source address, \<open>pg_ipv4_udp_cksum\<close> gives for every length, identifier
  and destination what \<open>rte_ipv4_cksum\<close> gives for the whole header.
\<close>

theorem pg_ipv4_udp_cksum_correct:
  assumes "dpdk_cksum x"
  shows "pg_ipv4_udp_cksum x (pg_ipv4_init_cksum x src) len i dst =
    x_ipv4_cksum x (ipv4_bytes len i 0 64 PG_UDP_PROTOCOL_NUMBER 0 src dst)"
proof -
  have raw: "x_raw_cksum x (ipv4_bytes l j 0 64 PG_UDP_PROTOCOL_NUMBER 0 src d) 0 =
      words_sum (ipv4_bytes l j 0 64 PG_UDP_PROTOCOL_NUMBER 0 src d)" for l j d
    using assms by (simp add: dpdk_cksum_def)
  have "x_ipv4_cksum x (ipv4_bytes len i 0 64 PG_UDP_PROTOCOL_NUMBER 0 src dst) =
      (let c = x_raw_cksum_reduce x (words_sum (ipv4_bytes len i 0 64 PG_UDP_PROTOCOL_NUMBER 0 src dst))
       in if c = 0xffff then c else NOT c)"
    using assms raw by (simp add: dpdk_cksum_def)
  then show ?thesis
    unfolding pg_ipv4_udp_cksum_def pg_ipv4_init_cksum_def raw
    by (simp add: words_sum_ipv4 [of len i _ _ _ _ src dst] Let_def)
qed

lemma demo_raw_cksum_sum: "even (length bs) \<Longrightarrow> demo_raw_cksum bs s = s + words_sum bs"
  by (induction bs s rule: demo_raw_cksum.induct) (simp_all add: add.assoc)

lemma demo_ext_cksum: "dpdk_cksum demo_ext"
  by (simp add: dpdk_cksum_def demo_ext_def demo_raw_cksum_sum)

theorem pg_ipv4_udp_cksum_correct_witness:
  "pg_ipv4_udp_cksum demo_ext (pg_ipv4_init_cksum demo_ext 0x0100007f) 0x3200 7 0x0200007f =
   x_ipv4_cksum demo_ext (ipv4_bytes 0x3200 7 0 64 PG_UDP_PROTOCOL_NUMBER 0 0x0100007f 0x0200007f)"
  by (rule pg_ipv4_udp_cksum_correct [OF demo_ext_cksum])

lemma byte_less: "unat (b :: u8) < 256"
proof -
  have "unat b < 2 ^ LENGTH(8)" by (rule unsigned_less)
  then show ?thesis by simp
qed

lemma ipv6_skip_bounds:
  assumes "ipv6_skip n f h pos = Some (t, q)"
  shows "pos \<le> q \<and> q \<le> pos + (n - 1) * 2048 \<and> t \<notin> {0x3C, 0x00, 0x2B, 0x88, 0x2C, 0x33}"
  using assms
proof (induction n arbitrary: h pos)
  case (Suc n)
  have le: "(unat (f (pos + 1)) + 1) * 8 \<le> 2048" "(unat (f (pos + 1)) + 2) * 4 \<le> 2048"
    using byte_less [of "f (pos + 1)"] by simp_all
  have step: "pos \<le> q \<and> q \<le> pos + n * 2048 \<and> t \<notin> {0x3C, 0x00, 0x2B, 0x88, 0x2C, 0x33}"
    if next_hdr: "ipv6_skip n f h' (pos + d) = Some (t, q)" and d: "d \<le> 2048" for h' d
  proof -
    obtain m where "n = Suc m" using next_hdr by (cases n) simp_all
    then show ?thesis using Suc.IH [OF next_hdr] d by auto
  qed
  show ?case
    using Suc.prems step [of _ "(unat (f (pos + 1)) + 1) * 8", OF _ le(1)] step [of _ 8]
      step [of _ "(unat (f (pos + 1)) + 2) * 4", OF _ le(2)]
    by (simp split: if_splits)
qed simp

text \<open>
  C24. The walk over the extension headers of an IPv6 packet ends after at most seven headers,
  each of at least 8 and at most 2048 bytes: it gives up with -1, or it returns a distance of
  at most \<open>6 * 2048\<close> bytes, with the type of a header that is not one of those it skips.
\<close>

theorem pg_utils_get_ipv6_l4_bounds:
  assumes "mbufs (mst w) p = Some m"
  shows "oret (pg_utils_get_ipv6_l4 p w) (\<lambda>(len, ip_type, payload) w'. w' = w \<and>
    (len = -1 \<or> 0 \<le> len \<and> len \<le> 6 * 2048 \<and> ip_type \<notin> {0x3C, 0x00, 0x2B, 0x88, 0x2C, 0x33} \<and>
      (\<forall>i. payload i = pkt_bytes (l2_len m) m (mst w) (40 + nat len + i))))"
proof -
  have l3: "pg_utils_get_l3 p w = Ret (pkt_bytes (l2_len m) m (mst w)) w"
    using assms by (simp add: pg_utils_get_l3_def get_mbuf_def)
  show ?thesis
    unfolding pg_utils_get_ipv6_l4_def l3
    by (auto split: option.splits dest!: ipv6_skip_bounds)
qed

theorem pg_utils_get_ipv6_l4_bounds_witness:
  "oret (pg_utils_get_ipv6_l4 1 demo_world) (\<lambda>(len, ip_type, payload) w'. w' = demo_world \<and>
    (len = -1 \<or> 0 \<le> len \<and> len \<le> 6 * 2048 \<and> ip_type \<notin> {0x3C, 0x00, 0x2B, 0x88, 0x2C, 0x33} \<and>
      (\<forall>i. payload i = pkt_bytes 14 (demo_mbuf\<lparr>buf_addr := 1\<rparr>) (mst demo_world) (40 + nat len + i))))"
  using pg_utils_get_ipv6_l4_bounds [of demo_world 1 "demo_mbuf\<lparr>buf_addr := 1\<rparr>"]
  by (simp add: demo_world_def demo_mbuf_def)

lemma safe_case_sum [safe_intros]:
  "(\<And>x. safe w (f x)) \<Longrightarrow> (\<And>y. safe w (g y)) \<Longrightarrow> safe w (case z of Inl x \<Rightarrow> f x | Inr y \<Rightarrow> g y)"
  by (simp split: sum.splits)

lemma safe_net [simp, safe_intros]:
  "safe w (pg_utils_get_ether_type p w)" "safe w (pg_utils_get_l3 p w)"
  "safe w (pg_utils_get_ipv6_l4 p w)" "safe w (pg_utils_get_ipv6_l3_len p w)"
  "safe w (pg_utils_guess_l2 x p w)" "safe w (pg_utils_guess_metadata x p w)"
proof -
  show "safe w (pg_utils_get_ether_type p w)" and l3: "safe w (pg_utils_get_l3 p w)" for w
    unfolding pg_utils_get_ether_type_def pg_utils_get_l3_def by (intro safe_intros; simp)+
  show l4: "safe w (pg_utils_get_ipv6_l4 p w)" for w
    unfolding pg_utils_get_ipv6_l4_def by (intro safe_intros l3; simp)
  show "safe w (pg_utils_get_ipv6_l3_len p w)"
    unfolding pg_utils_get_ipv6_l3_len_def by (intro safe_intros l4; simp)
  show "safe w (pg_utils_guess_l2 x p w)" and "safe w (pg_utils_guess_metadata x p w)"
    unfolding pg_utils_guess_metadata_def pg_utils_guess_l2_def by (intro safe_intros; simp)+
qed

lemma safe_packets_ops: "safe w (packets_ops op bs f a m w)"
proof -
  have "safe w (let (tmp, ms) = op p n (mst w); w = w\<lparr>mst := ms\<rparr> in
      case tmp of None \<Rightarrow> Ret (Some ()) w
      | Some off \<Rightarrow> obind (write_bytes p off bs w) (\<lambda>_ w. Ret None (upd_mbuf p f w)))" for w p n
  proof (cases "op p n (mst w)")
    case (Pair tmp ms)
    have "safe (w\<lparr>mst := ms\<rparr>) (obind (write_bytes p off bs (w\<lparr>mst := ms\<rparr>)) (\<lambda>_ w. Ret None (upd_mbuf p f w)))" for off
      by (intro safe_intros) simp
    then show ?thesis
      using safe_step_safe [OF safe_step_fields(1)] by (auto simp: Pair Let_def split: option.splits)
  qed
  then show ?thesis
    unfolding packets_ops_def by (intro safe_obind safe_oloop safe_if safe_get; simp)
qed

section \<open>Writing headers\<close>

text \<open>Writing bytes of a packet, at an offset from the start of its data.\<close>

definition put_bytes :: "nat \<Rightarrow> nat \<Rightarrow> u8 list \<Rightarrow> world \<Rightarrow> (unit, world) out" where
  "put_bytes p off bs w = obind (get_mbuf p w) (\<lambda>m w. write_bytes p (data_off m + off) bs w)"

lemma safe_put_bytes [simp, safe_intros]: "safe w (put_bytes p off bs w)"
  unfolding put_bytes_def by (intro safe_intros)

text \<open>Writes to the data of one packet: the world with the buffer \<open>B\<close> for the packet \<open>m\<close>.\<close>

definition with_buf :: "mbuf \<Rightarrow> (nat \<Rightarrow> u8) \<Rightarrow> world \<Rightarrow> world" where
  "with_buf m B w = w\<lparr>mst := (mst w)\<lparr>bufs := (bufs (mst w))(buf_addr m := B)\<rparr>\<rparr>"

definition set_bytes :: "nat \<Rightarrow> u8 list \<Rightarrow> (nat \<Rightarrow> u8) \<Rightarrow> nat \<Rightarrow> u8" where
  "set_bytes off bs f k = (if off \<le> k \<and> k < off + length bs then bs ! (k - off) else f k)"

lemma put_bytes_buf:
  assumes "mbufs (mst w) p = Some m"
  shows "put_bytes p off bs (with_buf m B w) = Ret () (with_buf m (poke B (data_off m + off) bs) w)"
  using assms by (simp add: put_bytes_def get_mbuf_def write_bytes_def with_buf_def)

lemma mtod_buf:
  "mbufs (mst w) p = Some m \<Longrightarrow> mtod p (with_buf m B w) = Ret (\<lambda>i. B (data_off m + i)) (with_buf m B w)"
  by (simp add: mtod_def get_mbuf_def with_buf_def)

lemma poke_shift: "(\<lambda>i. poke B (d + off) bs (d + i)) = set_bytes off bs (\<lambda>i. B (d + i))"
  by (auto simp: fun_eq_iff poke_apply set_bytes_def)

lemma poke_shift0: "(\<lambda>i. poke B d bs (d + i)) = set_bytes 0 bs (\<lambda>i. B (d + i))"
  using poke_shift [of B d 0 bs] by simp

lemma bytes_at_append: "bytes_at f i (n + k) = bytes_at f i n @ bytes_at f (i + n) k"
  by (induction k) (simp_all add: bytes_at_def add.assoc)

lemma bytes_at_set_bytes:
  "n = length bs \<Longrightarrow> bytes_at (set_bytes i bs f) i n = bs"
  "j + n \<le> i \<or> i + length bs \<le> j \<Longrightarrow> bytes_at (set_bytes i bs f) j n = bytes_at f j n"
  by (rule nth_equalityI; simp add: bytes_at_def set_bytes_def) (auto simp: bytes_at_def set_bytes_def)

lemma le32_word:
  "(ucast (ucast ip :: u8) OR push_bit 8 (ucast (ucast (drop_bit 8 ip) :: u8)) OR
    push_bit 16 (ucast (ucast (drop_bit 16 ip) :: u8)) OR
    push_bit 24 (ucast (ucast (drop_bit 24 ip) :: u8))) = (ip :: u32)"
proof (rule bit_word_eqI)
  fix n :: nat assume "n < LENGTH(32)"
  moreover have "8 + (n - 8) = n" if "8 \<le> n" using that by simp
  moreover have "16 + (n - 16) = n" if "16 \<le> n" using that by simp
  moreover have "24 + (n - 24) = n" if "24 \<le> n" using that by simp
  ultimately show "bit (ucast (ucast ip :: u8) OR push_bit 8 (ucast (ucast (drop_bit 8 ip) :: u8)) OR
    push_bit 16 (ucast (ucast (drop_bit 16 ip) :: u8)) OR
    push_bit 24 (ucast (ucast (drop_bit 24 ip) :: u8)) :: u32) n = bit ip n"
    by (cases "24 \<le> n"; cases "16 \<le> n")
       (auto simp: bit_or_iff bit_push_bit_iff bit_unsigned_iff bit_drop_bit_eq)
qed

lemma le32_ld32: "le32 ip = bytes_at f i 4 \<longleftrightarrow> ld32 f i = ip"
proof -
  have 4: "bytes_at f i 4 = [f i, f (i + 1), f (i + 2), f (i + 3)]"
    by (simp add: bytes_at_def upt_rec numeral_eq_Suc)
  have hi: "\<not> bit (b :: u8) (8 + n)" "\<not> bit b (16 + n)" "\<not> bit b (24 + n)" for b n
    by (auto dest!: bit_imp_le_length)
  have "ld32 f i = ip" if "le32 ip = bytes_at f i 4"
  proof -
    from that have "f i = ucast ip" "f (i + 1) = ucast (drop_bit 8 ip)" "f (i + 2) = ucast (drop_bit 16 ip)"
        "f (i + 3) = ucast (drop_bit 24 ip)"
      unfolding 4 le32_def by simp_all
    then show ?thesis unfolding ld32_def by (simp only: le32_word)
  qed
  moreover have "le32 (ld32 f i) = bytes_at f i 4"
    unfolding 4 le32_def ld32_def
    by (auto intro!: bit_word_eqI simp: bit_or_iff bit_push_bit_iff bit_unsigned_iff bit_drop_bit_eq hi)
  ultimately show ?thesis by auto
qed

lemma le16_ld16: "le16 v = bytes_at f i 2 \<longleftrightarrow> ld16 f i = v"
proof -
  have 2: "bytes_at f i 2 = [f i, f (i + 1)]" by (simp add: bytes_at_def upt_rec numeral_eq_Suc)
  have hi: "\<not> bit (b :: u8) (8 + n)" for b n by (auto dest!: bit_imp_le_length)
  have "(ucast (ucast v :: u8) OR push_bit 8 (ucast (ucast (drop_bit 8 v) :: u8)) :: u16) = v"
    by (rule bit_word_eqI) (auto simp: bit_or_iff bit_push_bit_iff bit_unsigned_iff bit_drop_bit_eq)
  then have "ld16 f i = v" if "le16 v = bytes_at f i 2"
    using that by (auto simp: 2 le16_def ld16_def)
  moreover have "le16 (ld16 f i) = bytes_at f i 2"
    unfolding 2 le16_def ld16_def
    by (auto intro!: bit_word_eqI simp: bit_or_iff bit_push_bit_iff bit_unsigned_iff bit_drop_bit_eq hi)
  ultimately show ?thesis by auto
qed

lemma bytes_at_within:
  "i \<le> j \<Longrightarrow> j + n \<le> i + length bs \<Longrightarrow> bytes_at (set_bytes i bs f) j n = take n (drop (j - i) bs)"
  by (rule nth_equalityI; simp add: bytes_at_def set_bytes_def)

lemma length_fields [simp]: "length (le16 v) = 2" "length (be16 v) = 2" "length (le32 d) = 4"
  "length (bytes_at f i n) = n"
  by (simp_all add: le16_def be16_def le32_def bytes_at_def)

text \<open>A call of another library that returns nothing.\<close>

definition call_out :: "ext \<Rightarrow> outside_call \<Rightarrow> world \<Rightarrow> (unit, world) out" where
  "call_out x c w = Ret () (w\<lparr>mst := x_call x c (mst w)\<rparr>)"

lemma safe_call_out [simp, safe_intros]: "safe w (call_out x c w)"
  by (simp add: call_out_def)

section \<open>Numbers in messages\<close>

text \<open>A number as \<open>%d\<close> and \<open>%u\<close> print it.\<close>

fun nat_str :: "nat \<Rightarrow> string" where
  "nat_str n = (if n < 10 then [char_of (48 + n)] else nat_str (n div 10) @ [char_of (48 + n mod 10)])"

declare nat_str.simps [simp del]

end
