(* ===== verification/PG_Udp_Filter.thy ===== *)
theory PG_Udp_Filter
  imports PG_Relay PG_Net
begin

text \<open>
  The UDP filter, \<open>src/udp-filter.c\<close>: packets from the unfiltered side are sent to the port of
  the first filter that matches their UDP ports, and to port 0 when none does. The array
  \<open>port_mask\<close> on the stack is a list of masks.
\<close>

fun st_udp_filter :: "priv \<Rightarrow> pg_udp_filter_state option" where
  "st_udp_filter (P_udp_filter st) = Some st"
| "st_udp_filter _ = None"

fun on_udp_filter :: "(pg_udp_filter_state \<Rightarrow> pg_udp_filter_state) \<Rightarrow> priv \<Rightarrow> priv" where
  "on_udp_filter f (P_udp_filter st) = P_udp_filter (f st)"
| "on_udp_filter f p = p"

definition PG_USP_FILTER_DST_PORT :: u32 where "PG_USP_FILTER_DST_PORT = 1"
definition PG_USP_FILTER_SRC_PORT :: u32 where "PG_USP_FILTER_SRC_PORT = 2"

text \<open>The test of one filter, and the index of the first that holds; UDP starts at byte 34.\<close>

definition udp_test :: "(nat \<Rightarrow> u8) \<Rightarrow> pg_udp_filter_info \<Rightarrow> bool" where
  "udp_test hdr f \<longleftrightarrow>
     uf_flag f AND PG_USP_FILTER_DST_PORT \<noteq> 0 \<and> ld16 hdr 36 = udp_dst_port f \<or>
     uf_flag f AND PG_USP_FILTER_SRC_PORT \<noteq> 0 \<and> ld16 hdr 34 = udp_src_port f"

fun udp_match :: "pg_udp_filter_info list \<Rightarrow> (nat \<Rightarrow> u8) \<Rightarrow> nat option" where
  "udp_match [] hdr = None"
| "udp_match (f # fs) hdr = (if udp_test hdr f then Some 0 else map_option Suc (udp_match fs hdr))"

text \<open>The test for the default case: not an IPv4 packet that carries UDP.\<close>

definition udp_default :: "(nat \<Rightarrow> u8) \<Rightarrow> bool" where
  "udp_default hdr \<longleftrightarrow> ld16 hdr 12 \<noteq> PG_BE_ETHER_TYPE_IPv4 \<or> hdr 23 \<noteq> PG_UDP_PROTOCOL_NUMBER"

text \<open>One round of the loop over the packets. A packet of the default case goes on to the filters.\<close>

definition udp_mark :: "pg_udp_filter_info list \<Rightarrow> (nat \<Rightarrow> u8) \<Rightarrow> nat \<Rightarrow> u64 list \<Rightarrow> u64 list" where
  "udp_mark filters hdr i port_mask =
     (let port_mask = (if udp_default hdr then port_mask[0 := port_mask ! 0 OR ONE64_shl i] else port_mask) in
      case udp_match filters hdr of
        Some j \<Rightarrow> port_mask[j + 1 := port_mask ! (j + 1) OR ONE64_shl i]
      | None \<Rightarrow> port_mask[0 := port_mask ! 0 OR ONE64_shl i])"

definition udp_masks ::
    "pg_udp_filter_info list \<Rightarrow> arr \<Rightarrow> u64 \<Rightarrow> world \<Rightarrow> (u64 list, world) out" where
  "udp_masks filters pkts pkts_mask w =
     oacc (\<lambda>i port_mask w.
         obind (get_pkts pkts w) (\<lambda>f w.
         obind (mtod (f i) w) (\<lambda>hdr w. Ret (udp_mark filters hdr i port_mask) w)))
       (pg_foreach_bit pkts_mask) (replicate (length filters + 1) 0) w"

definition udp_filter_burst ::
    "burster \<Rightarrow> nat \<Rightarrow> pg_side \<Rightarrow> nat \<Rightarrow> arr \<Rightarrow> u64 \<Rightarrow> world \<Rightarrow> (int, world) out" where
  "udp_filter_burst brst b from edge_index pkts pkts_mask w =
     obind (get_state st_udp_filter b w) (\<lambda>st w.
       if from = uf_to st then pg_brick_side_forward brst b (pg_flip_side from) from pkts pkts_mask w
       else
         obind (udp_masks (uf_filters st) pkts pkts_mask w) (\<lambda>port_mask w.
           loop_result (oloop (\<lambda>i w.
             obind (get_brick b w) (\<lambda>br w.
               let s = sides br (pg_flip_side from) in
               if length (edges s) \<le> i then Abort ''edge out of range''
               else obind (brst (link (edges s ! i)) from (pair_index (edges s ! i)) pkts (port_mask ! i) w)
                      (\<lambda>ret w. if ret < 0 then Ret (Some ret) w else Ret None w)))
             [0..<length (uf_filters st) + 1] w)))"

definition udp_filter_init :: "nat \<Rightarrow> pg_brick_config \<Rightarrow> world \<Rightarrow> (int, world) out" where
  "udp_filter_init b config w =
     (case brick_config config of
        Some (C_udp_filter to ports) \<Rightarrow>
          Ret 0 (upd_priv b (on_udp_filter (\<lambda>s. s\<lparr>uf_to := to,
            uf_filters := map (\<lambda>p. p\<lparr>udp_src_port := PG_CPU_TO_BE_16 (udp_src_port p),
                                     udp_dst_port := PG_CPU_TO_BE_16 (udp_dst_port p)\<rparr>) ports\<rparr>))
            (set_burst b udp_filter_burst_fn w))
      | _ \<Rightarrow> Abort ''config of another brick'')"

definition udp_filter_config_new ::
    "string \<Rightarrow> nat \<Rightarrow> nat \<Rightarrow> pg_side \<Rightarrow> pg_udp_filter_info list \<Rightarrow> pg_brick_config" where
  "udp_filter_config_new nm wmax emax output ports =
     pg_brick_config_init (Some (C_udp_filter output ports)) nm wmax emax PG_MULTIPOLE"

text \<open>The C function reads \<open>nb_filters\<close> elements of \<open>ports\<close>.\<close>

definition pg_udp_filter_new ::
    "brick_ops list \<Rightarrow> string \<Rightarrow> pg_udp_filter_info list option \<Rightarrow> nat \<Rightarrow> pg_side \<Rightarrow> world \<Rightarrow>
     (nat option, world) out" where
  "pg_udp_filter_new reg nm ports nb_filters output w =
     (case ports of None \<Rightarrow> Ret None (set_err (pg_error_new ''port is NULL'' []) w)
      | Some ports \<Rightarrow>
          if length ports < nb_filters then Abort ''filter out of range''
          else
            let nb_east = (if output = PG_EAST_SIDE then nb_filters + 1 else 1);
                nb_west = (if output = PG_WEST_SIDE then nb_filters + 1 else 1) in
            pg_brick_new reg (Some ''udp_filter'')
              (Some (udp_filter_config_new nm nb_west nb_east output (take nb_filters ports))) w)"

definition udp_filter_destroy :: "nat \<Rightarrow> world \<Rightarrow> (unit, world) out" where
  "udp_filter_destroy b w =
     obind (get_state st_udp_filter b w) (\<lambda>_ w.
       Ret () (upd_priv b (on_udp_filter (\<lambda>s. s\<lparr>uf_filters := []\<rparr>)) w))"

definition udp_filter_ops :: brick_ops where
  "udp_filter_ops = base_ops\<lparr>op_name := ''udp_filter'',
     op_zero := P_udp_filter \<lparr>uf_to = PG_WEST_SIDE, uf_filters = []\<rparr>, op_init := udp_filter_init,
     op_destroy := Some udp_filter_destroy, op_unlink := True\<rparr>"

section \<open>Lemmas\<close>

lemma priv_step_udp_filter: "priv_step p (on_udp_filter f p)"
  by (cases p) (simp_all add: priv_step_def)

lemma safe_step_udp_filter [simp]: "safe_step w (upd_priv b (on_udp_filter f) w)"
  by (rule safe_step_priv) (rule priv_step_udp_filter)

lemma udp_filter_init_safe: "safe w (udp_filter_init b c w)"
  unfolding udp_filter_init_def
  by (auto split: option.splits bconf.splits
      intro: safe_step_trans [OF safe_step_set(1) safe_step_udp_filter])

lemma udp_filter_destroy_safe: "safe w (udp_filter_destroy b w)"
  unfolding udp_filter_destroy_def by (intro safe_intros) simp

context bursts
begin

lemma udp_filter_burst_safe: "safe w (udp_filter_burst brst b from i a m w)"
  unfolding udp_filter_burst_def udp_masks_def
  by (intro safe_intros side_forward_safe burst_safe; simp)

end

section \<open>Where the packets go\<close>

text \<open>The ports of a packet: that of its first filter or port 0, and port 0 in the default case.\<close>

definition udp_ports :: "pg_udp_filter_info list \<Rightarrow> (nat \<Rightarrow> u8) \<Rightarrow> nat set" where
  "udp_ports filters hdr =
     {case udp_match filters hdr of None \<Rightarrow> 0 | Some j \<Rightarrow> j + 1} \<union> (if udp_default hdr then {0} else {})"

lemma udp_match_less: "udp_match fs hdr = Some j \<Longrightarrow> j < length fs"
  by (induction fs arbitrary: j) (auto split: if_splits)

lemma udp_mark_bits:
  assumes "length pm = length fs + 1" and "i < 64"
  shows "length (udp_mark fs hdr i pm) = length fs + 1"
    and "k < length fs + 1 \<Longrightarrow>
      bit (udp_mark fs hdr i pm ! k) j \<longleftrightarrow> bit (pm ! k) j \<or> j = i \<and> k \<in> udp_ports fs hdr"
proof -
  show "length (udp_mark fs hdr i pm) = length fs + 1"
    using assms by (simp add: udp_mark_def Let_def split: option.splits)
  assume k: "k < length fs + 1"
  show "bit (udp_mark fs hdr i pm ! k) j \<longleftrightarrow> bit (pm ! k) j \<or> j = i \<and> k \<in> udp_ports fs hdr"
  proof (cases "udp_match fs hdr")
    case None
    then show ?thesis
      using k assms by (auto simp: udp_mark_def udp_ports_def Let_def nth_list_update bit_or_iff bit_ONE64_shl)
  next
    case (Some q)
    then show ?thesis
      using k assms udp_match_less [OF Some]
      by (auto simp: udp_mark_def udp_ports_def Let_def nth_list_update bit_or_iff bit_ONE64_shl)
  qed
qed

lemma fold_udp_mark:
  assumes "length pm = length fs + 1" and "\<forall>i \<in> set is. i < 64" and "k < length fs + 1"
  shows "length (fold (\<lambda>i. udp_mark fs (hdr i) i) is pm) = length fs + 1 \<and>
    (bit (fold (\<lambda>i. udp_mark fs (hdr i) i) is pm ! k) j \<longleftrightarrow>
       bit (pm ! k) j \<or> j \<in> set is \<and> k \<in> udp_ports fs (hdr j))"
  using assms
proof (induction "is" arbitrary: pm)
  case (Cons i js)
  show ?case
    using Cons.IH [of "udp_mark fs (hdr i) i pm"] Cons.prems udp_mark_bits(1) [of pm fs i "hdr i"] udp_mark_bits(2) [of pm fs i k "hdr i" j]
    by auto
qed simp

text \<open>
  C25. The UDP filter sorts a burst: packet \<open>i\<close> is in the mask of port \<open>k\<close> exactly when it is in
  the burst and \<open>k\<close> is one of its ports. A UDP packet over IPv4 has one port only, that of
  the first filter that matches it or port 0. A packet of another protocol is always sent to
  port 0, but also to the port of a filter when the bytes where a UDP header would be match.
\<close>

theorem udp_filter_sorts:
  assumes "arrays w pkts = Some f" and "valid_pkts f (pg_foreach_bit pkts_mask) (mst w)"
  shows "oret (udp_masks filters pkts pkts_mask w) (\<lambda>port_mask w'. w' = w \<and>
    length port_mask = length filters + 1 \<and>
    (\<forall>i. \<forall>k < length filters + 1. bit (port_mask ! k) i \<longleftrightarrow>
       bit pkts_mask i \<and> k \<in> udp_ports filters (pkt_data f w i)) \<and>
    (\<forall>hdr. \<not> udp_default hdr \<longrightarrow>
       udp_ports filters hdr = {case udp_match filters hdr of None \<Rightarrow> 0 | Some j \<Rightarrow> j + 1}) \<and>
    (\<forall>hdr j. udp_default hdr \<and> udp_match filters hdr = Some j \<longrightarrow> udp_ports filters hdr = {0, j + 1}))"
proof -
  define pm where "pm = fold (\<lambda>i. udp_mark filters (pkt_data f w i) i) (pg_foreach_bit pkts_mask)
    (replicate (length filters + 1) (0 :: u64))"
  have run: "udp_masks filters pkts pkts_mask w = Ret pm w"
    unfolding udp_masks_def pm_def
    by (rule oacc_pure) (use assms in \<open>auto simp: valid_pkts_def mtod_pkt_data\<close>)
  have bits: "length pm = length filters + 1 \<and> (bit (pm ! k) i \<longleftrightarrow>
      bit pkts_mask i \<and> k \<in> udp_ports filters (pkt_data f w i))" if k: "k < length filters + 1" for i k
  proof -
    have "bit (replicate (length filters + 1) (0 :: u64) ! k) i = False"
      using k by (simp del: replicate.simps)
    then show ?thesis
      using fold_udp_mark [of "replicate (length filters + 1) 0" filters "pg_foreach_bit pkts_mask" k
          "pkt_data f w" i] k
      unfolding pm_def by (simp add: set_pg_foreach_bit bit64_less del: replicate.simps)
  qed
  have "length pm = length filters + 1" using bits [of 0 0] by simp
  moreover have "\<forall>i. \<forall>k < length filters + 1. bit (pm ! k) i \<longleftrightarrow>
      bit pkts_mask i \<and> k \<in> udp_ports filters (pkt_data f w i)" using bits by blast
  ultimately show ?thesis
    unfolding run by (auto simp: udp_ports_def)
qed

text \<open>A filter on destination port 53 and a burst of two empty packets.\<close>

definition demo_filters :: "pg_udp_filter_info list" where
  "demo_filters = [\<lparr>uf_flag = 1, udp_src_port = 0, udp_dst_port = PG_CPU_TO_BE_16 53\<rparr>]"

theorem udp_filter_sorts_witness:
  "oret (udp_masks demo_filters (Arr 0) 3 demo_world) (\<lambda>port_mask w'.
    w' = demo_world \<and> bit (port_mask ! 0) 1 \<and> \<not> bit (port_mask ! 1) 1)"
proof -
  have len: "length demo_filters + 1 = 2" by (simp add: demo_filters_def)
  have data: "pkt_data Suc demo_world 1 = (\<lambda>_. 0)"
    by (simp add: pkt_data_def demo_world_def pkt_bytes_def)
  have "PG_CPU_TO_BE_16 53 \<noteq> 0" by (simp add: PG_CPU_TO_BE_16_def)
  then have ports: "udp_ports demo_filters (\<lambda>_. 0) = {0}"
    by (simp add: demo_filters_def udp_ports_def udp_test_def ld16_def PG_USP_FILTER_SRC_PORT_def)
  have arr: "arrays demo_world (Arr 0) = Some Suc" by (simp add: demo_world_def)
  obtain pm where run: "udp_masks demo_filters (Arr 0) 3 demo_world = Ret pm demo_world"
    and bits: "\<forall>i. \<forall>k < 2. bit (pm ! k) i \<longleftrightarrow> bit (3 :: u64) i \<and> k \<in> udp_ports demo_filters (pkt_data Suc demo_world i)"
    using udp_filter_sorts [OF arr demo_valid, of demo_filters 3, unfolded len] by (auto simp: oret_iff)
  have "bit (3 :: u64) 1" by (simp add: bit_numeral_rec)
  then have "bit (pm ! 0) 1" and "\<not> bit (pm ! 1) 1"
    using bits [rule_format, of 0 1] bits [rule_format, of 1 1] unfolding data ports by simp_all
  then show ?thesis unfolding run by simp
qed

end
