(* ===== verification/PG_Accumulator.thy ===== *)
theory PG_Accumulator
  imports PG_Relay
begin

text \<open>
  The accumulator, \<open>src/accumulator.c\<close>: it keeps the packets of small bursts in one vector
  per output side and sends them on when a vector is full or when it is polled. The vectors
  \<open>burst_vec[side].mbufs\<close> are arrays of the brick, their lengths are \<open>acc_len\<close>. The results of
  the neighbour are ignored, as in the code. \<open>None\<close> as output stands for \<open>PG_MAX_SIDE\<close>.
\<close>

fun st_accumulator :: "priv \<Rightarrow> pg_accumulator_state option" where
  "st_accumulator (P_accumulator st) = Some st"
| "st_accumulator _ = None"

fun on_accumulator :: "(pg_accumulator_state \<Rightarrow> pg_accumulator_state) \<Rightarrow> priv \<Rightarrow> priv" where
  "on_accumulator f (P_accumulator st) = P_accumulator (f st)"
| "on_accumulator f p = p"

fun burst_vec :: "nat \<Rightarrow> pg_side \<Rightarrow> arr" where
  "burst_vec b PG_WEST_SIDE = Emb b 0"
| "burst_vec b PG_EAST_SIDE = Emb b 1"

definition set_acc_len :: "nat \<Rightarrow> pg_side \<Rightarrow> nat \<Rightarrow> world \<Rightarrow> world" where
  "set_acc_len b s n w = upd_priv b (on_accumulator (\<lambda>st. st\<lparr>acc_len := (acc_len st)(s := n)\<rparr>)) w"

definition accumulator_snd_pkts ::
    "ext \<Rightarrow> burster \<Rightarrow> nat \<Rightarrow> pg_side \<Rightarrow> pg_side \<Rightarrow> world \<Rightarrow> (nat, world) out" where
  "accumulator_snd_pkts x brst b s os w =
     obind (get_state st_accumulator b w) (\<lambda>st w.
       let pkts_mask = pg_mask_firsts (word_of_nat (acc_len st s)); r = acc_len st s in
       obind (burst_edge brst b s os (burst_vec b s) pkts_mask w) (\<lambda>_ w.
       obind (pg_packets_free x (burst_vec b s) pkts_mask w) (\<lambda>_ w.
       Ret r (set_acc_len b s 0 w))))"

text \<open>The vector has room for 64 packets.\<close>

definition accumulator_store ::
    "ext \<Rightarrow> burster \<Rightarrow> nat \<Rightarrow> pg_side \<Rightarrow> arr \<Rightarrow> nat \<Rightarrow> world \<Rightarrow> (unit, world) out" where
  "accumulator_store x brst b from pkts it w =
     (let output = pg_flip_side from in
      obind (get_state st_accumulator b w) (\<lambda>st w.
        if 64 \<le> acc_len st output then Abort ''vector overflow''
        else
          obind (get_pkts pkts w) (\<lambda>f w.
          obind (set_pkt (burst_vec b output) (acc_len st output) (f it) w) (\<lambda>_ w.
          obind (Ret () (set_acc_len b output (acc_len st output + 1)
                   (w\<lparr>mst := x_refcnt_update x (f it) 1 (mst w)\<rparr>))) (\<lambda>_ w.
          if acc_len st output + 1 = 64
          then obind (accumulator_snd_pkts x brst b output from w) (\<lambda>_ w. Ret () w)
          else Ret () w)))))"

definition accumulator_burst ::
    "ext \<Rightarrow> burster \<Rightarrow> nat \<Rightarrow> pg_side \<Rightarrow> nat \<Rightarrow> arr \<Rightarrow> u64 \<Rightarrow> world \<Rightarrow> (int, world) out" where
  "accumulator_burst x brst b from edge_index pkts pkts_mask w =
     obind (ofold (accumulator_store x brst b from pkts) (pg_foreach_bit pkts_mask) w) (\<lambda>_ w. Ret 0 w)"

definition accumulator_try_poll_side ::
    "ext \<Rightarrow> burster \<Rightarrow> nat \<Rightarrow> pg_side \<Rightarrow> world \<Rightarrow> (nat, world) out" where
  "accumulator_try_poll_side x brst b poll_dir w =
     obind (get_state st_accumulator b w) (\<lambda>st w.
       if acc_poll_count st poll_dir < acc_poll_min st then
         Ret 0 (upd_priv b (on_accumulator (\<lambda>st. st\<lparr>acc_poll_count :=
           (acc_poll_count st)(poll_dir := inc16 (acc_poll_count st poll_dir))\<rparr>)) w)
       else
         obind (Ret () (upd_priv b (on_accumulator
                  (\<lambda>st. st\<lparr>acc_poll_count := (acc_poll_count st)(poll_dir := 0)\<rparr>)) w)) (\<lambda>_ w.
         accumulator_snd_pkts x brst b poll_dir (pg_flip_side poll_dir) w))"

definition accumulator_poll ::
    "ext \<Rightarrow> burster \<Rightarrow> nat \<Rightarrow> nat \<Rightarrow> world \<Rightarrow> (int \<times> nat, world) out" where
  "accumulator_poll x brst b pkts_cnt w =
     obind (get_state st_accumulator b w) (\<lambda>st w.
       case acc_output st of
         None \<Rightarrow>
           obind (accumulator_try_poll_side x brst b PG_WEST_SIDE w) (\<lambda>n w.
           obind (accumulator_try_poll_side x brst b PG_EAST_SIDE w) (\<lambda>m w.
           Ret (0, (n + m) mod 65536) w))
       | Some output \<Rightarrow>
           obind (accumulator_try_poll_side x brst b (pg_flip_side output) w) (\<lambda>n w.
           Ret (0, n mod 65536) w))"

definition accumulator_init :: "nat \<Rightarrow> pg_brick_config \<Rightarrow> world \<Rightarrow> (int, world) out" where
  "accumulator_init b config w =
     (case brick_config config of
        Some (C_accumulator output poll_min) \<Rightarrow>
          Ret 0 (upd_priv b (on_accumulator (\<lambda>st. st\<lparr>acc_poll_min := unat poll_min mod 65536,
            acc_output := output, acc_len := (\<lambda>_. 0), acc_poll_count := (\<lambda>_. 0)\<rparr>))
            (set_poll b accumulator_poll_fn (set_burst b accumulator_burst_fn w)))
      | _ \<Rightarrow> Abort ''config of another brick'')"

definition accumulator_config_new :: "string \<Rightarrow> pg_side option \<Rightarrow> u64 \<Rightarrow> pg_brick_config" where
  "accumulator_config_new nm output poll_min =
     pg_brick_config_init (Some (C_accumulator output poll_min)) nm 1 1 PG_DIPOLE"

definition pg_accumulator_new ::
    "brick_ops list \<Rightarrow> string \<Rightarrow> pg_side option \<Rightarrow> u64 \<Rightarrow> world \<Rightarrow> (nat option, world) out" where
  "pg_accumulator_new reg nm output poll_min w =
     pg_brick_new reg (Some ''accumulator'') (Some (accumulator_config_new nm output poll_min)) w"

definition accumulator_ops :: brick_ops where
  "accumulator_ops = base_ops\<lparr>op_name := ''accumulator'',
     op_zero := P_accumulator \<lparr>acc_output = Some PG_WEST_SIDE, acc_len = (\<lambda>_. 0),
       acc_poll_count = (\<lambda>_. 0), acc_poll_min = 0\<rparr>,
     op_init := accumulator_init, op_unlink := True\<rparr>"

section \<open>Lemmas\<close>

lemma priv_step_accumulator:
  assumes "\<And>st. (\<forall>s. acc_len st s \<le> 64) \<Longrightarrow> (\<forall>s. acc_len (f st) s \<le> 64)"
  shows "priv_step p (on_accumulator f p)"
  using assms by (cases p) (auto simp: priv_step_def)

lemma safe_step_acc_len [simp]: "n \<le> 64 \<Longrightarrow> safe_step w (set_acc_len b s n w)"
  unfolding set_acc_len_def by (rule safe_step_priv, rule priv_step_accumulator) simp

lemma safe_step_acc_poll [simp]:
  "safe_step w (upd_priv b (on_accumulator (\<lambda>st. st\<lparr>acc_poll_count := g st\<rparr>)) w)"
  by (rule safe_step_priv, rule priv_step_accumulator) simp

lemma accumulator_init_safe: "safe w (accumulator_init b c w)"
proof -
  have "safe_step w (upd_priv b (on_accumulator (\<lambda>st. st\<lparr>acc_poll_min := pm, acc_output := o1,
      acc_len := (\<lambda>_. 0), acc_poll_count := (\<lambda>_. 0)\<rparr>))
      (set_poll b accumulator_poll_fn (set_burst b accumulator_burst_fn w)))" for pm o1
    by (rule safe_step_trans [OF safe_step_trans [OF safe_step_set(1) safe_step_set(2)] safe_step_priv])
       (rule priv_step_accumulator, simp)
  then show ?thesis
    by (auto simp: accumulator_init_def split: option.splits bconf.splits)
qed

context bursts
begin

lemma accumulator_snd_safe: "safe w (accumulator_snd_pkts x brst b s os w)"
  unfolding accumulator_snd_pkts_def by (intro safe_intros burst_edge_safe; simp)

lemma accumulator_store_safe: "safe w (accumulator_store x brst b from a it w)"
proof -
  have "safe_step w1 (set_acc_len b s (n + 1) (w1\<lparr>mst := ms\<rparr>))" if "\<not> 64 \<le> n" for w1 s n ms
    using that by (intro safe_step_trans [OF safe_step_fields(1) safe_step_acc_len]) simp
  then show ?thesis
    unfolding accumulator_store_def Let_def
    by (intro safe_intros) (auto intro!: safe_intros accumulator_snd_safe)
qed

lemma accumulator_burst_safe: "safe w (accumulator_burst x brst b from i a m w)"
  unfolding accumulator_burst_def by (intro safe_intros accumulator_store_safe; simp)

lemma accumulator_poll_safe: "safe w (accumulator_poll x brst b c w)"
  unfolding accumulator_poll_def accumulator_try_poll_side_def
  by (intro safe_intros accumulator_snd_safe; simp)

end

end
