(* ===== verification/PG_Queue.thy ===== *)
theory PG_Queue
  imports PG_Relay
begin

text \<open>
  The queue, \<open>src/queue.c\<close>: it keeps the bursts it gets, and the queue that is its friend
  sends them on when it is polled. A stored burst is a pointer to the array of the caller
  and a mask, as in \<open>struct pg_queue_burst\<close>; the packets are not copied. The asynchronous
  queue of GLib is a list with the oldest burst first. The friend is the address of a brick.
\<close>

fun st_queue :: "priv \<Rightarrow> pg_queue_state option" where
  "st_queue (P_queue st) = Some st"
| "st_queue _ = None"

fun on_queue :: "(pg_queue_state \<Rightarrow> pg_queue_state) \<Rightarrow> priv \<Rightarrow> priv" where
  "on_queue f (P_queue st) = P_queue (f st)"
| "on_queue f p = p"

definition set_rx :: "nat \<Rightarrow> (arr \<times> u64) list \<Rightarrow> world \<Rightarrow> world" where
  "set_rx b rx w = upd_priv b (on_queue (\<lambda>st. st\<lparr>q_rx := rx\<rparr>)) w"

definition set_friend :: "nat \<Rightarrow> nat option \<Rightarrow> world \<Rightarrow> world" where
  "set_friend b fr w = upd_priv b (on_queue (\<lambda>st. st\<lparr>q_friend := fr\<rparr>)) w"

definition queue_config_new :: "string \<Rightarrow> nat \<Rightarrow> pg_brick_config" where
  "queue_config_new nm rx_max_size =
     pg_brick_config_init (Some (C_queue rx_max_size)) nm 1 1 PG_MONOPOLE"

text \<open>\<open>queue_size * 255\<close> is divided as an unsigned 32-bit number and returned as a byte.\<close>

definition pg_queue_pressure :: "nat \<Rightarrow> world \<Rightarrow> (nat, world) out" where
  "pg_queue_pressure b w =
     obind (get_state st_queue b w) (\<lambda>st w.
       let queue_size = length (q_rx st) in
       if queue_size = 0 then Ret 0 w
       else if q_rx_max_size st = 0 then Abort ''division by zero''
       else Ret ((queue_size * 255 mod 2 ^ 32) div q_rx_max_size st mod 256) w)"

text \<open>The cast of \<open>rx_max_size\<close> to \<open>int\<close>.\<close>

definition as_int32 :: "nat \<Rightarrow> int" where
  "as_int32 n = (if n < 2 ^ 31 then int n else int n - 2 ^ 32)"

definition queue_burst ::
    "ext \<Rightarrow> nat \<Rightarrow> pg_side \<Rightarrow> nat \<Rightarrow> arr \<Rightarrow> u64 \<Rightarrow> world \<Rightarrow> (int, world) out" where
  "queue_burst x b from edge_index pkts pkts_mask w =
     obind (get_state st_queue b w) (\<lambda>st w.
     obind (if as_int32 (q_rx_max_size st) \<le> int (length (q_rx st)) then
              (case q_rx st of [] \<Rightarrow> Ret [] w
               | (a, m) # rx \<Rightarrow> obind (pg_packets_free x a m w) (\<lambda>_ w. Ret rx w))
            else Ret (q_rx st) w) (\<lambda>rx w.
     obind (pg_packets_incref x pkts pkts_mask w) (\<lambda>_ w.
     Ret 0 (set_rx b (rx @ [(pkts, pkts_mask)]) w))))"

definition queue_poll :: "ext \<Rightarrow> burster \<Rightarrow> nat \<Rightarrow> nat \<Rightarrow> world \<Rightarrow> (int \<times> nat, world) out" where
  "queue_poll x brst b pkts_cnt w =
     obind (get_state st_queue b w) (\<lambda>st w.
       case q_friend st of None \<Rightarrow> Ret (0, 0) w
       | Some fr \<Rightarrow>
           obind (get_state st_queue fr w) (\<lambda>tx w.
             case q_rx tx of [] \<Rightarrow> Ret (0, 0) w
             | (a, m) # rx \<Rightarrow>
                 obind (Ret () (set_rx fr rx w)) (\<lambda>_ w.
                 obind (burst_edge brst b PG_WEST_SIDE (q_output st) a m w) (\<lambda>ret w.
                 obind (pg_packets_free x a m w) (\<lambda>_ w.
                 Ret (ret, pg_mask_count m) w)))))"

text \<open>\<open>g_async_queue_new\<close> does not return \<open>NULL\<close>: GLib ends the program when memory runs out.\<close>

definition queue_init :: "nat \<Rightarrow> pg_brick_config \<Rightarrow> world \<Rightarrow> (int, world) out" where
  "queue_init b config w =
     (case brick_config config of
        Some (C_queue n) \<Rightarrow>
          obind (Ret () (upd_priv b (on_queue (\<lambda>st. st\<lparr>q_rx := [],
            q_rx_max_size := if n = 0 then 10 else n, q_friend := None\<rparr>)) w)) (\<lambda>_ w.
          Ret 0 (set_poll b queue_poll_fn (set_burst b queue_burst_fn w)))
      | _ \<Rightarrow> Abort ''config of another brick'')"

definition pg_queue_friend :: "nat \<Rightarrow> nat \<Rightarrow> world \<Rightarrow> (int, world) out" where
  "pg_queue_friend queue_1 queue_2 w =
     obind (get_state st_queue queue_1 w) (\<lambda>state1 w.
     obind (get_state st_queue queue_2 w) (\<lambda>state2 w.
       if q_friend state1 \<noteq> None then
         obind (pg_brick_name queue_1 w) (\<lambda>nm w.
         Ret (-1) (set_err (pg_error_new ''Queue %s (1st arg) already has a friend'' [nm]) w))
       else if q_friend state2 \<noteq> None then
         obind (pg_brick_name queue_2 w) (\<lambda>nm w.
         Ret (-1) (set_err (pg_error_new ''Queue %s (2nd arg) already has a friend'' [nm]) w))
       else Ret 0 (set_friend queue_2 (Some queue_1) (set_friend queue_1 (Some queue_2) w))))"

definition pg_queue_get_friend :: "nat \<Rightarrow> world \<Rightarrow> (nat option, world) out" where
  "pg_queue_get_friend b w = obind (get_state st_queue b w) (\<lambda>st w. Ret (q_friend st) w)"

definition pg_queue_are_friend :: "nat \<Rightarrow> nat \<Rightarrow> world \<Rightarrow> (bool, world) out" where
  "pg_queue_are_friend queue_1 queue_2 w =
     obind (pg_queue_get_friend queue_1 w) (\<lambda>fr w. Ret (fr = Some queue_2) w)"

definition unfriend :: "nat \<Rightarrow> world \<Rightarrow> (unit, world) out" where
  "unfriend b w =
     obind (get_state st_queue b w) (\<lambda>st w.
       case q_friend st of None \<Rightarrow> Ret () w
       | Some fr \<Rightarrow>
           obind (get_state st_queue fr w) (\<lambda>_ w.
           obind (Ret () (set_friend fr None w)) (\<lambda>_ w.
           Ret () (set_friend b None w))))"

text \<open>Nothing is pushed while the loop runs, so it takes the bursts the queue has at its start.\<close>

definition empty :: "ext \<Rightarrow> nat \<Rightarrow> world \<Rightarrow> (unit, world) out" where
  "empty x b w =
     obind (get_state st_queue b w) (\<lambda>st w.
     obind (ofold (\<lambda>(a, m) w. pg_packets_free x a m w) (q_rx st) w) (\<lambda>_ w.
     Ret () (set_rx b [] w)))"

definition pg_queue_unfriend :: "nat \<Rightarrow> world \<Rightarrow> (unit, world) out" where
  "pg_queue_unfriend b w = unfriend b w"

definition queue_destroy :: "ext \<Rightarrow> nat \<Rightarrow> world \<Rightarrow> (unit, world) out" where
  "queue_destroy x b w = obind (unfriend b w) (\<lambda>_ w. empty x b w)"

definition pg_queue_new :: "brick_ops list \<Rightarrow> string \<Rightarrow> int \<Rightarrow> world \<Rightarrow> (nat option, world) out" where
  "pg_queue_new reg nm sz w =
     pg_brick_new reg (Some ''queue'') (Some (queue_config_new nm (nat (sz mod 2 ^ 32)))) w"

definition queue_link :: "priv \<Rightarrow> pg_side \<Rightarrow> nat \<Rightarrow> priv" where
  "queue_link p side edge_index = on_queue (\<lambda>st. st\<lparr>q_output := pg_flip_side side\<rparr>) p"

fun queue_get_side :: "priv \<Rightarrow> pg_side" where
  "queue_get_side (P_queue st) = pg_flip_side (q_output st)"
| "queue_get_side p = PG_WEST_SIDE"

definition queue_reset :: "ext \<Rightarrow> nat \<Rightarrow> world \<Rightarrow> (int, world) out" where
  "queue_reset x b w = obind (unfriend b w) (\<lambda>_ w. obind (empty x b w) (\<lambda>_ w. Ret 0 w))"

definition queue_ops :: "ext \<Rightarrow> brick_ops" where
  "queue_ops x = base_ops\<lparr>op_name := ''queue'',
     op_zero := P_queue \<lparr>q_output = PG_WEST_SIDE, q_rx_max_size = 0, q_rx = [], q_friend = None\<rparr>,
     op_init := queue_init, op_destroy := Some (queue_destroy x), op_link_notify := Some queue_link,
     op_get_side := Some queue_get_side, op_unlink := True, op_reset := Some (queue_reset x)\<rparr>"

section \<open>Lemmas\<close>

lemma priv_step_queue:
  assumes "\<And>st. q_output (f st) = q_output st"
    and "\<And>st. length (q_rx st) \<le> max 1 (q_rx_max_size st) \<Longrightarrow>
           length (q_rx (f st)) \<le> max 1 (q_rx_max_size (f st))"
  shows "priv_step p (on_queue f p)"
  using assms by (cases p) (auto simp: priv_step_def)

lemma st_on_queue [simp]: "st_queue (on_queue f p) = map_option f (st_queue p)"
  by (cases p) simp_all

lemma queue_at_set [simp]:
  "state_at st_queue (set_rx b rx w) c =
     (if c = b then map_option (\<lambda>st. st\<lparr>q_rx := rx\<rparr>) (state_at st_queue w b) else state_at st_queue w c)"
  "state_at st_queue (set_friend b fr w) c =
     (if c = b then map_option (\<lambda>st. st\<lparr>q_friend := fr\<rparr>) (state_at st_queue w b) else state_at st_queue w c)"
  unfolding set_rx_def set_friend_def by (rule state_at_upd_priv, simp)+

lemma safe_set_friend [simp]: "safe_step w (set_friend b fr w)"
  unfolding set_friend_def by (rule safe_step_priv) (simp add: priv_step_queue)

lemma safe_set_rx:
  assumes "\<And>st. state_at st_queue w b = Some st \<Longrightarrow>
     length rx \<le> max (length (q_rx st)) (max 1 (q_rx_max_size st))"
  shows "safe_step w (set_rx b rx w)"
  unfolding set_rx_def
proof (rule safe_step_priv)
  fix br assume br: "bricks w b = Some br"
  show "priv_step (priv_state br) (on_queue (\<lambda>st. st\<lparr>q_rx := rx\<rparr>) (priv_state br))"
    using assms br by (cases "priv_state br") (auto simp: priv_step_def state_at_def)
qed

lemma queue_init_safe: "safe w (queue_init b c w)"
proof -
  have "safe_step w (upd_priv b (on_queue (\<lambda>st. st\<lparr>q_rx := [], q_rx_max_size := n, q_friend := None\<rparr>)) w)"
    for n w by (rule safe_step_priv, rule priv_step_queue) simp_all
  then show ?thesis
    by (auto simp: queue_init_def intro!: safe_step_handled split: option.splits bconf.splits)
qed

lemma queue_burst_safe: "safe w (queue_burst x b from i a m w)"
  unfolding queue_burst_def
proof (rule safe_obind' [OF safe_get_state])
  fix st w1 assume "get_state st_queue b w = Ret st w1"
  then have br: "state_at st_queue w1 b = Some st" by (simp add: get_state_iff)
  let ?drop = "if as_int32 (q_rx_max_size st) \<le> int (length (q_rx st)) then
      (case q_rx st of [] \<Rightarrow> Ret [] w1 | (a, m) # rx \<Rightarrow> obind (pg_packets_free x a m w1) (\<lambda>_ w. Ret rx w))
    else Ret (q_rx st) w1"
  have drop: "bricks w2 = bricks w1 \<and> length rx < max (length (q_rx st)) (max 1 (q_rx_max_size st))"
    if "?drop = Ret rx w2" for rx w2
  proof (cases "as_int32 (q_rx_max_size st) \<le> int (length (q_rx st))")
    case True
    then show ?thesis
      using that packets_bricks(1) by (cases "q_rx st") (auto simp: out_simps)
  next
    case False
    then have "length (q_rx st) < q_rx_max_size st" by (simp add: as_int32_def split: if_splits)
    then show ?thesis using False that by auto
  qed
  show "safe w1 (obind ?drop (\<lambda>rx w. obind (pg_packets_incref x a m w) (\<lambda>_ w.
      Ret 0 (set_rx b (rx @ [(a, m)]) w))))"
  proof (rule safe_obind')
    show "safe w1 ?drop"
      by (cases "q_rx st") (auto intro!: safe_intros)
    fix rx w2 assume r: "?drop = Ret rx w2"
    show "safe w2 (obind (pg_packets_incref x a m w2) (\<lambda>_ w. Ret 0 (set_rx b (rx @ [(a, m)]) w)))"
    proof (rule safe_obind' [OF safe_packets(2)])
      fix u w3 assume "pg_packets_incref x a m w2 = Ret u w3"
      then have "state_at st_queue w3 b = Some st"
        using drop [OF r] br packets_bricks(2) state_at_data by metis
      then show "safe w3 (Ret 0 (set_rx b (rx @ [(a, m)]) w3))"
        using drop [OF r] br by (auto intro!: safe_set_rx)
    qed
  qed
qed

lemma unfriend_safe: "safe w (unfriend b w)"
  unfolding unfriend_def by (intro safe_intros; simp)

lemma empty_safe: "safe w (empty x b w)"
  unfolding empty_def by (intro safe_intros; simp add: safe_set_rx)

lemma queue_destroy_safe: "safe w (queue_destroy x b w)"
  unfolding queue_destroy_def by (intro safe_intros unfriend_safe empty_safe)

lemma queue_reset_safe: "safe w (queue_reset x b w)"
  unfolding queue_reset_def by (intro safe_intros unfriend_safe empty_safe; simp)

context bursts
begin

lemma queue_poll_safe: "safe w (queue_poll x brst b c w)"
proof -
  have "safe w1 (case q_rx tx of [] \<Rightarrow> Ret (0, 0) w1
      | (a, m) # rx \<Rightarrow> obind (Ret () (set_rx fr rx w1)) (\<lambda>_ w.
          obind (burst_edge brst b PG_WEST_SIDE os a m w) (\<lambda>ret w.
          obind (pg_packets_free x a m w) (\<lambda>_ w. Ret (ret, pg_mask_count m) w))))"
    if g: "get_state st_queue fr w = Ret tx w1" for w w1 tx fr os
  proof (cases "q_rx tx")
    case (Cons p rx)
    obtain a m where p: "p = (a, m)" by (cases p)
    have step: "safe_step w1 (set_rx fr rx w1)"
      using g Cons by (auto simp: get_state_iff intro!: safe_set_rx)
    have "safe w2 (obind (burst_edge brst b PG_WEST_SIDE os a m w2) (\<lambda>ret w.
        obind (pg_packets_free x a m w) (\<lambda>_ w. Ret (ret, pg_mask_count m) w)))" for w2
      by (intro safe_intros burst_edge_safe; simp)
    then show ?thesis using step Cons p by (simp add: safe_step_safe)
  qed simp
  then show ?thesis
    unfolding queue_poll_def
    by (intro safe_obind' [OF safe_get_state] safe_case_option safe_Ret [THEN iffD2] safe_step_refl) blast
qed

end


section \<open>Order and loss\<close>

text \<open>A bounded queue that loses its oldest element when it is full.\<close>

definition bounded_push :: "nat \<Rightarrow> 'a list \<Rightarrow> 'a \<Rightarrow> 'a list" where
  "bounded_push n xs v = (if n \<le> length xs then tl xs else xs) @ [v]"

text \<open>
  C18. A queue is a bounded queue: with a size below 2^31, taking a burst appends it, and when
  the queue is full the oldest burst, and no other, leaves and gives its references back; the
  burst itself takes one reference on each of its packets.
\<close>

theorem queue_burst_bounded:
  assumes "state_at st_queue w b = Some st"
    and "q_rx_max_size st < 2 ^ 31" and "arrays w a = Some f"
    and "\<forall>(a', m') \<in> set (q_rx st). arrays w a' \<noteq> None"
  shows "queue_burst x b from i a m w =
    Ret 0 (set_rx b (bounded_push (q_rx_max_size st) (q_rx st) (a, m))
      (w\<lparr>mst := fold (\<lambda>i. x_refcnt_update x (f i) 1) (pg_foreach_bit m)
         (if q_rx_max_size st \<le> length (q_rx st) \<and> q_rx st \<noteq> []
          then fold (\<lambda>i. x_free x (the (arrays w (fst (hd (q_rx st)))) i))
                 (pg_foreach_bit (snd (hd (q_rx st)))) (mst w)
          else mst w)\<rparr>))"
proof (cases "q_rx st")
  case Nil
  then show ?thesis
    using assms by (auto simp: queue_burst_def pg_packets_incref_eq bounded_push_def as_int32_def)
next
  case (Cons p rx)
  obtain a' m' g where p: "p = (a', m')" "arrays w a' = Some g"
    using assms(4) Cons by (cases p) auto
  have cond: "as_int32 (q_rx_max_size st) \<le> 1 + int (length rx) \<longleftrightarrow> q_rx_max_size st \<le> Suc (length rx)"
    using assms(2) by (auto simp: as_int32_def)
  show ?thesis
    using assms Cons p
    by (auto simp: queue_burst_def pg_packets_incref_eq pg_packets_free_eq bounded_push_def cond)
qed

definition demo_queue :: pg_queue_state where
  "demo_queue = \<lparr>q_output = PG_WEST_SIDE, q_rx_max_size = 1, q_rx = [(Arr 0, 1)], q_friend = None\<rparr>"

theorem queue_burst_bounded_witness:
  "queue_burst demo_ext 0 PG_WEST_SIDE 0 (Arr 0) 2 (place 0 (P_queue demo_queue) demo_world) =
   Ret 0 (set_rx 0 [(Arr 0, 2)] ((place 0 (P_queue demo_queue) demo_world)
     \<lparr>mst := x_refcnt_update demo_ext 2 1 (x_free demo_ext 1 (mst demo_world))\<rparr>))"
proof -
  have bits: "pg_foreach_bit 1 = [0]" "pg_foreach_bit 2 = [1]" by code_simp+
  have "state_at st_queue (place 0 (P_queue demo_queue) demo_world) 0 = Some demo_queue" by simp
  from queue_burst_bounded [OF this, of "Arr 0" Suc demo_ext PG_WEST_SIDE 0 2] show ?thesis
    by (simp add: demo_queue_def bits bounded_push_def numeral_2_eq_2 [symmetric])
qed



section \<open>Friends\<close>

definition is_queue :: "world \<Rightarrow> nat \<Rightarrow> bool" where
  "is_queue w b \<longleftrightarrow> state_at st_queue w b \<noteq> None"

definition friend_of :: "world \<Rightarrow> nat \<Rightarrow> nat option" where
  "friend_of w b = Option.bind (state_at st_queue w b) q_friend"

definition friends_ok :: "world \<Rightarrow> bool" where
  "friends_ok w \<longleftrightarrow> (\<forall>b c. friend_of w b = Some c \<longrightarrow> is_queue w c \<and> friend_of w c = Some b)"

lemma is_queue_set [simp]:
  "is_queue (set_friend b fr w) c = is_queue w c" "is_queue (set_rx b rx w) c = is_queue w c"
  "friend_of (set_rx b rx w) c = friend_of w c"
  by (auto simp: is_queue_def friend_of_def split: bind_splits)

lemma friend_of_set_friend [simp]:
  "friend_of (set_friend b fr w) c = (if c = b \<and> is_queue w b then fr else friend_of w c)"
  by (auto simp: friend_of_def is_queue_def)

lemma friends_data: "bricks w' = bricks w \<Longrightarrow> friend_of w' = friend_of w \<and> is_queue w' = is_queue w"
  using state_at_data [of w' w st_queue] by (simp add: friend_of_def is_queue_def fun_eq_iff)

lemma friends_okI:
  "(\<And>b c. friend_of w b = Some c \<Longrightarrow> is_queue w c \<and> friend_of w c = Some b) \<Longrightarrow> friends_ok w"
  unfolding friends_ok_def by blast

lemma friends_okD: "friends_ok w \<Longrightarrow> friend_of w b = Some c \<Longrightarrow> is_queue w c \<and> friend_of w c = Some b"
  unfolding friends_ok_def by blast

lemma friends_ok_cong:
  "friend_of w' = friend_of w \<Longrightarrow> is_queue w' = is_queue w \<Longrightarrow> friends_ok w' \<longleftrightarrow> friends_ok w"
  by (simp add: friends_ok_def)

lemma unfriend_result:
  assumes "friends_ok w" and "is_queue w b"
  shows "oret (unfriend b w) (\<lambda>_ w'. friends_ok w' \<and> friend_of w' b = None)"
proof -
  obtain st where st: "state_at st_queue w b = Some st" using assms(2) by (auto simp: is_queue_def)
  then have fr: "friend_of w b = q_friend st" by (simp add: friend_of_def)
  show ?thesis
  proof (cases "q_friend st")
    case None
    then show ?thesis using assms st fr by (simp add: unfriend_def)
  next
    case (Some c)
    then have c: "is_queue w c" "friend_of w c = Some b" using friends_okD [OF assms(1), of b c] fr by simp_all
    then obtain ct where ct: "state_at st_queue w c = Some ct" by (auto simp: is_queue_def)
    have "friends_ok (set_friend b None (set_friend c None w))"
    proof (rule friends_okI)
      fix d e assume "friend_of (set_friend b None (set_friend c None w)) d = Some e"
      then have d: "friend_of w d = Some e" "d \<noteq> b" "d \<noteq> c"
        using assms(2) c by (auto split: if_splits)
      with friends_okD [OF assms(1) d(1)] fr Some c have "e \<noteq> b" "e \<noteq> c" by auto
      with friends_okD [OF assms(1) d(1)]
      show "is_queue (set_friend b None (set_friend c None w)) e \<and>
          friend_of (set_friend b None (set_friend c None w)) e = Some d" by simp
    qed
    then show ?thesis using assms(2) st ct Some by (simp add: unfriend_def)
  qed
qed

lemma empty_friends:
  "ores (empty x b w) (\<lambda>_ w'. friend_of w' = friend_of w \<and> is_queue w' = is_queue w)"
proof (cases "get_state st_queue b w")
  case (Ret st w1)
  have loop: "ores (ofold (\<lambda>(a, m) w. pg_packets_free x a m w) xs w) (\<lambda>_ w'. bricks w' = bricks w)" for xs
  proof (rule ores_ofold)
    fix p :: "arr \<times> u64" and w1 :: world assume w1: "bricks w1 = bricks w"
    obtain a m where p: "p = (a, m)" by (cases p)
    show "ores ((\<lambda>(a, m) w. pg_packets_free x a m w) p w1) (\<lambda>_ w'. bricks w' = bricks w)"
    proof (cases "pg_packets_free x a m w1")
      case (Ret u w2)
      then show ?thesis using packets_bricks(1) [OF Ret] by (simp add: p w1)
    qed (simp_all add: p)
  qed simp
  show ?thesis
  proof (cases "ofold (\<lambda>(a, m) w. pg_packets_free x a m w) (q_rx st) w")
    case (Ret u w2)
    then have "friend_of w2 = friend_of w \<and> is_queue w2 = is_queue w"
      using loop [of "q_rx st"] by (intro friends_data) simp
    then show ?thesis
      using Ret \<open>get_state st_queue b w = Ret st w1\<close> by (simp add: empty_def get_state_iff fun_eq_iff)
  qed (use Ret in \<open>simp_all add: empty_def get_state_iff\<close>)
qed (simp_all add: empty_def)

lemma friends_ok_pair:
  assumes "friends_ok w" and "is_queue w b" and "is_queue w c" and "friend_of w b = None" and "friend_of w c = None"
  shows "friends_ok (set_friend c (Some b) (set_friend b (Some c) w))"
proof (rule friends_okI)
  fix d e assume de: "friend_of (set_friend c (Some b) (set_friend b (Some c) w)) d = Some e"
  show "is_queue (set_friend c (Some b) (set_friend b (Some c) w)) e \<and>
      friend_of (set_friend c (Some b) (set_friend b (Some c) w)) e = Some d"
  proof (cases "d = b \<or> d = c")
    case False
    then have d: "friend_of w d = Some e" using de by (simp split: if_splits)
    with friends_okD [OF assms(1) d] assms(4,5) have "e \<noteq> b" "e \<noteq> c" by auto
    with friends_okD [OF assms(1) d] show ?thesis by simp
  qed (use de assms(2,3) in \<open>auto split: if_splits\<close>)
qed

lemma friends_ok_free:
  assumes "friends_ok w" and "friend_of w b = None"
  shows "friends_ok (free_brick b w)"
proof -
  have "state_at st_queue (free_brick b w) d = (if d = b then None else state_at st_queue w d)" for d
    by (simp add: state_at_def free_brick_def)
  then have "friend_of (free_brick b w) d = (if d = b then None else friend_of w d)"
    and "is_queue (free_brick b w) d \<longleftrightarrow> d \<noteq> b \<and> is_queue w d" for d
    by (simp_all add: friend_of_def is_queue_def)
  moreover have "friend_of w d \<noteq> Some b" for d
    using friends_okD [OF assms(1), of d b] assms(2) by auto
  ultimately show ?thesis
    using friends_okD [OF assms(1)] by (intro friends_okI) (metis option.distinct(1))
qed

text \<open>
  C19. Friendship between queues is symmetric and never dangles: making and ending it keep
  this, ending it always returns, and after a queue is destroyed no queue points to its
  freed memory.
\<close>

theorem queue_friends_symmetric:
  assumes "friends_ok w" and "is_queue w b" and "is_queue w c"
  shows "oret (pg_queue_friend b c w) (\<lambda>r w'. friends_ok w' \<and>
      (if friend_of w b = None \<and> friend_of w c = None
       then r = 0 \<and> friend_of w' b = Some c else r = -1 \<and> friend_of w' = friend_of w)) \<and>
    oret (pg_queue_unfriend b w) (\<lambda>_ w'. friends_ok w' \<and> friend_of w' b = None) \<and>
    ores (queue_destroy x b w) (\<lambda>_ w'. friends_ok (free_brick b w'))"
proof (intro conjI)
  obtain st ct where st: "state_at st_queue w b = Some st" "state_at st_queue w c = Some ct"
    using assms(2,3) by (auto simp: is_queue_def)
  then have fr: "friend_of w b = q_friend st" "friend_of w c = q_friend ct" by (simp_all add: friend_of_def)
  have err: "friends_ok (set_err e w) \<and> friend_of (set_err e w) = friend_of w" for e
    using assms(1) friends_data [of "set_err e w" w] friends_ok_cong [of "set_err e w" w]
    by (simp add: set_err_def)
  have nm: "\<exists>nm. pg_brick_name d w = Ret nm w" if "is_queue w d" for d
    using that by (auto simp: is_queue_def state_at_def pg_brick_name_def split: bind_splits)
  obtain nb nc where "pg_brick_name b w = Ret nb w" "pg_brick_name c w = Ret nc w"
    using nm assms(2,3) by blast
  moreover have "friends_ok (set_friend c (Some b) (set_friend b (Some c) w))"
    if "q_friend st = None" "q_friend ct = None"
    by (rule friends_ok_pair [OF assms]) (use fr that in simp_all)
  ultimately show "oret (pg_queue_friend b c w) (\<lambda>r w'. friends_ok w' \<and>
      (if friend_of w b = None \<and> friend_of w c = None
       then r = 0 \<and> friend_of w' b = Some c else r = -1 \<and> friend_of w' = friend_of w))"
    using st fr err assms(2)
    by (cases "q_friend st"; cases "q_friend ct") (simp_all add: pg_queue_friend_def)
  show "oret (pg_queue_unfriend b w) (\<lambda>_ w'. friends_ok w' \<and> friend_of w' b = None)"
    unfolding pg_queue_unfriend_def by (rule unfriend_result [OF assms(1,2)])
  obtain w1 where w1: "unfriend b w = Ret () w1" "friends_ok w1" "friend_of w1 b = None"
    using unfriend_result [OF assms(1,2)] by (auto simp: oret_iff)
  have "friends_ok (free_brick b w2)" if "empty x b w1 = Ret u w2" for u w2
    using empty_friends [of x b w1] that w1 friends_ok_free [of w2 b] friends_ok_cong [of w2 w1] by simp
  then show "ores (queue_destroy x b w) (\<lambda>_ w'. friends_ok (free_brick b w'))"
    by (cases "empty x b w1") (simp_all add: queue_destroy_def w1)
qed

theorem queue_friends_symmetric_witness:
  "oret (pg_queue_friend 0 1 (place 1 (P_queue demo_queue) (place 0 (P_queue demo_queue) demo_world)))
    (\<lambda>r w'. r = 0 \<and> friends_ok w' \<and> friend_of w' 0 = Some 1)"
proof -
  let ?w = "place 1 (P_queue demo_queue) (place 0 (P_queue demo_queue) demo_world)"
  have fr: "friend_of ?w b = None" for b by (simp add: friend_of_def demo_queue_def)
  then have "friends_ok ?w" by (simp add: friends_ok_def)
  moreover have "is_queue ?w 0" "is_queue ?w 1" by (simp_all add: is_queue_def)
  ultimately show ?thesis
    using queue_friends_symmetric [of ?w 0 1] fr by (auto simp: oret_iff)
qed

end
