(* ===== verification/PG_Rxtx.thy ===== *)
theory PG_Rxtx
  imports PG_Relay PG_Net
begin

text \<open>
  The rxtx brick, \<open>src/rxtx.c\<close>: packets that reach it go to the callback \<open>rx\<close> of the user,
  and packets that the callback \<open>tx\<close> writes are sent when the brick is polled. The arrays
  \<open>rx_burst\<close> and \<open>tx_burst\<close> belong to the brick. The callbacks are functions of \<open>ext\<close>.
\<close>

fun st_rxtx :: "priv \<Rightarrow> pg_rxtx_state option" where
  "st_rxtx (P_rxtx st) = Some st"
| "st_rxtx _ = None"

fun on_rxtx :: "(pg_rxtx_state \<Rightarrow> pg_rxtx_state) \<Rightarrow> priv \<Rightarrow> priv" where
  "on_rxtx f (P_rxtx st) = P_rxtx (f st)"
| "on_rxtx f p = p"

abbreviation rx_burst :: "nat \<Rightarrow> arr" where "rx_burst b \<equiv> Emb b 0"
abbreviation tx_burst :: "nat \<Rightarrow> arr" where "tx_burst b \<equiv> Emb b 1"

definition rxtx_config_new :: "string \<Rightarrow> nat option \<Rightarrow> nat option \<Rightarrow> nat \<Rightarrow> pg_brick_config" where
  "rxtx_config_new nm rx tx private_data =
     pg_brick_config_init (Some (C_rxtx private_data rx tx)) nm 1 1 PG_MONOPOLE"

definition rxtx_take :: "nat \<Rightarrow> arr \<Rightarrow> nat \<Rightarrow> nat \<Rightarrow> world \<Rightarrow> (nat, world) out" where
  "rxtx_take b pkts i cnt w =
     obind (get_pkts pkts w) (\<lambda>f w.
     obind (set_pkt (rx_burst b) cnt (f i) w) (\<lambda>_ w.
     obind (get_mbuf (f i) w) (\<lambda>m w.
     Ret (cnt + 1) (upd_priv b (on_rxtx (\<lambda>st.
       st\<lparr>rxtx_rx_bytes := rxtx_rx_bytes st + word_of_nat (pkt_len m)\<rparr>)) w))))"

definition rxtx_burst ::
    "ext \<Rightarrow> nat \<Rightarrow> pg_side \<Rightarrow> nat \<Rightarrow> arr \<Rightarrow> u64 \<Rightarrow> world \<Rightarrow> (int, world) out" where
  "rxtx_burst x b from edge_index pkts pkts_mask w =
     obind (get_state st_rxtx b w) (\<lambda>st w.
       case rxtx_rx st of None \<Rightarrow> Ret 0 w
       | Some rx \<Rightarrow>
           obind (oacc (rxtx_take b pkts) (pg_foreach_bit pkts_mask) 0 w) (\<lambda>cnt w.
           obind (get_pkts (rx_burst b) w) (\<lambda>f w.
           Ret 0 (w\<lparr>mst := x_rxtx_rx x rx b (map f [0..<cnt]) (rxtx_private_data st) (mst w)\<rparr>))))"

text \<open>The callback says how many packets of the array of 64 it wrote.\<close>

definition rxtx_guess :: "ext \<Rightarrow> nat \<Rightarrow> nat \<Rightarrow> world \<Rightarrow> (unit, world) out" where
  "rxtx_guess x b i w =
     (if 64 \<le> i then Abort ''read beyond tx_burst''
      else
        obind (get_pkts (tx_burst b) w) (\<lambda>f w.
        obind (pg_utils_guess_metadata x (f i) w) (\<lambda>_ w.
        obind (get_mbuf (f i) w) (\<lambda>m w.
        Ret () (upd_priv b (on_rxtx (\<lambda>st.
          st\<lparr>rxtx_tx_bytes := rxtx_tx_bytes st + word_of_nat (pkt_len m)\<rparr>)) w)))))"

definition rxtx_poll :: "ext \<Rightarrow> burster \<Rightarrow> nat \<Rightarrow> nat \<Rightarrow> world \<Rightarrow> (int \<times> nat, world) out" where
  "rxtx_poll x brst b pkts_cnt w =
     obind (get_state st_rxtx b w) (\<lambda>st w.
       case rxtx_tx st of None \<Rightarrow> Ret (0, 0) w
       | Some tx \<Rightarrow>
           obind (ofold (\<lambda>i w. obind (get_pkts (tx_burst b) w) (\<lambda>f w.
             Ret () (w\<lparr>mst := x_reset x (f i) (mst w)\<rparr>))) [0..<64] w) (\<lambda>_ w.
           obind (get_pkts (tx_burst b) w) (\<lambda>f w.
           obind (let (f, count, ms) = x_rxtx_tx x tx b f (rxtx_private_data st) (mst w) in
                  Ret count (w\<lparr>arrays := (arrays w)(tx_burst b \<mapsto> f), mst := ms\<rparr>)) (\<lambda>count w.
           if count = 0 then Ret (0, 0) w
           else
             obind (ofold (rxtx_guess x b) [0..<unat count] w) (\<lambda>_ w.
             obind (burst_edge brst b PG_WEST_SIDE (rxtx_output st) (tx_burst b)
                      (pg_mask_firsts (ucast count)) w) (\<lambda>ret w.
             Ret (ret, unat count) w))))))"

definition rxtx_init :: "ext \<Rightarrow> nat \<Rightarrow> pg_brick_config \<Rightarrow> world \<Rightarrow> (int, world) out" where
  "rxtx_init x b config w =
     (case brick_config config of
        Some (C_rxtx private_data rx tx) \<Rightarrow>
          obind (Ret () (upd_priv b (on_rxtx (\<lambda>st. st\<lparr>rxtx_rx := rx, rxtx_tx := tx,
            rxtx_private_data := private_data\<rparr>)) w)) (\<lambda>_ w.
          obind (Ret () (set_burst b rxtx_burst_fn w)) (\<lambda>_ w.
          if tx = None then Ret 0 w
          else
            obind (Ret () (set_poll b rxtx_poll_fn w)) (\<lambda>_ w.
            obind (let (r, ms) = x_alloc_bulk x 64 (mst w) in Ret r (w\<lparr>mst := ms\<rparr>)) (\<lambda>r w.
            case r of
              None \<Rightarrow> Ret (-1) (set_err (pg_error_new ''RXTX allocation failed'' []) w)
            | Some ps \<Rightarrow> Ret 0 (w\<lparr>arrays := (arrays w)(tx_burst b \<mapsto> (\<lambda>i. ps ! i))\<rparr>)))))
      | _ \<Rightarrow> Abort ''config of another brick'')"

definition rxtx_destroy :: "ext \<Rightarrow> nat \<Rightarrow> world \<Rightarrow> (unit, world) out" where
  "rxtx_destroy x b w =
     obind (get_state st_rxtx b w) (\<lambda>st w.
       if rxtx_tx st = None then Ret () w
       else ofold (\<lambda>i w. obind (get_pkts (tx_burst b) w) (\<lambda>f w.
         Ret () (w\<lparr>mst := x_free x (f i) (mst w)\<rparr>))) [0..<64] w)"

text \<open>The error of \<open>pg_brick_new\<close> is freed and only a null pointer is left of it.\<close>

definition pg_rxtx_new ::
    "brick_ops list \<Rightarrow> string \<Rightarrow> nat option \<Rightarrow> nat option \<Rightarrow> nat \<Rightarrow> world \<Rightarrow> (nat option, world) out" where
  "pg_rxtx_new reg nm rx tx private_data w =
     obind (pg_brick_new reg (Some ''rxtx'') (Some (rxtx_config_new nm rx tx private_data)) (w\<lparr>errp := None\<rparr>))
       (\<lambda>ret w'. Ret ret (w'\<lparr>errp := errp w\<rparr>))"

definition pg_rxtx_private_data :: "nat \<Rightarrow> world \<Rightarrow> (nat, world) out" where
  "pg_rxtx_private_data b w = obind (get_state st_rxtx b w) (\<lambda>st w. Ret (rxtx_private_data st) w)"

definition rxtx_link :: "priv \<Rightarrow> pg_side \<Rightarrow> nat \<Rightarrow> priv" where
  "rxtx_link p side edge_index = on_rxtx (\<lambda>st. st\<lparr>rxtx_output := pg_flip_side side\<rparr>) p"

fun rxtx_get_side :: "priv \<Rightarrow> pg_side" where
  "rxtx_get_side (P_rxtx st) = pg_flip_side (rxtx_output st)"
| "rxtx_get_side p = PG_WEST_SIDE"

fun rxtx_get_tx_bytes :: "priv \<Rightarrow> mstore \<Rightarrow> u64" where
  "rxtx_get_tx_bytes (P_rxtx st) ms = rxtx_tx_bytes st"
| "rxtx_get_tx_bytes p ms = 0"

fun rxtx_get_rx_bytes :: "priv \<Rightarrow> mstore \<Rightarrow> u64" where
  "rxtx_get_rx_bytes (P_rxtx st) ms = rxtx_rx_bytes st"
| "rxtx_get_rx_bytes p ms = 0"

definition rxtx_ops :: "ext \<Rightarrow> brick_ops" where
  "rxtx_ops x = base_ops\<lparr>op_name := ''rxtx'',
     op_zero := P_rxtx \<lparr>rxtx_output = PG_WEST_SIDE, rxtx_private_data = 0, rxtx_rx = None,
       rxtx_tx = None, rxtx_tx_bytes = 0, rxtx_rx_bytes = 0\<rparr>,
     op_init := rxtx_init x, op_destroy := Some (rxtx_destroy x), op_tx_bytes := Some rxtx_get_tx_bytes,
     op_rx_bytes := Some rxtx_get_rx_bytes, op_link_notify := Some rxtx_link,
     op_get_side := Some rxtx_get_side, op_unlink := True\<rparr>"

section \<open>Lemmas\<close>

lemma safe_step_rxtx [simp]:
  assumes "\<And>st. rxtx_output (f st) = rxtx_output st"
  shows "safe_step w (upd_priv b (on_rxtx f) w)"
proof (rule safe_step_priv)
  fix br show "priv_step (priv_state br) (on_rxtx f (priv_state br))"
    by (cases "priv_state br") (simp_all add: priv_step_def assms)
qed

lemma rxtx_init_safe: "safe w (rxtx_init x b c w)"
proof (cases "brick_config c")
  case (Some bc)
  show ?thesis
  proof (cases bc)
    case (C_rxtx d rx tx)
    show ?thesis
      unfolding rxtx_init_def Some C_rxtx option.case bconf.case by (intro safe_intros; simp)
  qed (simp_all add: rxtx_init_def Some)
qed (simp add: rxtx_init_def)

lemma rxtx_burst_safe: "safe w (rxtx_burst x b from i a m w)"
  unfolding rxtx_burst_def rxtx_take_def by (intro safe_intros; simp)

lemma rxtx_destroy_safe: "safe w (rxtx_destroy x b w)"
  unfolding rxtx_destroy_def by (intro safe_intros; simp)

context bursts
begin

lemma rxtx_poll_safe: "safe w (rxtx_poll x brst b c w)"
  unfolding rxtx_poll_def rxtx_guess_def by (intro safe_intros burst_edge_safe; simp add: safe_step_data)

end

end
