(* ===== verification/PG_Packetsgen.thy ===== *)
theory PG_Packetsgen
  imports PG_Relay
begin

text \<open>
  The packet generator, \<open>src/packetsgen.c\<close>: a poll clones the packets of the user's array into
  a temporary array, numbers the clones in \<open>udata64\<close> and sends them to the output side.
\<close>

fun st_packetsgen :: "priv \<Rightarrow> pg_packetsgen_state option" where
  "st_packetsgen (P_packetsgen st) = Some st"
| "st_packetsgen _ = None"

fun on_packetsgen :: "(pg_packetsgen_state \<Rightarrow> pg_packetsgen_state) \<Rightarrow> priv \<Rightarrow> priv" where
  "on_packetsgen f (P_packetsgen st) = P_packetsgen (f st)"
| "on_packetsgen f p = p"

definition packetsgen_burst ::
    "burster \<Rightarrow> nat \<Rightarrow> pg_side \<Rightarrow> nat \<Rightarrow> arr \<Rightarrow> u64 \<Rightarrow> world \<Rightarrow> (int, world) out" where
  "packetsgen_burst brst b s edge_index pkts pkts_mask w =
     pg_brick_side_forward brst b (pg_flip_side s) s pkts pkts_mask w"

definition packetsgen_clone :: "ext \<Rightarrow> arr \<Rightarrow> arr \<Rightarrow> nat \<Rightarrow> world \<Rightarrow> (unit, world) out" where
  "packetsgen_clone x packets pkts i w =
     obind (get_pkts packets w) (\<lambda>f w.
     obind (let (r, ms) = x_clone x (f i) (mst w) in Ret r (w\<lparr>mst := ms\<rparr>)) (\<lambda>r w.
     case r of None \<Rightarrow> Abort ''g_assert(pkts[i])''
     | Some p \<Rightarrow>
         obind (set_pkt pkts i p w) (\<lambda>_ w.
         Ret () (upd_mbuf p (\<lambda>m. m\<lparr>udata64 := word_of_nat i\<rparr>) w))))"

text \<open>\<open>pg_mask_firsts\<close> takes a byte, so \<open>packets_nb\<close> is cut to eight bits there.\<close>

definition packetsgen_poll :: "ext \<Rightarrow> burster \<Rightarrow> nat \<Rightarrow> nat \<Rightarrow> world \<Rightarrow> (int \<times> nat, world) out" where
  "packetsgen_poll x brst b pkts_cnt w =
     obind (get_state st_packetsgen b w) (\<lambda>st w.
     obind (new_array w) (\<lambda>pkts w.
     obind (ofold (packetsgen_clone x (pgen_packets st) pkts) [0..<pgen_packets_nb st] w) (\<lambda>_ w.
     let pkts_mask = pg_mask_firsts (word_of_nat (pgen_packets_nb st)) in
     obind (pg_brick_side_forward brst b (pgen_output st) (pg_flip_side (pgen_output st)) pkts pkts_mask w)
       (\<lambda>ret w.
     obind (pg_packets_free x pkts pkts_mask w) (\<lambda>_ w.
     Ret (ret, pgen_packets_nb st) (free_array pkts w))))))"

definition packetsgen_init :: "nat \<Rightarrow> pg_brick_config \<Rightarrow> world \<Rightarrow> (int, world) out" where
  "packetsgen_init b config w =
     (case brick_config config of
        None \<Rightarrow> Ret (-1) (set_err (pg_error_new ''config->brick_config is NULL'' []) w)
      | Some (C_packetsgen output packets packets_nb) \<Rightarrow>
          (case packets of
             None \<Rightarrow> Ret (-1) (set_err (pg_error_new ''packets argument is NULL'' []) w)
           | Some packets \<Rightarrow>
               if packets_nb = 0 then
                 Ret (-1) (set_err (pg_error_new ''packet number must be positive'' []) w)
               else
                 obind (Ret () (upd_priv b (on_packetsgen (\<lambda>st. st\<lparr>pgen_output := output,
                   pgen_packets := packets, pgen_packets_nb := packets_nb\<rparr>)) w)) (\<lambda>_ w.
                 if pg_error_is_set w then Ret (-1) w
                 else Ret 0 (set_poll b packetsgen_poll_fn (set_burst b packetsgen_burst_fn w))))
      | _ \<Rightarrow> Abort ''config of another brick'')"

definition packetsgen_config_new ::
    "string \<Rightarrow> nat \<Rightarrow> nat \<Rightarrow> arr option \<Rightarrow> nat \<Rightarrow> pg_side \<Rightarrow> pg_brick_config" where
  "packetsgen_config_new nm west_m east_m packets packets_nb output =
     pg_brick_config_init (Some (C_packetsgen output packets packets_nb)) nm west_m east_m PG_MULTIPOLE"

definition pg_packetsgen_new ::
    "brick_ops list \<Rightarrow> string \<Rightarrow> nat \<Rightarrow> nat \<Rightarrow> pg_side \<Rightarrow> arr option \<Rightarrow> nat \<Rightarrow> world \<Rightarrow> (nat option, world) out" where
  "pg_packetsgen_new reg nm west_m east_m output packets packets_nb w =
     pg_brick_new reg (Some ''packetsgen'')
       (Some (packetsgen_config_new nm west_m east_m packets packets_nb output)) w"

definition packetsgen_ops :: brick_ops where
  "packetsgen_ops = base_ops\<lparr>op_name := ''packetsgen'',
     op_zero := P_packetsgen \<lparr>pgen_output = PG_WEST_SIDE, pgen_packets = Arr 0, pgen_packets_nb = 0\<rparr>,
     op_init := packetsgen_init, op_unlink := True\<rparr>"

section \<open>Lemmas\<close>

lemma safe_step_packetsgen [simp]: "safe_step w (upd_priv b (on_packetsgen f) w)"
proof (rule safe_step_priv)
  fix br show "priv_step (priv_state br) (on_packetsgen f (priv_state br))"
    by (cases "priv_state br") (simp_all add: priv_step_def)
qed

lemma packetsgen_init_safe: "safe w (packetsgen_init b c w)"
  by (auto simp: packetsgen_init_def intro!: safe_step_handled split: option.splits bconf.splits)

lemma packetsgen_clone_safe: "safe w (packetsgen_clone x ps a i w)"
  unfolding packetsgen_clone_def by (intro safe_intros; simp)

context bursts
begin

lemma packetsgen_burst_safe: "safe w (packetsgen_burst brst b s i a m w)"
  unfolding packetsgen_burst_def by (rule side_forward_safe)

lemma packetsgen_poll_safe: "safe w (packetsgen_poll x brst b c w)"
  unfolding packetsgen_poll_def by (intro safe_intros side_forward_safe packetsgen_clone_safe; simp)

end

end
