(* ===== verification/PG_Switch.thy ===== *)
theory PG_Switch
  imports PG_Relay PG_Net
begin

text \<open>
  The switch, \<open>src/switch.c\<close>. Every port has an \<open>pg_address_source\<close>, and the MAC table maps an
  address to a pointer to one, here its side and index. A burst is handled in three steps:
  learn the source addresses and sort out filtered and multicast packets, look the
  destinations up and mark each packet in the masks of its ports, then send every mask.
  When memory for the table runs out, \<open>longjmp\<close> returns to the start of \<open>switch_burst\<close>, which
  frees the table and starts again with a new one; \<open>n\<close> bounds the number of such restarts.
\<close>

fun st_switch :: "priv \<Rightarrow> pg_switch_state option" where
  "st_switch (P_switch st) = Some st"
| "st_switch _ = None"

fun on_switch :: "(pg_switch_state \<Rightarrow> pg_switch_state) \<Rightarrow> priv \<Rightarrow> priv" where
  "on_switch f (P_switch st) = P_switch (f st)"
| "on_switch f p = p"

definition upd_masks :: "pg_side \<Rightarrow> (u64 list \<Rightarrow> u64 list) \<Rightarrow> pg_switch_state \<Rightarrow> pg_switch_state" where
  "upd_masks s f st =
     st\<lparr>sw_sides := (sw_sides st)(s := (sw_sides st s)\<lparr>sw_masks := f (sw_masks (sw_sides st s))\<rparr>)\<rparr>"

definition flood_side :: "nat \<Rightarrow> u64 \<Rightarrow> u64 list \<Rightarrow> u64 list" where
  "flood_side nb m ms = map (\<lambda>j. if j < nb then ms ! j OR m else ms ! j) [0..<length ms]"

definition flood :: "nat \<Rightarrow> u64 \<Rightarrow> world \<Rightarrow> (unit, world) out" where
  "flood b m w =
     (if m = 0 then Ret () w
      else obind (get_brick b w) (\<lambda>br w.
        Ret () (upd_priv b (on_switch (\<lambda>st.
          fold (\<lambda>i. upd_masks i (flood_side (side_nb (sides br i)) m)) pg_sides st)) w)))"

definition zero_masks :: "pg_switch_state \<Rightarrow> pg_switch_state" where
  "zero_masks st = fold (\<lambda>i. upd_masks i (\<lambda>ms. replicate (length ms) 0)) pg_sides st"

text \<open>One port of \<open>forward_bursts\<close>: \<open>forward\<close> and the test of its result.\<close>

definition switch_forward ::
    "burster \<Rightarrow> nat \<Rightarrow> arr \<Rightarrow> pg_side \<Rightarrow> nat \<Rightarrow> world \<Rightarrow> (int, world) out" where
  "switch_forward brst b pkts to index w =
     obind (get_brick b w) (\<lambda>br w.
     obind (get_state st_switch b w) (\<lambda>st w.
       if length (edges (sides br to)) \<le> index then Abort ''edge out of range''
       else
         let e = edges (sides br to) ! index; m = sw_masks (sw_sides st to) ! index in
         case link e of None \<Rightarrow> Ret 0 w
         | Some peer \<Rightarrow>
             if m = 0 then Ret 0 w
             else
               obind (Ret () (upd_priv b (on_switch (upd_masks to (\<lambda>ms. ms[index := 0]))) w)) (\<lambda>_ w.
               brst (Some peer) (pg_flip_side to) (pair_index e) pkts m w)))"

definition forward_side :: "burster \<Rightarrow> nat \<Rightarrow> arr \<Rightarrow> pg_side \<Rightarrow> world \<Rightarrow> (int option, world) out" where
  "forward_side brst b pkts i w =
     obind (get_brick b w) (\<lambda>br w.
       oloop (\<lambda>j w. obind (switch_forward brst b pkts i j w) (\<lambda>ret w.
         if ret < 0 then Ret (Some (-1)) w else Ret None w)) [0..<side_nb (sides br i)] w)"

definition forward_bursts ::
    "burster \<Rightarrow> nat \<Rightarrow> pg_side \<Rightarrow> nat \<Rightarrow> arr \<Rightarrow> world \<Rightarrow> (int, world) out" where
  "forward_bursts brst b from edge_index pkts w =
     obind (get_state st_switch b w) (\<lambda>st w.
     obind (Ret () (upd_priv b (on_switch (upd_masks from (\<lambda>ms. ms[edge_index := 0]))) w)) (\<lambda>_ w.
     obind (forward_side brst b pkts (sw_output st) w) (\<lambda>r w.
       case r of Some ret \<Rightarrow> Ret ret w
       | None \<Rightarrow> loop_result (forward_side brst b pkts (pg_flip_side (sw_output st)) w))))"

definition is_filtered :: "u8 list \<Rightarrow> bool" where
  "is_filtered a \<longleftrightarrow> a ! 0 = 0x01 \<and> a ! 1 = 0x80 \<and> a ! 2 = 0xC2 \<and> a ! 3 = 0x00 \<and> a ! 4 = 0x00 \<and> a ! 5 \<le> 0x0F"

text \<open>
  \<open>learn_addr\<close>. The result \<open>False\<close> is the jump to the start of \<open>switch_burst\<close>, which frees the
  table. A first half that is not in the table needs two allocations.
\<close>

definition set_table :: "nat \<Rightarrow> (pg_side \<times> nat) pg_mac_table \<Rightarrow> bool \<Rightarrow> world \<Rightarrow> world" where
  "set_table b tbl dead w = upd_priv b (on_switch (\<lambda>st. st\<lparr>sw_table := tbl, sw_is_table_dead := dead\<rparr>)) w"

definition learn_addr :: "ext \<Rightarrow> nat \<Rightarrow> u64 \<Rightarrow> pg_side \<times> nat \<Rightarrow> world \<Rightarrow> (bool, world) out" where
  "learn_addr x b key source w =
     obind (get_state st_switch b w) (\<lambda>st w.
       let n = malloc_cnt w;
           used = (if pg_mac_table_is_set (tbl_mask (sw_table st)) (pg_mac_table_part1 key) then 0
                   else if x_malloc_ok x n then 2 else 1) in
       case pg_mac_table_ptr_set (x_malloc_ok x n) (x_malloc_ok x (Suc n)) (sw_table st) key source of
         Ret True tbl \<Rightarrow> obind (Ret () (w\<lparr>malloc_cnt := n + used\<rparr>)) (\<lambda>_ w.
           Ret True (set_table b tbl (sw_is_table_dead st) w))
       | Ret False tbl \<Rightarrow> obind (Ret () (w\<lparr>malloc_cnt := n + used\<rparr>)) (\<lambda>_ w.
           Ret False (set_table b tbl True w))
       | Abort r \<Rightarrow> Abort r
       | Diverge \<Rightarrow> Diverge)"

definition sort_packet :: "ext \<Rightarrow> (nat \<Rightarrow> u8) \<Rightarrow> nat \<Rightarrow> u64 \<times> u64 \<Rightarrow> u64 \<times> u64" where
  "sort_packet x eth i masks =
     (if is_filtered (ether_dst eth) then (fst masks OR push_bit i 1, snd masks)
      else if x_is_multicast_ether x (ether_dst eth) then (fst masks, snd masks OR push_bit i 1)
      else masks)"

text \<open>The loop of \<open>do_learn_filter_multicast\<close>; \<open>None\<close> is the jump.\<close>

primrec learn_loop ::
    "ext \<Rightarrow> nat \<Rightarrow> pg_side \<times> nat \<Rightarrow> arr \<Rightarrow> nat list \<Rightarrow> u64 \<times> u64 \<Rightarrow> world \<Rightarrow>
     ((u64 \<times> u64) option, world) out" where
  "learn_loop x b source pkts [] masks w = Ret (Some masks) w"
| "learn_loop x b source pkts (i # is) masks w =
     obind (get_pkts pkts w) (\<lambda>f w.
     obind (mtod (f i) w) (\<lambda>eth w.
     obind (learn_addr x b (ld48 eth 6) source w) (\<lambda>ok w.
       if \<not> ok then Ret None w
       else learn_loop x b source pkts is (sort_packet x eth i masks) w)))"

definition do_learn_filter_multicast ::
    "ext \<Rightarrow> nat \<Rightarrow> pg_side \<times> nat \<Rightarrow> arr \<Rightarrow> u64 \<Rightarrow> world \<Rightarrow> (u64 option, world) out" where
  "do_learn_filter_multicast x b source pkts pkts_mask w =
     obind (learn_loop x b source pkts (pg_foreach_bit pkts_mask) (0, 0) w) (\<lambda>r w.
       case r of None \<Rightarrow> Ret None w
       | Some (filtered_mask, flood_mask) \<Rightarrow>
           obind (flood b flood_mask w) (\<lambda>_ w.
           Ret (Some (pkts_mask AND NOT filtered_mask AND NOT flood_mask)) w))"

definition mark_packet :: "nat \<Rightarrow> arr \<Rightarrow> nat \<Rightarrow> u64 \<Rightarrow> world \<Rightarrow> (u64, world) out" where
  "mark_packet b pkts i flood_mask w =
     obind (get_pkts pkts w) (\<lambda>f w.
     obind (mtod (f i) w) (\<lambda>eth w.
     obind (get_state st_switch b w) (\<lambda>st w.
       case pg_mac_table_ptr_get (sw_table st) (ld48 eth 0) of
         None \<Rightarrow> Ret (flood_mask OR push_bit i 1) w
       | Some (s, k) \<Rightarrow>
           let entry = sw_sources (sw_sides st s) ! k; to = src_from entry; j = src_edge_index entry in
           Ret flood_mask (upd_priv b (on_switch (upd_masks to (\<lambda>ms. ms[j := ms ! j OR push_bit i 1]))) w))))"

definition do_switch :: "nat \<Rightarrow> arr \<Rightarrow> u64 \<Rightarrow> world \<Rightarrow> (unit, world) out" where
  "do_switch b pkts pkts_mask w =
     obind (oacc (mark_packet b pkts) (pg_foreach_bit pkts_mask) 0 w) (\<lambda>flood_mask w. flood b flood_mask w)"

definition mac_table_no_mem :: "nat \<Rightarrow> world \<Rightarrow> (int, world) out" where
  "mac_table_no_mem b w =
     obind (get_brick b w) (\<lambda>br w.
       Ret (-1) (set_err (pg_error_new_errno 12 (''Failed to create hash for switch brick '%s'' @ [CHR 0x27]) [brick_name br]) w))"

definition new_table :: "ext \<Rightarrow> nat \<Rightarrow> world \<Rightarrow> (bool, world) out" where
  "new_table x b w =
     obind (Ret (malloc_cnt w) (w\<lparr>malloc_cnt := Suc (malloc_cnt w)\<rparr>)) (\<lambda>n w.
       case pg_mac_table_init (x_malloc_ok x n) True of
         None \<Rightarrow> Ret False w
       | Some tbl \<Rightarrow> Ret True (set_table b tbl False w))"

definition set_source :: "pg_side \<Rightarrow> nat \<Rightarrow> pg_switch_state \<Rightarrow> pg_switch_state" where
  "set_source s k st =
     st\<lparr>sw_sides := (sw_sides st)(s := (sw_sides st s)
        \<lparr>sw_sources := (sw_sources (sw_sides st s))[k := \<lparr>src_edge_index = k, src_from = s\<rparr>]\<rparr>)\<rparr>"

text \<open>\<open>switch_burst\<close> from the return of \<open>setjmp\<close> to the call of \<open>do_switch\<close>.\<close>

primrec switch_learn ::
    "nat \<Rightarrow> ext \<Rightarrow> nat \<Rightarrow> pg_side \<Rightarrow> nat \<Rightarrow> arr \<Rightarrow> u64 \<Rightarrow> world \<Rightarrow> (u64 option, world) out" where
  "switch_learn 0 x b from edge_index pkts pkts_mask w = Diverge"
| "switch_learn (Suc n) x b from edge_index pkts pkts_mask w =
     obind (get_state st_switch b w) (\<lambda>st w.
     obind (if sw_is_table_dead st then new_table x b w else Ret True w) (\<lambda>alive w.
       if \<not> alive then obind (mac_table_no_mem b w) (\<lambda>_ w. Ret None w)
       else if length (sw_sources (sw_sides st from)) \<le> edge_index then Abort ''port out of range''
       else
         obind (Ret () (upd_priv b (on_switch (set_source from edge_index)) w)) (\<lambda>_ w.
         obind (do_learn_filter_multicast x b (from, edge_index) pkts pkts_mask w) (\<lambda>r w.
           case r of None \<Rightarrow> switch_learn n x b from edge_index pkts pkts_mask w
           | Some unicast_mask \<Rightarrow> Ret (Some unicast_mask) w))))"

text \<open>\<open>switch_burst\<close> up to the call of \<open>forward_bursts\<close>.\<close>

definition switch_mark ::
    "nat \<Rightarrow> ext \<Rightarrow> nat \<Rightarrow> pg_side \<Rightarrow> nat \<Rightarrow> arr \<Rightarrow> u64 \<Rightarrow> world \<Rightarrow> (bool, world) out" where
  "switch_mark n x b from edge_index pkts pkts_mask w =
     obind (switch_learn n x b from edge_index pkts pkts_mask w) (\<lambda>r w.
       case r of None \<Rightarrow> Ret False w
       | Some unicast_mask \<Rightarrow> obind (do_switch b pkts unicast_mask w) (\<lambda>_ w. Ret True w))"

definition switch_burst ::
    "nat \<Rightarrow> ext \<Rightarrow> burster \<Rightarrow> nat \<Rightarrow> pg_side \<Rightarrow> nat \<Rightarrow> arr \<Rightarrow> u64 \<Rightarrow> world \<Rightarrow> (int, world) out" where
  "switch_burst n x brst b from edge_index pkts pkts_mask w =
     obind (switch_mark n x b from edge_index pkts pkts_mask w) (\<lambda>ok w.
       if ok then forward_bursts brst b from edge_index pkts w else Ret (-1) w)"

definition switch_init :: "ext \<Rightarrow> nat \<Rightarrow> pg_brick_config \<Rightarrow> world \<Rightarrow> (int, world) out" where
  "switch_init x b config w =
     obind (Ret () (set_burst b switch_burst_fn w)) (\<lambda>_ w.
     obind (new_table x b w) (\<lambda>ok w.
       if \<not> ok then mac_table_no_mem b w
       else
         obind (get_brick b w) (\<lambda>br w.
         case brick_config config of
           Some (C_switch output) \<Rightarrow>
             Ret 0 (upd_priv b (on_switch (\<lambda>st. (zero_masks (st\<lparr>sw_sides := (\<lambda>i.
               \<lparr>sw_sources = replicate (side_max (sides br i)) \<lparr>src_edge_index = 0, src_from = PG_WEST_SIDE\<rparr>,
                sw_masks = replicate (side_max (sides br i)) 0\<rparr>)\<rparr>))\<lparr>sw_output := output\<rparr>)) w)
         | _ \<Rightarrow> Abort ''config of another brick'')))"

definition pg_switch_config_new :: "string \<Rightarrow> nat \<Rightarrow> nat \<Rightarrow> pg_side \<Rightarrow> pg_brick_config" where
  "pg_switch_config_new nm west_m east_m output =
     pg_brick_config_init (Some (C_switch output)) nm west_m east_m PG_MULTIPOLE"

definition pg_switch_new ::
    "brick_ops list \<Rightarrow> string \<Rightarrow> nat \<Rightarrow> nat \<Rightarrow> pg_side \<Rightarrow> world \<Rightarrow> (nat option, world) out" where
  "pg_switch_new reg nm west_m east_m output w =
     pg_brick_new reg (Some ''switch'') (Some (pg_switch_config_new nm west_m east_m output)) w"

text \<open>The table is freed with its brick, whose memory goes next.\<close>

definition switch_destroy :: "nat \<Rightarrow> world \<Rightarrow> (unit, world) out" where
  "switch_destroy b w =
     obind (get_state st_switch b w) (\<lambda>st w.
       Ret () (upd_priv b (on_switch (\<lambda>st. st\<lparr>sw_sides := (\<lambda>_. \<lparr>sw_sources = [], sw_masks = []\<rparr>)\<rparr>)) w))"

text \<open>The loop of \<open>switch_unlink_notify\<close>: the iterator walks over the table it shrinks.\<close>

function switch_unlearn ::
    "(pg_side \<Rightarrow> pg_switch_side) \<Rightarrow> pg_side \<Rightarrow> nat \<Rightarrow> (pg_side \<times> nat) pg_mac_table \<Rightarrow>
     (pg_side \<times> nat) pg_mac_table_iterator \<Rightarrow> (pg_side \<times> nat) pg_mac_table" where
  "switch_unlearn sd side edge_index tbl it =
     (if pg_mac_table_iterator_is_end it then tbl
      else
        let tbl' = (case pg_mac_table_iterator_get it of None \<Rightarrow> tbl
              | Some (s, k) \<Rightarrow>
                  let src = sw_sources (sd s) ! k in
                  if src_from src = side \<and> src_edge_index src = edge_index
                  then snd (pg_mac_table_ptr_unset tbl (pg_mac_table_iterator_mk_key it)) else tbl)
        in switch_unlearn sd side edge_index tbl' (pg_mac_table_iterator_next tbl' it))"
  by pat_completeness auto
termination
  by (relation "measures
       [\<lambda>(sd, s, i, ma, it). if it_i it = 0xffffffff then 0 else Suc (PG_MAC_TABLE_MASK_SIZE - it_i it),
        \<lambda>(sd, s, i, ma, it). pg_mask_count (it_m0 it),
        \<lambda>(sd, s, i, ma, it). PG_MAC_TABLE_MASK_SIZE - it_j it,
        \<lambda>(sd, s, i, ma, it). pg_mask_count (it_m1 it)]")
     (auto simp: pg_mac_table_iterator_is_end_def pg_mac_table_iterator_next_def
       split: option.splits dest!: it_outer_progress)

declare switch_unlearn.simps [simp del]

definition switch_unlink_notify :: "nat \<Rightarrow> pg_side \<Rightarrow> nat \<Rightarrow> world \<Rightarrow> (unit, world) out" where
  "switch_unlink_notify b side edge_index w =
     obind (get_state st_switch b w) (\<lambda>st w.
       if sw_is_table_dead st then Ret () w
       else Ret () (set_table b (switch_unlearn (sw_sides st) side edge_index (sw_table st)
         (pg_mac_table_iterator_init (sw_table st))) False w))"

definition switch_ops :: "ext \<Rightarrow> brick_ops" where
  "switch_ops x = base_ops\<lparr>op_name := ''switch'',
     op_zero := P_switch \<lparr>sw_table = \<lparr>tbl_env = False, tbl_mask = (\<lambda>_. 0), tbl_ptrs = (\<lambda>_. None)\<rparr>,
       sw_is_table_dead = False, sw_output = PG_WEST_SIDE,
       sw_sides = (\<lambda>_. \<lparr>sw_sources = [], sw_masks = []\<rparr>)\<rparr>,
     op_init := switch_init x, op_destroy := Some switch_destroy, op_unlink := True,
     op_unlink_notify := Some switch_unlink_notify\<rparr>"

section \<open>The private state stays in order\<close>

lemma st_on_switch [simp]: "st_switch (on_switch f p) = map_option f (st_switch p)"
  by (cases p) simp_all

lemma upd_masks_simps [simp]:
  "sw_table (upd_masks s f st) = sw_table st" "sw_is_table_dead (upd_masks s f st) = sw_is_table_dead st"
  "sw_output (upd_masks s f st) = sw_output st"
  "sw_sources (sw_sides (upd_masks s f st) t) = sw_sources (sw_sides st t)"
  "sw_masks (sw_sides (upd_masks s f st) t) =
     (if t = s then f (sw_masks (sw_sides st t)) else sw_masks (sw_sides st t))"
  by (simp_all add: upd_masks_def)

lemma set_source_simps [simp]:
  "sw_table (set_source s k st) = sw_table st" "sw_is_table_dead (set_source s k st) = sw_is_table_dead st"
  "sw_masks (sw_sides (set_source s k st) t) = sw_masks (sw_sides st t)"
  by (simp_all add: set_source_def)

lemma fold_upd_masks [simp]:
  "sw_table (fold (\<lambda>i. upd_masks i (g i)) xs st) = sw_table st"
  "sw_is_table_dead (fold (\<lambda>i. upd_masks i (g i)) xs st) = sw_is_table_dead st"
  by (induction xs arbitrary: st) simp_all

lemma safe_step_switch [simp]:
  assumes "\<And>st. sw_table (f st) = sw_table st" and "\<And>st. sw_is_table_dead (f st) = sw_is_table_dead st"
  shows "safe_step w (upd_priv b (on_switch f) w)"
proof (rule safe_step_priv)
  fix br show "priv_step (priv_state br) (on_switch f (priv_state br))"
    by (cases "priv_state br") (simp_all add: priv_step_def assms)
qed

lemma safe_step_set_table:
  assumes "\<And>st. state_at st_switch w b = Some st \<Longrightarrow> sw_is_table_dead st \<or> mac_table_inv (sw_table st) \<Longrightarrow>
      dead \<or> mac_table_inv tbl"
  shows "safe_step w (set_table b tbl dead w)"
  unfolding set_table_def
proof (rule safe_step_priv)
  fix br assume "bricks w b = Some br"
  then show "priv_step (priv_state br)
      (on_switch (\<lambda>st. st\<lparr>sw_table := tbl, sw_is_table_dead := dead\<rparr>) (priv_state br))"
    using assms by (cases "priv_state br") (auto simp: priv_step_def state_at_def)
qed

lemma ptr_set_alloc:
  "pg_mac_table_ptr_set m1 m2 ma mac v = Ret True ma' \<Longrightarrow> pg_mac_table_ptr_set True True ma mac v = Ret True ma'"
  by (auto simp: pg_mac_table_ptr_set_def pg_mac_table_alloc_fail_exeption_def Let_def split: if_splits)

lemma ptr_set_inv:
  "mac_table_inv ma \<Longrightarrow> pg_mac_table_ptr_set m1 m2 ma mac v = Ret True ma' \<Longrightarrow> mac_table_inv ma'"
  using ptr_set_ok [of ma mac v] ptr_set_alloc [of m1 m2 ma mac v ma'] by auto

lemma learn_addr_safe: "safe w (learn_addr x b key src w)"
  unfolding learn_addr_def
proof (rule safe_obind' [OF safe_get_state], goal_cases)
  case (1 st w1)
  have at: "state_at st_switch (w1\<lparr>malloc_cnt := n\<rparr>) b = Some st" for n
    using 1 state_at_data [of "w1\<lparr>malloc_cnt := n\<rparr>" w1 st_switch] by (simp add: get_state_iff)
  have step: "safe_step w1 (set_table b tbl dead (w1\<lparr>malloc_cnt := n\<rparr>))"
    if "sw_is_table_dead st \<or> mac_table_inv (sw_table st) \<Longrightarrow> dead \<or> mac_table_inv tbl" for tbl dead n
    by (rule safe_step_trans [OF safe_step_fields(3) safe_step_set_table]) (use that at in auto)
  show ?case
  proof (cases "pg_mac_table_ptr_set (x_malloc_ok x (malloc_cnt w1)) (x_malloc_ok x (Suc (malloc_cnt w1)))
      (sw_table st) key src")
    case (Ret ok tbl)
    show ?thesis
    proof (cases ok)
      case True
      have "mac_table_inv (sw_table st) \<Longrightarrow> mac_table_inv tbl"
        by (rule ptr_set_inv [OF _ Ret [unfolded eqTrueI [OF True]]])
      then show ?thesis
        unfolding Let_def Ret out.case eqTrueI [OF True] bool.case obind.simps safe_Ret by (intro step) blast
    next
      case False
      show ?thesis
        unfolding Let_def Ret out.case False [THEN eq_False [THEN iffD2]] bool.case obind.simps safe_Ret by (intro step) simp
    qed
  qed (simp_all add: Let_def)
qed

lemma learn_loop_safe: "safe w (learn_loop x b src a is ms w)"
proof (induction "is" arbitrary: ms w)
  case (Cons i js)
  show ?case unfolding learn_loop.simps by (intro safe_intros learn_addr_safe Cons; simp)
qed simp

lemma flood_safe: "safe w (flood b m w)"
  unfolding flood_def by (intro safe_intros; simp)

lemma learn_filter_safe: "safe w (do_learn_filter_multicast x b src a m w)"
  unfolding do_learn_filter_multicast_def by (intro safe_intros learn_loop_safe flood_safe; simp)

lemma mark_packet_safe: "safe w (mark_packet b a i fm w)"
  unfolding mark_packet_def by (intro safe_intros; simp)

lemma do_switch_safe: "safe w (do_switch b a m w)"
  unfolding do_switch_def by (intro safe_intros mark_packet_safe flood_safe)

lemma no_mem_safe: "safe w (mac_table_no_mem b w)"
  unfolding mac_table_no_mem_def by (intro safe_intros; simp)

lemma new_table_safe: "safe w (new_table x b w)"
  unfolding new_table_def
  by (auto intro!: safe_step_trans [OF safe_step_fields(3) safe_step_set_table] dest: mac_table_init_inv
      split: option.splits)

lemma switch_learn_safe: "safe w (switch_learn n x b from i a m w)"
proof (induction n arbitrary: w)
  case (Suc n)
  show ?case
    unfolding switch_learn.simps
    by (intro safe_intros new_table_safe no_mem_safe learn_filter_safe Suc; simp)
qed simp

lemma switch_init_safe: "safe w (switch_init x b c w)"
  unfolding switch_init_def
  by (intro safe_intros new_table_safe no_mem_safe; simp add: zero_masks_def split: bconf.splits)

lemma switch_destroy_safe: "safe w (switch_destroy b w)"
  unfolding switch_destroy_def by (intro safe_intros; simp)

lemma unlearn_inv: "mac_table_inv tbl \<Longrightarrow> mac_table_inv (switch_unlearn sd s i tbl it)"
proof (induction sd s i tbl it rule: switch_unlearn.induct)
  case (1 sd s i tbl it)
  have "mac_table_inv (snd (pg_mac_table_ptr_unset tbl k))" for k
    using ptr_unset_ok [OF "1.prems", of k] by (simp add: mac_table_del_def)
  then show ?case
    using "1" by (subst switch_unlearn.simps) (auto simp: Let_def split: option.splits)
qed

lemma unlink_notify_result:
  assumes "state_at st_switch w b = Some st"
  shows "\<exists>w'. switch_unlink_notify b s i w = Ret () w' \<and> safe_step w w' \<and> errp w' = errp w"
proof (cases "sw_is_table_dead st")
  case False
  let ?w = "set_table b (switch_unlearn (sw_sides st) s i (sw_table st)
    (pg_mac_table_iterator_init (sw_table st))) False w"
  have "safe_step w ?w"
    by (rule safe_step_set_table) (use assms False unlearn_inv in auto)
  moreover have "errp ?w = errp w" by (simp add: set_table_def)
  ultimately show ?thesis
    using assms False by (simp add: switch_unlink_notify_def)
qed (use assms in \<open>simp add: switch_unlink_notify_def\<close>)

context bursts
begin

lemma switch_forward_safe: "safe w (switch_forward brst b a s j w)"
  unfolding switch_forward_def by (intro safe_intros burst_safe; simp)

lemma switch_burst_safe: "safe w (switch_burst n x brst b from i a m w)"
  unfolding switch_burst_def switch_mark_def forward_bursts_def forward_side_def
  by (intro safe_intros switch_learn_safe do_switch_safe switch_forward_safe; simp)

end

section \<open>Where a packet goes\<close>

text \<open>Two worlds that differ at most in the private states and the allocations made.\<close>

definition sw_same :: "nat \<Rightarrow> world \<Rightarrow> world \<Rightarrow> bool" where
  "sw_same b w w' \<longleftrightarrow> arrays w' = arrays w \<and> mst w' = mst w \<and>
     map_option sides (bricks w' b) = map_option sides (bricks w b)"

lemma sw_same_refl [simp]: "sw_same b w w"
  by (simp add: sw_same_def)

lemma sw_same_trans: "sw_same b w1 w2 \<Longrightarrow> sw_same b w2 w3 \<Longrightarrow> sw_same b w1 w3"
  by (simp add: sw_same_def)

lemma sw_same_upd [simp]:
  "sw_same b w (upd_priv b f w')  \<longleftrightarrow> sw_same b w w'" "sw_same b w (w'\<lparr>malloc_cnt := n\<rparr>) \<longleftrightarrow> sw_same b w w'"
  by (cases "bricks w' b"; simp add: sw_same_def upd_priv_def bricks_upd_brick; simp add: upd_brick_def)+

lemma sw_same_data: "sw_same b w w' \<Longrightarrow> pkt_data f w' = pkt_data f w"
  by (rule ext) (simp add: sw_same_def pkt_data_def split: option.splits)

lemma switch_at_upd [simp]:
  "state_at st_switch (upd_priv b (on_switch f) w) b = map_option f (state_at st_switch w b)"
  by (subst state_at_upd_priv [where g = f]) simp_all

lemma switch_at_malloc [simp]: "state_at prj (w\<lparr>malloc_cnt := n\<rparr>) b = state_at prj w b"
  by (simp add: state_at_def)

lemma learn_addr_ok:
  assumes "\<And>n. x_malloc_ok x n" and "state_at st_switch w b = Some st" and "mac_table_inv (sw_table st)"
  shows "\<exists>w'. learn_addr x b key src w = Ret True w' \<and> sw_same b w w' \<and>
    state_at st_switch w' b = Some (st\<lparr>sw_table := mac_table_put (sw_table st) key src\<rparr>)"
proof -
  obtain tbl where tbl: "pg_mac_table_ptr_set True True (sw_table st) key src = Ret True tbl"
    using ptr_set_ok [OF assms(3)] by blast
  show ?thesis
    using assms(1,2) tbl by (simp add: learn_addr_def Let_def set_table_def mac_table_put_def)
qed

lemma fold_put_inv: "mac_table_inv t \<Longrightarrow> mac_table_inv (fold (\<lambda>i t. mac_table_put t (g i) v) is t)"
  by (induction "is" arbitrary: t) (simp_all add: mac_table_put_ok)

lemma bit_one64: "bit (2 ^ i :: u64) k \<longleftrightarrow> k = i \<and> k < 64"
  by (auto simp: bit_exp_iff)

lemma sort_packet_bits:
  assumes "i < 64"
  shows "bit (fst (sort_packet x eth i ms)) k \<longleftrightarrow> bit (fst ms) k \<or> k = i \<and> is_filtered (ether_dst eth)"
    and "bit (snd (sort_packet x eth i ms)) k \<longleftrightarrow> bit (snd ms) k \<or>
      k = i \<and> \<not> is_filtered (ether_dst eth) \<and> x_is_multicast_ether x (ether_dst eth)"
  using assms by (auto simp: sort_packet_def bit_or_iff bit_one64)

lemma learn_loop_ok:
  assumes "\<And>n. x_malloc_ok x n" and "state_at st_switch w b = Some st" and "mac_table_inv (sw_table st)"
    and "arrays w a = Some f" and "\<forall>i \<in> set is. i < 64 \<and> mbufs (mst w) (f i) \<noteq> None"
  shows "\<exists>fil flo w'. learn_loop x b src a is (ms0, ms1) w = Ret (Some (fil, flo)) w' \<and> sw_same b w w' \<and>
    state_at st_switch w' b = Some (st\<lparr>sw_table :=
      fold (\<lambda>i t. mac_table_put t (ld48 (pkt_data f w i) 6) src) is (sw_table st)\<rparr>) \<and>
    (\<forall>k. bit fil k \<longleftrightarrow> bit ms0 k \<or> (k \<in> set is \<and> is_filtered (ether_dst (pkt_data f w k)))) \<and>
    (\<forall>k. bit flo k \<longleftrightarrow> bit ms1 k \<or> (k \<in> set is \<and> \<not> is_filtered (ether_dst (pkt_data f w k)) \<and>
       x_is_multicast_ether x (ether_dst (pkt_data f w k))))"
  using assms(2-5)
proof (induction "is" arbitrary: w st ms0 ms1)
  case (Cons i js)
  let ?eth = "pkt_data f w i"
  let ?m = "sort_packet x ?eth i (ms0, ms1)"
  obtain w1 where w1: "learn_addr x b (ld48 ?eth 6) src w = Ret True w1" "sw_same b w w1"
      "state_at st_switch w1 b = Some (st\<lparr>sw_table := mac_table_put (sw_table st) (ld48 ?eth 6) src\<rparr>)"
    using learn_addr_ok [OF assms(1) Cons.prems(1,2)] by blast
  have same: "arrays w1 a = Some f" "pkt_data f w1 = pkt_data f w"
      "\<forall>i \<in> set js. i < 64 \<and> mbufs (mst w1) (f i) \<noteq> None" "i < 64"
    using Cons.prems w1(2) sw_same_data [OF w1(2)] by (simp_all add: sw_same_def)
  obtain fil flo w2 where w2: "learn_loop x b src a js ?m w1 = Ret (Some (fil, flo)) w2" "sw_same b w1 w2"
      "state_at st_switch w2 b = Some (st\<lparr>sw_table := fold (\<lambda>i t. mac_table_put t (ld48 (pkt_data f w i) 6) src) js
        (mac_table_put (sw_table st) (ld48 ?eth 6) src)\<rparr>)"
    and bits: "\<And>k. bit fil k \<longleftrightarrow> bit (fst ?m) k \<or> (k \<in> set js \<and> is_filtered (ether_dst (pkt_data f w k)))"
      "\<And>k. bit flo k \<longleftrightarrow> bit (snd ?m) k \<or> (k \<in> set js \<and> \<not> is_filtered (ether_dst (pkt_data f w k)) \<and>
        x_is_multicast_ether x (ether_dst (pkt_data f w k)))"
    using Cons.IH [OF w1(3) _ same(1) same(3), of "fst ?m" "snd ?m"] Cons.prems(2)
    unfolding prod.collapse same(2) by (auto simp: mac_table_put_ok)
  have "learn_loop x b src a (i # js) (ms0, ms1) w = Ret (Some (fil, flo)) w2"
    using Cons.prems w1(1) w2(1) by (simp add: mtod_pkt_data)
  moreover have "sw_same b w w2" using w1(2) w2(2) by (rule sw_same_trans)
  moreover have "bit fil k \<longleftrightarrow> bit ms0 k \<or> (k \<in> set (i # js) \<and> is_filtered (ether_dst (pkt_data f w k)))" for k
    using bits(1) [of k] same(4) by (auto simp: sort_packet_bits)
  moreover have "bit flo k \<longleftrightarrow> bit ms1 k \<or> (k \<in> set (i # js) \<and> \<not> is_filtered (ether_dst (pkt_data f w k)) \<and>
      x_is_multicast_ether x (ether_dst (pkt_data f w k)))" for k
    using bits(2) [of k] same(4) by (auto simp: sort_packet_bits)
  ultimately show ?case using w2(3) by auto
qed (simp add: prod_eq_iff)

text \<open>A learned address points to the source of a port, which says where the port is.\<close>

definition sources_ok :: "pg_switch_state \<Rightarrow> bool" where
  "sources_ok st \<longleftrightarrow> (\<forall>key s k. mac_lookup (sw_table st) key = Some (s, k) \<longrightarrow>
     k < length (sw_sources (sw_sides st s)) \<and>
     sw_sources (sw_sides st s) ! k = \<lparr>src_edge_index = k, src_from = s\<rparr>)"

definition port_bit :: "pg_switch_state \<Rightarrow> pg_side \<Rightarrow> nat \<Rightarrow> nat \<Rightarrow> bool" where
  "port_bit st s j i \<longleftrightarrow> bit (sw_masks (sw_sides st s) ! j) i"

definition num_ports :: "pg_switch_state \<Rightarrow> pg_side \<Rightarrow> nat" where
  "num_ports st s = length (sw_masks (sw_sides st s))"

lemma ports_set_source [simp]:
  "num_ports (set_source s k st\<lparr>sw_table := t\<rparr>) = num_ports st"
  "port_bit (set_source s k st\<lparr>sw_table := t\<rparr>) = port_bit st"
  by (simp_all add: num_ports_def port_bit_def fun_eq_iff)

lemma mark_loop_ok:
  assumes "state_at st_switch w b = Some st" and "sources_ok st"
    and "arrays w a = Some f" and "\<forall>i \<in> set is. i < 64 \<and> mbufs (mst w) (f i) \<noteq> None"
  shows "\<exists>fm' w' st'. oacc (mark_packet b a) is fm w = Ret fm' w' \<and> sw_same b w w' \<and>
    state_at st_switch w' b = Some st' \<and> sw_table st' = sw_table st \<and> num_ports st' = num_ports st \<and>
    (\<forall>k. bit fm' k \<longleftrightarrow> bit fm k \<or> (k \<in> set is \<and> pg_mac_table_ptr_get (sw_table st) (ld48 (pkt_data f w k) 0) = None)) \<and>
    (\<forall>s j k. j < num_ports st s \<longrightarrow> (port_bit st' s j k \<longleftrightarrow> port_bit st s j k \<or>
       (k \<in> set is \<and> pg_mac_table_ptr_get (sw_table st) (ld48 (pkt_data f w k) 0) = Some (s, j))))"
  using assms
proof (induction "is" arbitrary: w st fm)
  case (Cons i js)
  let ?dst = "\<lambda>k. pg_mac_table_ptr_get (sw_table st) (ld48 (pkt_data f w k) 0)"
  have i: "i < 64" using Cons.prems(4) by simp
  show ?case
  proof (cases "?dst i")
    case None
    obtain fm' w' st' where IH: "oacc (mark_packet b a) js (fm OR push_bit i 1) w = Ret fm' w'" "sw_same b w w'"
        "state_at st_switch w' b = Some st'" "sw_table st' = sw_table st" "num_ports st' = num_ports st"
        "\<forall>k. bit fm' k \<longleftrightarrow> bit (fm OR push_bit i 1) k \<or> (k \<in> set js \<and> ?dst k = None)"
        "\<forall>s j k. j < num_ports st s \<longrightarrow>
          (port_bit st' s j k \<longleftrightarrow> port_bit st s j k \<or> (k \<in> set js \<and> ?dst k = Some (s, j)))"
      using Cons.IH [OF Cons.prems(1-3), of "fm OR push_bit i 1"] Cons.prems(4) by auto
    have "mark_packet b a i fm w = Ret (fm OR push_bit i 1) w"
      using Cons.prems None by (simp add: mark_packet_def mtod_pkt_data)
    then have "oacc (mark_packet b a) (i # js) fm w = Ret fm' w'" using IH(1) by (simp only: oacc.simps obind.simps)
    moreover have "\<forall>k. bit fm' k \<longleftrightarrow> bit fm k \<or> (k \<in> set (i # js) \<and> ?dst k = None)"
      using IH(6) i None by (auto simp: bit_or_iff bit_one64)
    moreover have "\<forall>s j k. j < num_ports st s \<longrightarrow>
          (port_bit st' s j k \<longleftrightarrow> port_bit st s j k \<or> (k \<in> set (i # js) \<and> ?dst k = Some (s, j)))"
      using IH(7) None by (metis list.set_intros(2) option.distinct(1) set_ConsD)
    ultimately show ?thesis using IH(2-5) by blast
  next
    case (Some p)
    obtain s0 j0 where p: "p = (s0, j0)" by (cases p)
    have src: "sw_sources (sw_sides st s0) ! j0 = \<lparr>src_edge_index = j0, src_from = s0\<rparr>"
      using Cons.prems(2) Some p unfolding sources_ok_def ptr_get_lookup by blast
    let ?st = "upd_masks s0 (\<lambda>ms. ms[j0 := ms ! j0 OR push_bit i 1]) st"
    let ?w = "upd_priv b (on_switch (upd_masks s0 (\<lambda>ms. ms[j0 := ms ! j0 OR push_bit i 1]))) w"
    have step: "mark_packet b a i fm w = Ret fm ?w"
      using Cons.prems Some p src by (simp add: mark_packet_def mtod_pkt_data)
    have same: "sw_same b w ?w" by simp
    have st: "state_at st_switch ?w b = Some ?st" using Cons.prems(1) by simp
    have "sources_ok ?st" using Cons.prems(2) by (simp add: sources_ok_def)
    then obtain fm' w' st' where IH: "oacc (mark_packet b a) js fm ?w = Ret fm' w'" "sw_same b ?w w'"
        "state_at st_switch w' b = Some st'" "sw_table st' = sw_table st" "num_ports st' = num_ports ?st"
        "\<forall>k. bit fm' k \<longleftrightarrow> bit fm k \<or> (k \<in> set js \<and> ?dst k = None)"
        "\<forall>s j k. j < num_ports ?st s \<longrightarrow>
          (port_bit st' s j k \<longleftrightarrow> port_bit ?st s j k \<or> (k \<in> set js \<and> ?dst k = Some (s, j)))"
      using Cons.IH [OF st, of fm] Cons.prems(3,4) sw_same_data [OF same, of f] by auto
    have nb: "num_ports ?st = num_ports st" by (simp add: num_ports_def fun_eq_iff)
    have bit: "port_bit ?st s j k \<longleftrightarrow> port_bit st s j k \<or> (k = i \<and> (s0, j0) = (s, j))"
      if "j < num_ports st s" for s j k
      using that i by (cases "j = j0") (auto simp: port_bit_def num_ports_def bit_or_iff bit_one64)
    have "\<forall>k. bit fm' k \<longleftrightarrow> bit fm k \<or> (k \<in> set (i # js) \<and> ?dst k = None)"
      using IH(6) Some by (metis list.set_intros(2) option.distinct(1) set_ConsD)
    moreover have "oacc (mark_packet b a) (i # js) fm w = Ret fm' w'"
      using step IH(1) by (simp only: oacc.simps obind.simps)
    moreover have "\<forall>s j k. j < num_ports st s \<longrightarrow>
          (port_bit st' s j k \<longleftrightarrow> port_bit st s j k \<or> (k \<in> set (i # js) \<and> ?dst k = Some (s, j)))"
    proof (intro allI impI)
      fix s j k assume j: "j < num_ports st s"
      have "port_bit st' s j k \<longleftrightarrow> port_bit ?st s j k \<or> (k \<in> set js \<and> ?dst k = Some (s, j))"
        using IH(7) j unfolding nb by blast
      then show "port_bit st' s j k \<longleftrightarrow> port_bit st s j k \<or> (k \<in> set (i # js) \<and> ?dst k = Some (s, j))"
        using bit [OF j, of k] Some unfolding p by (cases "k = i") auto
    qed
    ultimately show ?thesis
      using IH(3-5) sw_same_trans [OF same IH(2)] unfolding nb by blast
  qed
qed simp

lemma flood_ok:
  assumes "state_at st_switch w b = Some st" and "map_option sides (bricks w b) = Some sd"
  shows "\<exists>w' st'. flood b m w = Ret () w' \<and> sw_same b w w' \<and> state_at st_switch w' b = Some st' \<and>
    sw_table st' = sw_table st \<and> sw_sources \<circ> sw_sides st' = sw_sources \<circ> sw_sides st \<and>
    num_ports st' = num_ports st \<and>
    (\<forall>s j k. j < num_ports st s \<longrightarrow> (port_bit st' s j k \<longleftrightarrow> port_bit st s j k \<or> (j < side_nb (sd s) \<and> bit m k)))"
proof (cases "m = 0")
  case False
  obtain br where br: "bricks w b = Some br" "sides br = sd" using assms(2) by auto
  let ?st = "fold (\<lambda>i. upd_masks i (flood_side (side_nb (sd i)) m)) pg_sides st"
  have masks: "sw_masks (sw_sides ?st s) = flood_side (side_nb (sd s)) m (sw_masks (sw_sides st s))" for s
    by (cases s) (simp_all add: pg_sides_def)
  have "flood b m w = Ret () (upd_priv b (on_switch (\<lambda>st.
      fold (\<lambda>i. upd_masks i (flood_side (side_nb (sd i)) m)) pg_sides st)) w)"
    using False br by (simp add: flood_def)
  moreover have "num_ports ?st = num_ports st"
    by (simp add: num_ports_def masks flood_side_def fun_eq_iff)
  moreover have "\<forall>s j k. j < num_ports st s \<longrightarrow>
      (port_bit ?st s j k \<longleftrightarrow> port_bit st s j k \<or> (j < side_nb (sd s) \<and> bit m k))"
    by (auto simp: port_bit_def num_ports_def masks flood_side_def bit_or_iff)
  moreover have "sw_sources \<circ> sw_sides ?st = sw_sources \<circ> sw_sides st"
    by (simp add: fun_eq_iff pg_sides_def)
  ultimately show ?thesis using assms(1) by simp
qed (use assms in \<open>auto simp: flood_def\<close>)

lemma lookup_fold_put:
  assumes "mac_table_inv t" and "mac_lookup (fold (\<lambda>i t. mac_table_put t (g i) v) is t) key = Some p"
  shows "p = v \<or> mac_lookup t key = Some p"
  using assms
proof (induction "is" arbitrary: t)
  case (Cons i js)
  then show ?case
    using Cons.IH [of "mac_table_put t (g i) v"] mac_table_put_ok [OF Cons.prems(1), of "g i" v]
    by (auto split: if_splits)
qed simp

lemma set_source_sources:
  "k < length (sw_sources (sw_sides st s)) \<Longrightarrow> sources_ok st \<Longrightarrow>
   sw_table st' = fold (\<lambda>i t. mac_table_put t (g i) (s, k)) is (sw_table st) \<Longrightarrow>
   sw_sources \<circ> sw_sides st' = sw_sources \<circ> sw_sides (set_source s k st) \<Longrightarrow> mac_table_inv (sw_table st) \<Longrightarrow>
   sources_ok st'"
proof -
  assume k: "k < length (sw_sources (sw_sides st s))" and ok: "sources_ok st"
    and tbl: "sw_table st' = fold (\<lambda>i t. mac_table_put t (g i) (s, k)) is (sw_table st)"
    and src: "sw_sources \<circ> sw_sides st' = sw_sources \<circ> sw_sides (set_source s k st)"
    and inv: "mac_table_inv (sw_table st)"
  have src': "sw_sources (sw_sides st' t) = (if t = s
      then (sw_sources (sw_sides st s))[k := \<lparr>src_edge_index = k, src_from = s\<rparr>] else sw_sources (sw_sides st t))" for t
    using fun_cong [OF src, of t] by (simp add: set_source_def)
  have "j < length (sw_sources (sw_sides st' t)) \<and>
      sw_sources (sw_sides st' t) ! j = \<lparr>src_edge_index = j, src_from = t\<rparr>"
    if l: "mac_lookup (sw_table st') key = Some (t, j)" for key t j
  proof -
    have "(t, j) = (s, k) \<or> mac_lookup (sw_table st) key = Some (t, j)"
      using lookup_fold_put [OF inv] l tbl by metis
    then show ?thesis
    proof
      assume "(t, j) = (s, k)"
      then show ?thesis using k by (simp add: src')
    next
      assume "mac_lookup (sw_table st) key = Some (t, j)"
      then have "j < length (sw_sources (sw_sides st t)) \<and>
          sw_sources (sw_sides st t) ! j = \<lparr>src_edge_index = j, src_from = t\<rparr>"
        using ok unfolding sources_ok_def by blast
      then show ?thesis by (cases "t = s"; cases "j = k") (auto simp: src')
    qed
  qed
  then show "sources_ok st'" unfolding sources_ok_def by blast
qed

text \<open>Where packet \<open>i\<close> of a burst has to go: the ports that its destination asks for.\<close>

definition switch_port ::
    "ext \<Rightarrow> (pg_side \<times> nat) pg_mac_table \<Rightarrow> (pg_side \<Rightarrow> pg_brick_side) \<Rightarrow> (nat \<Rightarrow> u8) \<Rightarrow> pg_side \<Rightarrow> nat \<Rightarrow> bool" where
  "switch_port x tbl sd eth s j \<longleftrightarrow>
     \<not> is_filtered (ether_dst eth) \<and>
     (if x_is_multicast_ether x (ether_dst eth) then j < side_nb (sd s)
      else case pg_mac_table_ptr_get tbl (ld48 eth 0) of
        None \<Rightarrow> j < side_nb (sd s) | Some p \<Rightarrow> p = (s, j))"

text \<open>The first half of a burst: sources are learned and multicast packets are flooded.\<close>

lemma switch_learn_ok:
  assumes "\<And>n. x_malloc_ok x n" and "state_at st_switch w b = Some st" and "\<not> sw_is_table_dead st"
    and "mac_table_inv (sw_table st)" and "sources_ok st" and "map_option sides (bricks w b) = Some sd"
    and "i < length (sw_sources (sw_sides st from))"
    and "arrays w a = Some f" and mb: "\<forall>k \<in> set (pg_foreach_bit m). k < 64 \<and> mbufs (mst w) (f k) \<noteq> None"
  shows "\<exists>uni w' st'. switch_learn (Suc n) x b from i a m w = Ret (Some uni) w' \<and> sw_same b w w' \<and>
    state_at st_switch w' b = Some st' \<and> sources_ok st' \<and> num_ports st' = num_ports st \<and>
    sw_table st' = fold (\<lambda>k t. mac_table_put t (ld48 (pkt_data f w k) 6) (from, i)) (pg_foreach_bit m) (sw_table st) \<and>
    (\<forall>k. bit uni k \<longleftrightarrow> bit m k \<and> \<not> is_filtered (ether_dst (pkt_data f w k)) \<and>
       \<not> x_is_multicast_ether x (ether_dst (pkt_data f w k))) \<and>
    (\<forall>s j k. j < num_ports st s \<longrightarrow> (port_bit st' s j k \<longleftrightarrow> port_bit st s j k \<or> j < side_nb (sd s) \<and> bit m k \<and>
       \<not> is_filtered (ether_dst (pkt_data f w k)) \<and> x_is_multicast_ether x (ether_dst (pkt_data f w k))))"
proof -
  let ?st = "set_source from i st"
  let ?w = "upd_priv b (on_switch (set_source from i)) w"
  let ?tbl = "fold (\<lambda>k t. mac_table_put t (ld48 (pkt_data f w k) 6) (from, i)) (pg_foreach_bit m) (sw_table st)"
  have at: "state_at st_switch ?w b = Some ?st" using assms(2) by simp
  have inv: "mac_table_inv (sw_table ?st)" using assms(4) by simp
  have arr: "arrays ?w a = Some f" using assms(8) by simp
  have same: "sw_same b w ?w" by simp
  have data: "pkt_data f ?w = pkt_data f w" by (rule sw_same_data [OF same])
  have mb': "\<forall>k \<in> set (pg_foreach_bit m). k < 64 \<and> mbufs (mst ?w) (f k) \<noteq> None" using mb by simp
  obtain fil flo w1 where l: "learn_loop x b (from, i) a (pg_foreach_bit m) (0, 0) ?w = Ret (Some (fil, flo)) w1"
      "sw_same b ?w w1" "state_at st_switch w1 b = Some (?st\<lparr>sw_table := ?tbl\<rparr>)"
      "\<And>k. bit fil k \<longleftrightarrow> bit m k \<and> is_filtered (ether_dst (pkt_data f w k))"
      "\<And>k. bit flo k \<longleftrightarrow> bit m k \<and> \<not> is_filtered (ether_dst (pkt_data f w k)) \<and>
         x_is_multicast_ether x (ether_dst (pkt_data f w k))"
    using learn_loop_ok [OF assms(1) at inv arr mb', of "(from, i)" 0 0] by (auto simp: set_pg_foreach_bit data)
  have s1: "sw_same b w w1" using same l(2) by (rule sw_same_trans)
  have sd1: "map_option sides (bricks w1 b) = Some sd" using s1 assms(6) by (simp add: sw_same_def)
  obtain w2 st2 where f2: "flood b flo w1 = Ret () w2" "sw_same b w1 w2" "state_at st_switch w2 b = Some st2"
      "sw_table st2 = ?tbl" "sw_sources \<circ> sw_sides st2 = sw_sources \<circ> sw_sides ?st" "num_ports st2 = num_ports st"
      "\<And>s j k. j < num_ports st s \<Longrightarrow> port_bit st2 s j k \<longleftrightarrow> port_bit st s j k \<or> (j < side_nb (sd s) \<and> bit flo k)"
    using flood_ok [OF l(3) sd1, of flo] by auto
  let ?uni = "m AND NOT fil AND NOT flo"
  have "switch_learn (Suc n) x b from i a m w = Ret (Some ?uni) w2"
    using assms(2,3,7) l(1) f2(1) by (simp add: do_learn_filter_multicast_def)
  moreover have "sources_ok st2"
    by (rule set_source_sources [OF assms(7,5) f2(4) _ assms(4)]) (use f2(5) in simp)
  moreover have "bit ?uni k \<longleftrightarrow> bit m k \<and> \<not> bit fil k \<and> \<not> bit flo k" for k
    by (auto simp: bit_and_iff bit_not_iff dest: bit64_less)
  ultimately show ?thesis
    using f2(3,4,6,7) sw_same_trans [OF s1 f2(2)] l(4,5) by (intro exI [of _ ?uni] exI [of _ w2] exI [of _ st2]) auto
qed

text \<open>The second half: the other packets go to the port of their destination, or everywhere.\<close>

lemma do_switch_ok:
  assumes "state_at st_switch w b = Some st" and "sources_ok st" and "map_option sides (bricks w b) = Some sd"
    and "arrays w a = Some f" and "\<forall>k \<in> set (pg_foreach_bit m). k < 64 \<and> mbufs (mst w) (f k) \<noteq> None"
  shows "\<exists>w' st'. do_switch b a m w = Ret () w' \<and> sw_same b w w' \<and> state_at st_switch w' b = Some st' \<and>
    sw_table st' = sw_table st \<and>
    (\<forall>s j k. j < num_ports st s \<longrightarrow> (port_bit st' s j k \<longleftrightarrow> port_bit st s j k \<or> bit m k \<and>
       (case pg_mac_table_ptr_get (sw_table st) (ld48 (pkt_data f w k) 0) of
          None \<Rightarrow> j < side_nb (sd s) | Some p \<Rightarrow> p = (s, j))))"
proof -
  obtain fm w3 st3 where m3: "oacc (mark_packet b a) (pg_foreach_bit m) 0 w = Ret fm w3" "sw_same b w w3"
      "state_at st_switch w3 b = Some st3" "sw_table st3 = sw_table st" "num_ports st3 = num_ports st"
      "\<And>k. bit fm k \<longleftrightarrow> bit m k \<and> pg_mac_table_ptr_get (sw_table st) (ld48 (pkt_data f w k) 0) = None"
      "\<And>s j k. j < num_ports st s \<Longrightarrow> (port_bit st3 s j k \<longleftrightarrow> port_bit st s j k \<or>
         (bit m k \<and> pg_mac_table_ptr_get (sw_table st) (ld48 (pkt_data f w k) 0) = Some (s, j)))"
    using mark_loop_ok [OF assms(1,2,4,5), of 0] by (auto simp: set_pg_foreach_bit)
  have sd3: "map_option sides (bricks w3 b) = Some sd" using m3(2) assms(3) by (simp add: sw_same_def)
  obtain w4 st4 where f4: "flood b fm w3 = Ret () w4" "sw_same b w3 w4" "state_at st_switch w4 b = Some st4"
      "sw_table st4 = sw_table st"
      "\<And>s j k. j < num_ports st s \<Longrightarrow> port_bit st4 s j k \<longleftrightarrow> port_bit st3 s j k \<or> (j < side_nb (sd s) \<and> bit fm k)"
    using flood_ok [OF m3(3) sd3, of fm] by (auto simp: m3(4,5))
  have "do_switch b a m w = Ret () w4" using m3(1) f4(1) by (simp add: do_switch_def)
  moreover have "port_bit st4 s j k \<longleftrightarrow> port_bit st s j k \<or> bit m k \<and>
      (case pg_mac_table_ptr_get (sw_table st) (ld48 (pkt_data f w k) 0) of
         None \<Rightarrow> j < side_nb (sd s) | Some p \<Rightarrow> p = (s, j))" if "j < num_ports st s" for s j k
    using f4(5) [OF that] m3(7) [OF that] m3(6) [of k] by (auto split: option.splits)
  ultimately show ?thesis using f4(3,4) sw_same_trans [OF m3(2) f4(2)] by blast
qed

text \<open>
  C17. The switch learns and forwards by MAC address. When memory does not run out, a burst
  is sorted in one pass: every source address of the burst is learned for the port the burst
  came from, and afterwards packet \<open>k\<close> is marked for port \<open>j\<close> of side \<open>s\<close> exactly when it was
  marked before or its destination asks for that port: the learned port of a known address,
  the first \<open>nb\<close> ports of each side for a multicast or unknown address, no port for a
  filtered one.
\<close>

theorem switch_marks_ports:
  assumes "\<And>n. x_malloc_ok x n" and "state_at st_switch w b = Some st" and "\<not> sw_is_table_dead st"
    and "mac_table_inv (sw_table st)" and "sources_ok st" and "map_option sides (bricks w b) = Some sd"
    and "i < length (sw_sources (sw_sides st from))"
    and "arrays w a = Some f" and "valid_pkts f (pg_foreach_bit m) (mst w)"
  shows "oret (switch_mark (Suc n) x b from i a m w) (\<lambda>ok w'. ok \<and> mst w' = mst w \<and>
    (\<exists>st'. state_at st_switch w' b = Some st' \<and>
       sw_table st' = fold (\<lambda>k t. mac_table_put t (ld48 (pkt_data f w k) 6) (from, i)) (pg_foreach_bit m) (sw_table st) \<and>
       (\<forall>s j k. j < num_ports st s \<longrightarrow> (port_bit st' s j k \<longleftrightarrow> port_bit st s j k \<or>
          bit m k \<and> switch_port x (sw_table st') sd (pkt_data f w k) s j))))"
proof -
  let ?tbl = "fold (\<lambda>k t. mac_table_put t (ld48 (pkt_data f w k) 6) (from, i)) (pg_foreach_bit m) (sw_table st)"
  let ?dst = "\<lambda>k. ether_dst (pkt_data f w k)"
  have mb: "\<forall>k \<in> set (pg_foreach_bit m). k < 64 \<and> mbufs (mst w) (f k) \<noteq> None"
    using assms(9) by (auto simp: valid_pkts_def set_pg_foreach_bit dest: bit64_less)
  obtain uni w2 st2 where l: "switch_learn (Suc n) x b from i a m w = Ret (Some uni) w2" "sw_same b w w2"
      "state_at st_switch w2 b = Some st2" "sources_ok st2" "num_ports st2 = num_ports st" "sw_table st2 = ?tbl"
      "\<And>k. bit uni k \<longleftrightarrow> bit m k \<and> \<not> is_filtered (?dst k) \<and> \<not> x_is_multicast_ether x (?dst k)"
      "\<And>s j k. j < num_ports st s \<Longrightarrow> (port_bit st2 s j k \<longleftrightarrow> port_bit st s j k \<or>
         j < side_nb (sd s) \<and> bit m k \<and> \<not> is_filtered (?dst k) \<and> x_is_multicast_ether x (?dst k))"
    using switch_learn_ok [OF assms(1-8) mb, of n] by blast
  have data2: "pkt_data f w2 = pkt_data f w" by (rule sw_same_data [OF l(2)])
  have w2: "map_option sides (bricks w2 b) = Some sd" "arrays w2 a = Some f"
      "\<forall>k \<in> set (pg_foreach_bit uni). k < 64 \<and> mbufs (mst w2) (f k) \<noteq> None"
    using l(2,7) assms(6,8) mb by (auto simp: sw_same_def set_pg_foreach_bit)
  obtain w4 st4 where d: "do_switch b a uni w2 = Ret () w4" "sw_same b w2 w4" "state_at st_switch w4 b = Some st4"
      "sw_table st4 = ?tbl"
      "\<And>s j k. j < num_ports st s \<Longrightarrow> (port_bit st4 s j k \<longleftrightarrow> port_bit st2 s j k \<or> bit uni k \<and>
         (case pg_mac_table_ptr_get ?tbl (ld48 (pkt_data f w k) 0) of None \<Rightarrow> j < side_nb (sd s) | Some p \<Rightarrow> p = (s, j)))"
    using do_switch_ok [OF l(3,4) w2] unfolding l(5,6) data2 by blast
  have "switch_mark (Suc n) x b from i a m w = Ret True w4" using l(1) d(1) by (simp add: switch_mark_def)
  moreover have "mst w4 = mst w" using l(2) d(2) by (simp add: sw_same_def)
  moreover have "port_bit st4 s j k \<longleftrightarrow> port_bit st s j k \<or> bit m k \<and> switch_port x ?tbl sd (pkt_data f w k) s j"
    if "j < num_ports st s" for s j k
    using d(5) [OF that] l(8) [OF that] l(7) [of k] by (auto simp: switch_port_def split: option.splits)
  ultimately show ?thesis using d(3,4) by auto
qed

text \<open>A packet from address 0 to address 0 that comes in by the first west port goes back to it.\<close>

definition demo_switch :: pg_switch_state where
  "demo_switch = \<lparr>sw_table = \<lparr>tbl_env = True, tbl_mask = (\<lambda>_. 0), tbl_ptrs = (\<lambda>_. None)\<rparr>,
     sw_is_table_dead = False, sw_output = PG_WEST_SIDE,
     sw_sides = (\<lambda>_. \<lparr>sw_sources = replicate 2 \<lparr>src_edge_index = 0, src_from = PG_WEST_SIDE\<rparr>,
                     sw_masks = replicate 2 0\<rparr>)\<rparr>"

theorem switch_marks_ports_witness:
  "oret (switch_mark 1 demo_ext 0 PG_WEST_SIDE 0 (Arr 0) 1 (place 0 (P_switch demo_switch) demo_world))
     (\<lambda>ok w'. ok \<and> (\<exists>st'. state_at st_switch w' 0 = Some st' \<and> port_bit st' PG_WEST_SIDE 0 0))"
proof -
  let ?w = "place 0 (P_switch demo_switch) demo_world"
  have inv: "mac_table_inv (sw_table demo_switch)" and look: "mac_lookup (sw_table demo_switch) k = None" for k
    by (simp add: mac_table_inv_def demo_switch_def) (cases k; simp add: demo_switch_def)
  have ok: "sources_ok demo_switch" unfolding sources_ok_def look by simp
  have bits: "pg_foreach_bit 1 = [0]" by code_simp
  have data: "pkt_data Suc ?w 0 = (\<lambda>_. 0)"
    by (simp add: pkt_data_def demo_world_def pkt_bytes_def)
  have zero: "ld48 (\<lambda>_. 0) i = 0" for i by (simp add: ld48_def ld32_def ld16_def)
  let ?tbl = "mac_table_put (sw_table demo_switch) 0 (PG_WEST_SIDE, 0)"
  have "pg_mac_table_ptr_get ?tbl 0 = Some (PG_WEST_SIDE, 0)"
    unfolding ptr_get_lookup mac_table_put_ok(2) [OF inv] by simp
  then have port: "switch_port demo_ext ?tbl (\<lambda>_. zero_side) (\<lambda>_. 0) PG_WEST_SIDE 0"
    by (simp add: switch_port_def is_filtered_def ether_dst_def bytes_at_def demo_ext_def zero)
  have valid: "valid_pkts Suc (pg_foreach_bit 1) (mst ?w)" using demo_valid by simp
  have ports: "0 < num_ports demo_switch PG_WEST_SIDE" by (simp add: num_ports_def demo_switch_def)
  have "oret (switch_mark (Suc 0) demo_ext 0 PG_WEST_SIDE 0 (Arr 0) 1 ?w) (\<lambda>ok w'. ok \<and> mst w' = mst ?w \<and>
    (\<exists>st'. state_at st_switch w' 0 = Some st' \<and>
       sw_table st' = fold (\<lambda>k t. mac_table_put t (ld48 (pkt_data Suc ?w k) 6) (PG_WEST_SIDE, 0))
         (pg_foreach_bit 1) (sw_table demo_switch) \<and>
       (\<forall>s j k. j < num_ports demo_switch s \<longrightarrow> (port_bit st' s j k \<longleftrightarrow> port_bit demo_switch s j k \<or>
          bit (1 :: u64) k \<and> switch_port demo_ext (sw_table st') (\<lambda>_. zero_side) (pkt_data Suc ?w k) s j))))"
    by (rule switch_marks_ports [OF _ _ _ inv ok _ _ _ valid])
       (simp_all add: demo_ext_def, simp_all add: demo_switch_def place_def)
  then obtain t w' st' where r: "switch_mark (Suc 0) demo_ext 0 PG_WEST_SIDE 0 (Arr 0) 1 ?w = Ret t w'" "t"
    and st': "state_at st_switch w' 0 = Some st'" "sw_table st' = ?tbl"
    and bit: "\<And>s j k. j < num_ports demo_switch s \<Longrightarrow> (port_bit st' s j k \<longleftrightarrow> port_bit demo_switch s j k \<or>
          bit (1 :: u64) k \<and> switch_port demo_ext (sw_table st') (\<lambda>_. zero_side) (pkt_data Suc ?w k) s j)"
    unfolding oret_iff bits fold.simps comp_apply id_apply data zero by blast
  have "port_bit st' PG_WEST_SIDE 0 0"
    using bit [OF ports, of 0] port unfolding st'(2) data by simp
  then show ?thesis using r st'(1) by simp
qed

end
