(* ===== verification/PG_Antispoof.thy ===== *)
theory PG_Antispoof
  imports PG_Relay PG_Net "HOL-Library.Multiset"
begin

text \<open>
  The antispoof brick, \<open>src/antispoof.c\<close>: packets from the inside pass only when their source
  MAC address is the configured one and, when the checks are enabled, when what they say in
  ARP and in neighbour advertisements is about the allowed addresses. The allowed addresses
  are the first \<open>arps_size\<close> and \<open>ndps_size\<close> entries of two arrays.
\<close>

definition PG_ARP_MAX :: nat where "PG_ARP_MAX = 100"
definition PG_NPD_MAX :: nat where "PG_NPD_MAX = 100"

fun st_antispoof :: "priv \<Rightarrow> pg_antispoof_state option" where
  "st_antispoof (P_antispoof st) = Some st"
| "st_antispoof _ = None"

fun on_antispoof :: "(pg_antispoof_state \<Rightarrow> pg_antispoof_state) \<Rightarrow> priv \<Rightarrow> priv" where
  "on_antispoof f (P_antispoof st) = P_antispoof (f st)"
| "on_antispoof f p = p"

definition upd_antispoof ::
    "nat \<Rightarrow> (pg_antispoof_state \<Rightarrow> pg_antispoof_state) \<Rightarrow> world \<Rightarrow> (unit, world) out" where
  "upd_antispoof b f w = obind (get_state st_antispoof b w) (\<lambda>_ w. Ret () (upd_priv b (on_antispoof f) w))"

section \<open>Allowed addresses\<close>

definition pg_antispoof_arp_enable :: "nat \<Rightarrow> world \<Rightarrow> (unit, world) out" where
  "pg_antispoof_arp_enable b w = upd_antispoof b (\<lambda>st. st\<lparr>as_arp_enabled := True\<rparr>) w"

definition arp_entry :: "u8 list \<Rightarrow> u32 \<Rightarrow> arp" where
  "arp_entry mac ip =
     \<lparr>arp_ip = ip, arp_packet = \<lparr>ar_hrd = PG_CPU_TO_BE_16 1, ar_pro = PG_BE_ETHER_TYPE_IPv4,
        ar_hln = 6, ar_pln = 4, sender_mac = mac, sender_ip = ip\<rparr>\<rparr>"

definition arp_add :: "u32 \<Rightarrow> pg_antispoof_state \<Rightarrow> (string, pg_antispoof_state) sum" where
  "arp_add ip st =
     (let n = as_arps_size st in
      if n = PG_ARP_MAX then Inl ''Maximal IP reached''
      else Inr (st\<lparr>as_arps := (as_arps st)(n := arp_entry (as_mac st) ip), as_arps_size := inc16 n\<rparr>))"

fun arp_find :: "(nat \<Rightarrow> arp) \<Rightarrow> u32 \<Rightarrow> nat list \<Rightarrow> nat option" where
  "arp_find arps ip [] = None"
| "arp_find arps ip (i # is) = (if arp_ip (arps i) = ip then Some i else arp_find arps ip is)"

definition arp_del :: "u32 \<Rightarrow> pg_antispoof_state \<Rightarrow> (string, pg_antispoof_state) sum" where
  "arp_del ip st =
     (let sz = as_arps_size st in
      case arp_find (as_arps st) ip [0..<sz] of
        None \<Rightarrow> Inl ''IP not found''
      | Some index \<Rightarrow>
          let st = (if index \<noteq> sz - 1 then st\<lparr>as_arps := (as_arps st)(index := as_arps st (sz - 1))\<rparr> else st) in
          Inr (st\<lparr>as_arps_size := dec16 (as_arps_size st)\<rparr>))"

text \<open>An operation on the state that can fail with a message.\<close>

definition antispoof_op ::
    "nat \<Rightarrow> (pg_antispoof_state \<Rightarrow> (string, pg_antispoof_state) sum) \<Rightarrow> world \<Rightarrow> (int, world) out" where
  "antispoof_op b f w =
     obind (get_state st_antispoof b w) (\<lambda>st w.
       case f st of
         Inl msg \<Rightarrow> Ret (-1) (set_err (pg_error_new msg []) w)
       | Inr st' \<Rightarrow> Ret 0 (upd_priv b (on_antispoof (\<lambda>_. st')) w))"

definition pg_antispoof_arp_add :: "nat \<Rightarrow> u32 \<Rightarrow> world \<Rightarrow> (int, world) out" where
  "pg_antispoof_arp_add b ip w = antispoof_op b (arp_add ip) w"

definition pg_antispoof_arp_del :: "nat \<Rightarrow> u32 \<Rightarrow> world \<Rightarrow> (int, world) out" where
  "pg_antispoof_arp_del b ip w = antispoof_op b (arp_del ip) w"

definition pg_antispoof_arp_del_all :: "nat \<Rightarrow> world \<Rightarrow> (unit, world) out" where
  "pg_antispoof_arp_del_all b w = upd_antispoof b (\<lambda>st. st\<lparr>as_arps_size := 0\<rparr>) w"

definition pg_antispoof_arp_disable :: "nat \<Rightarrow> world \<Rightarrow> (unit, world) out" where
  "pg_antispoof_arp_disable b w = upd_antispoof b (\<lambda>st. st\<lparr>as_arp_enabled := False\<rparr>) w"

definition antispoof_config_new :: "string \<Rightarrow> pg_side \<Rightarrow> u8 list \<Rightarrow> pg_brick_config" where
  "antispoof_config_new nm outsd mac =
     pg_brick_config_init (Some (C_antispoof outsd mac)) nm 1 1 PG_DIPOLE"

text \<open>The two compared parts of an ARP packet: bytes 0 to 5 and 8 to 17.\<close>

definition arp_part1 :: "pg_antispoof_arp \<Rightarrow> u8 list" where
  "arp_part1 p = le16 (ar_hrd p) @ le16 (ar_pro p) @ [ar_hln p, ar_pln p]"

definition arp_part2 :: "pg_antispoof_arp \<Rightarrow> u8 list" where
  "arp_part2 p = sender_mac p @ le32 (sender_ip p)"

definition antispoof_arp :: "pg_antispoof_state \<Rightarrow> (nat \<Rightarrow> u8) \<Rightarrow> int" where
  "antispoof_arp st a =
     (if list_ex (\<lambda>i. arp_part1 (arp_packet (as_arps st i)) = bytes_at a 0 6 \<and>
           arp_part2 (arp_packet (as_arps st i)) = bytes_at a 8 10) [0..<as_arps_size st]
      then 0 else -1)"

definition pg_antispoof_ndp_enable :: "nat \<Rightarrow> world \<Rightarrow> (unit, world) out" where
  "pg_antispoof_ndp_enable b w = upd_antispoof b (\<lambda>st. st\<lparr>as_ndp_enabled := True\<rparr>) w"

definition ndp_add :: "u8 list \<Rightarrow> pg_antispoof_state \<Rightarrow> (string, pg_antispoof_state) sum" where
  "ndp_add ip st =
     (let n = as_ndps_size st in
      if n = PG_NPD_MAX then Inl ''Maximal IPV6 reached''
      else Inr (st\<lparr>as_ndps := (as_ndps st)(n := ip), as_ndps_size := inc16 n\<rparr>))"

fun ndp_find :: "(nat \<Rightarrow> u8 list) \<Rightarrow> u8 list \<Rightarrow> nat list \<Rightarrow> nat option" where
  "ndp_find ndps ip [] = None"
| "ndp_find ndps ip (i # is) =
     (if pg_is_same_ipv6_tab_tab (ndps i) ip then Some i else ndp_find ndps ip is)"

definition ndp_del :: "u8 list \<Rightarrow> pg_antispoof_state \<Rightarrow> (string, pg_antispoof_state) sum" where
  "ndp_del ip st =
     (let sz = as_ndps_size st in
      case ndp_find (as_ndps st) ip [0..<sz] of
        None \<Rightarrow> Inl ''IPV6 not found''
      | Some index \<Rightarrow>
          let st = (if index \<noteq> sz - 1 then st\<lparr>as_ndps := (as_ndps st)(index := as_ndps st (sz - 1))\<rparr> else st) in
          Inr (st\<lparr>as_ndps_size := dec16 (as_ndps_size st)\<rparr>))"

definition pg_antispoof_ndp_add :: "nat \<Rightarrow> u8 list \<Rightarrow> world \<Rightarrow> (int, world) out" where
  "pg_antispoof_ndp_add b ip w = antispoof_op b (ndp_add ip) w"

definition pg_antispoof_ndp_del :: "nat \<Rightarrow> u8 list \<Rightarrow> world \<Rightarrow> (int, world) out" where
  "pg_antispoof_ndp_del b ip w = antispoof_op b (ndp_del ip) w"

definition pg_antispoof_ndp_del_all :: "nat \<Rightarrow> world \<Rightarrow> (unit, world) out" where
  "pg_antispoof_ndp_del_all b w = upd_antispoof b (\<lambda>st. st\<lparr>as_ndps_size := 0\<rparr>) w"

definition pg_antispoof_ndp_disable :: "nat \<Rightarrow> world \<Rightarrow> (unit, world) out" where
  "pg_antispoof_ndp_disable b w = upd_antispoof b (\<lambda>st. st\<lparr>as_ndp_enabled := False\<rparr>) w"

section \<open>Filtering\<close>

text \<open>
  A neighbour advertisement has its target address at byte 8 and its link-layer address
  option at byte 24; the source address of an IPv6 header is at byte 8.
\<close>

definition antispoof_ndp :: "pg_antispoof_state \<Rightarrow> nat \<Rightarrow> world \<Rightarrow> (int, world) out" where
  "antispoof_ndp st pkt w =
     obind (pg_utils_get_ipv6_l4 pkt w) (\<lambda>(r, ipv6_type, na) w.
       if r < 0 then Ret (-1) w
       else if ipv6_type \<noteq> PG_IP_TYPE_ICMPV6 then Ret 0 w
       else if na 0 \<noteq> PG_ICMPV6_TYPE_NA then Ret 0 w
       else
         obind (pg_utils_get_l3 pkt w) (\<lambda>h6 w.
           if \<not> list_ex (\<lambda>i. pg_is_same_ipv6_tab_tab (bytes_at h6 8 16) (as_ndps st i) \<and>
                   bytes_at na 8 16 = as_ndps st i) [0..<as_ndps_size st] then Ret (-1) w
           else if na 24 \<noteq> 2 \<or> na 25 \<noteq> 1 \<or> bytes_at na 26 6 \<noteq> as_mac st then Ret (-1) w
           else Ret 0 w))"

definition antispoof_round :: "pg_antispoof_state \<Rightarrow> arr \<Rightarrow> nat \<Rightarrow> u64 \<Rightarrow> world \<Rightarrow> (u64, world) out" where
  "antispoof_round st pkts i pkts_mask w =
     obind (get_pkts pkts w) (\<lambda>f w.
     obind (mtod (f i) w) (\<lambda>eth w.
     obind (pg_utils_get_ether_type (f i) w) (\<lambda>etype w.
       let dropped = pkts_mask AND NOT (push_bit i 1) in
       if ether_src eth \<noteq> as_mac st then Ret dropped w
       else if etype = PG_BE_ETHER_TYPE_RARP then Ret dropped w
       else
         obind (if as_arp_enabled st \<and> etype = PG_BE_ETHER_TYPE_ARP
                then obind (pg_utils_get_l3 (f i) w) (\<lambda>a w. Ret (antispoof_arp st a < 0) w)
                else Ret False w) (\<lambda>bad w.
         if bad then Ret dropped w
         else
           obind (if as_ndp_enabled st \<and> etype = PG_BE_ETHER_TYPE_IPv6
                  then obind (antispoof_ndp st (f i) w) (\<lambda>r w. Ret (r < 0) w)
                  else Ret False w) (\<lambda>bad w.
           if bad then Ret dropped w else Ret pkts_mask w)))))"

definition antispoof_filter :: "pg_antispoof_state \<Rightarrow> arr \<Rightarrow> u64 \<Rightarrow> world \<Rightarrow> (u64, world) out" where
  "antispoof_filter st pkts pkts_mask w =
     oacc (antispoof_round st pkts) (pg_foreach_bit pkts_mask) pkts_mask w"

definition antispoof_burst ::
    "burster \<Rightarrow> nat \<Rightarrow> pg_side \<Rightarrow> nat \<Rightarrow> arr \<Rightarrow> u64 \<Rightarrow> world \<Rightarrow> (int, world) out" where
  "antispoof_burst brst b from edge_index pkts pkts_mask w =
     obind (get_state st_antispoof b w) (\<lambda>st w.
       if as_outside st = from then burst_edge brst b (pg_flip_side from) from pkts pkts_mask w
       else
         obind (antispoof_filter st pkts pkts_mask w) (\<lambda>pkts_mask w.
         if pkts_mask = 0 then Ret 0 w
         else burst_edge brst b (pg_flip_side from) from pkts pkts_mask w))"

definition antispoof_init :: "nat \<Rightarrow> pg_brick_config \<Rightarrow> world \<Rightarrow> (int, world) out" where
  "antispoof_init b config w =
     (case brick_config config of
        Some (C_antispoof outsd mac) \<Rightarrow>
          obind (Ret () (set_burst b antispoof_burst_fn w)) (\<lambda>_ w.
          Ret 0 (upd_priv b (on_antispoof (\<lambda>st. st\<lparr>as_outside := outsd, as_mac := mac,
            as_arp_enabled := False, as_arps_size := 0\<rparr>)) w))
      | _ \<Rightarrow> Abort ''config of another brick'')"

definition pg_antispoof_new ::
    "brick_ops list \<Rightarrow> string \<Rightarrow> pg_side \<Rightarrow> u8 list option \<Rightarrow> world \<Rightarrow> (nat option, world) out" where
  "pg_antispoof_new reg nm outsd mac w =
     (case mac of None \<Rightarrow> Abort ''g_assert(mac)''
      | Some mac \<Rightarrow> pg_brick_new reg (Some ''antispoof'') (Some (antispoof_config_new nm outsd mac)) w)"

definition antispoof_ops :: brick_ops where
  "antispoof_ops = base_ops\<lparr>op_name := ''antispoof'',
     op_zero := P_antispoof \<lparr>as_outside = PG_WEST_SIDE, as_mac = replicate 6 0, as_arp_enabled = False,
       as_arps_size = 0, as_arps = (\<lambda>_. \<lparr>arp_ip = 0, arp_packet = \<lparr>ar_hrd = 0, ar_pro = 0, ar_hln = 0,
         ar_pln = 0, sender_mac = replicate 6 0, sender_ip = 0\<rparr>\<rparr>),
       as_ndp_enabled = False, as_ndps_size = 0, as_ndps = (\<lambda>_. replicate 16 0)\<rparr>,
     op_init := antispoof_init, op_unlink := True\<rparr>"

section \<open>The private state stays in order\<close>

lemma safe_step_antispoof [simp]:
  assumes "\<And>st. as_arps_size (f st) \<le> as_arps_size st \<or> as_arps_size (f st) \<le> 100"
    and "\<And>st. as_ndps_size (f st) \<le> as_ndps_size st \<or> as_ndps_size (f st) \<le> 100"
  shows "safe_step w (upd_priv b (on_antispoof f) w)"
proof (rule safe_step_priv)
  fix br show "priv_step (priv_state br) (on_antispoof f (priv_state br))"
    using assms by (cases "priv_state br") (auto simp: priv_step_def intro: order_trans)
qed

lemma antispoof_init_safe: "safe w (antispoof_init b c w)"
proof (cases "brick_config c")
  case (Some bc)
  show ?thesis
  proof (cases bc)
    case (C_antispoof s mac)
    show ?thesis
      unfolding antispoof_init_def Some C_antispoof option.case bconf.case by (intro safe_intros; simp)
  qed (simp_all add: antispoof_init_def Some)
qed (simp add: antispoof_init_def)

lemma antispoof_ndp_safe: "safe w (antispoof_ndp st p w)"
  unfolding antispoof_ndp_def by (intro safe_intros; simp)

lemma antispoof_filter_safe: "safe w (antispoof_filter st a m w)"
  unfolding antispoof_filter_def antispoof_round_def by (intro safe_intros antispoof_ndp_safe; simp)

context bursts
begin

lemma antispoof_burst_safe: "safe w (antispoof_burst brst b from i a m w)"
  unfolding antispoof_burst_def by (intro safe_intros antispoof_filter_safe burst_edge_safe; simp)

end

section \<open>The tables are multisets of addresses\<close>

definition arp_ips :: "pg_antispoof_state \<Rightarrow> u32 list" where
  "arp_ips st = map (\<lambda>i. arp_ip (as_arps st i)) [0..<as_arps_size st]"

definition ndp_ips :: "pg_antispoof_state \<Rightarrow> u8 list list" where
  "ndp_ips st = map (as_ndps st) [0..<as_ndps_size st]"

text \<open>Every entry is the prepared packet of its address.\<close>

definition arps_ok :: "pg_antispoof_state \<Rightarrow> bool" where
  "arps_ok st \<longleftrightarrow> as_arps_size st \<le> PG_ARP_MAX \<and>
     (\<forall>i < as_arps_size st. as_arps st i = arp_entry (as_mac st) (arp_ip (as_arps st i)))"

lemma arp_find_cases:
  "case arp_find arps ip js of None \<Rightarrow> \<forall>i \<in> set js. arp_ip (arps i) \<noteq> ip
   | Some i \<Rightarrow> i \<in> set js \<and> arp_ip (arps i) = ip"
  by (induction js) (auto split: option.splits)

lemma ndp_find_cases:
  "case ndp_find ndps ip js of None \<Rightarrow> \<forall>i \<in> set js. ndps i \<noteq> ip
   | Some i \<Rightarrow> i \<in> set js \<and> ndps i = ip"
  by (induction js) (auto simp: pg_is_same_ipv6_tab_tab_def split: option.splits)

text \<open>Overwriting an element with the last one and dropping the last one removes it.\<close>

lemma mset_swap_last:
  assumes "k < n"
  shows "mset (map (f(k := f (n - 1))) [0..<n - 1]) = mset (map f [0..<n]) - {#f k#}"
proof -
  obtain m where n: "n = Suc m" using assms by (cases n) auto
  show ?thesis
  proof (cases "k = m")
    case False
    then have k: "k < m" using assms n by simp
    have "map (f(k := f m)) [0..<m] = (map f [0..<m])[k := f m]"
      by (rule nth_equalityI) (auto simp: nth_list_update)
    then have "mset (map (f(k := f m)) [0..<m]) = add_mset (f m) (mset (map f [0..<m]) - {#f k#})"
      using k by (simp add: mset_update)
    also have "\<dots> = add_mset (f m) (mset (map f [0..<m])) - {#f k#}"
      using k by (intro diff_union_swap2 [symmetric]) (auto simp: image_iff)
    finally show ?thesis by (simp add: n)
  qed (auto simp: n)
qed

lemma upd_out_of_range: "map (\<lambda>i. g ((h(n := v)) i)) [0..<n] = map (\<lambda>i. g (h i)) [0..<n]"
  by (rule map_cong) auto

lemma inc16_small: "n \<noteq> 100 \<Longrightarrow> n \<le> 100 \<Longrightarrow> inc16 n = Suc n"
  by (intro inc16_eq) simp

lemma arp_add_ok:
  assumes "arps_ok st"
  shows "case arp_add ip st of Inl e \<Rightarrow> size (mset (arp_ips st)) = PG_ARP_MAX
    | Inr st' \<Rightarrow> arps_ok st' \<and> mset (arp_ips st') = add_mset ip (mset (arp_ips st))"
proof (cases "as_arps_size st = 100")
  case False
  let ?n = "as_arps_size st"
  let ?st = "st\<lparr>as_arps := (as_arps st)(?n := arp_entry (as_mac st) ip), as_arps_size := Suc ?n\<rparr>"
  have le: "?n \<le> 100" using assms by (simp add: arps_ok_def PG_ARP_MAX_def)
  have "arp_add ip st = Inr ?st"
    using False le by (simp add: arp_add_def Let_def PG_ARP_MAX_def inc16_small)
  moreover have "arps_ok ?st"
    using assms False by (auto simp: arps_ok_def PG_ARP_MAX_def arp_entry_def less_Suc_eq)
  moreover have "arp_ips ?st = arp_ips st @ [ip]"
    using upd_out_of_range [of arp_ip "as_arps st" ?n "arp_entry (as_mac st) ip"]
    by (simp add: arp_ips_def) (simp add: arp_entry_def)
  ultimately show ?thesis by simp
qed (use assms in \<open>simp add: arp_add_def arp_ips_def PG_ARP_MAX_def\<close>)

lemma ndp_add_ok:
  assumes "as_ndps_size st \<le> PG_NPD_MAX"
  shows "case ndp_add ip st of Inl e \<Rightarrow> size (mset (ndp_ips st)) = PG_NPD_MAX
    | Inr st' \<Rightarrow> as_ndps_size st' \<le> PG_NPD_MAX \<and> mset (ndp_ips st') = add_mset ip (mset (ndp_ips st))"
proof (cases "as_ndps_size st = 100")
  case False
  let ?n = "as_ndps_size st"
  let ?st = "st\<lparr>as_ndps := (as_ndps st)(?n := ip), as_ndps_size := Suc ?n\<rparr>"
  have le: "?n \<le> 100" using assms by (simp add: PG_NPD_MAX_def)
  have "ndp_add ip st = Inr ?st"
    using False le by (simp add: ndp_add_def Let_def PG_NPD_MAX_def inc16_small)
  moreover have "ndp_ips ?st = ndp_ips st @ [ip]"
    using upd_out_of_range [of "\<lambda>x. x" "as_ndps st" ?n ip] by (simp add: ndp_ips_def)
  ultimately show ?thesis using False le by (simp add: PG_NPD_MAX_def)
qed (use assms in \<open>simp add: ndp_add_def ndp_ips_def PG_NPD_MAX_def\<close>)

lemma arp_del_ok:
  assumes "arps_ok st"
  shows "case arp_del ip st of Inl e \<Rightarrow> ip \<notin># mset (arp_ips st)
    | Inr st' \<Rightarrow> ip \<in># mset (arp_ips st) \<and> arps_ok st' \<and> mset (arp_ips st') = mset (arp_ips st) - {#ip#}"
proof (cases "arp_find (as_arps st) ip [0..<as_arps_size st]")
  case None
  then show ?thesis
    using arp_find_cases [where arps = "as_arps st" and ip = ip and js = "[0..<as_arps_size st]"] by (auto simp: arp_del_def arp_ips_def)
next
  case (Some k)
  let ?n = "as_arps_size st"
  have k: "k < ?n" "arp_ip (as_arps st k) = ip"
    using arp_find_cases [where arps = "as_arps st" and ip = ip and js = "[0..<?n]"] Some by simp_all
  define st' where "st' = st\<lparr>as_arps := (as_arps st)(k := as_arps st (?n - 1)), as_arps_size := ?n - 1\<rparr>"
  have same: "(as_arps st)(?n - 1 := as_arps st (?n - 1)) = as_arps st" by simp
  have del: "arp_del ip st = Inr st'"
    using Some k same by (cases "k = ?n - 1") (simp_all add: arp_del_def Let_def st'_def)
  have "(\<lambda>i. arp_ip (((as_arps st)(k := as_arps st (?n - 1))) i)) =
      (\<lambda>i. arp_ip (as_arps st i))(k := arp_ip (as_arps st (?n - 1)))" by auto
  then have "mset (arp_ips st') = mset (arp_ips st) - {#ip#}"
    using mset_swap_last [OF k(1), of "\<lambda>i. arp_ip (as_arps st i)"] k(2)
    by (simp add: arp_ips_def st'_def del: mset_map)
  moreover have "arps_ok st'"
    using assms k by (auto simp: arps_ok_def st'_def)
  moreover have "ip \<in># mset (arp_ips st)"
    using k by (auto simp: arp_ips_def)
  ultimately show ?thesis by (simp add: del)
qed

lemma ndp_del_ok:
  assumes "as_ndps_size st \<le> PG_NPD_MAX"
  shows "case ndp_del ip st of Inl e \<Rightarrow> ip \<notin># mset (ndp_ips st)
    | Inr st' \<Rightarrow> ip \<in># mset (ndp_ips st) \<and> as_ndps_size st' \<le> PG_NPD_MAX \<and>
        mset (ndp_ips st') = mset (ndp_ips st) - {#ip#}"
proof (cases "ndp_find (as_ndps st) ip [0..<as_ndps_size st]")
  case None
  then show ?thesis
    using ndp_find_cases [where ndps = "as_ndps st" and ip = ip and js = "[0..<as_ndps_size st]"] by (auto simp: ndp_del_def ndp_ips_def)
next
  case (Some k)
  let ?n = "as_ndps_size st"
  have k: "k < ?n" "as_ndps st k = ip"
    using ndp_find_cases [where ndps = "as_ndps st" and ip = ip and js = "[0..<?n]"] Some by simp_all
  define st' where "st' = st\<lparr>as_ndps := (as_ndps st)(k := as_ndps st (?n - 1)), as_ndps_size := ?n - 1\<rparr>"
  have same: "(as_ndps st)(?n - 1 := as_ndps st (?n - 1)) = as_ndps st" by simp
  have del: "ndp_del ip st = Inr st'"
    using Some k same by (cases "k = ?n - 1") (simp_all add: ndp_del_def Let_def st'_def)
  have "mset (ndp_ips st') = mset (ndp_ips st) - {#ip#}"
    using mset_swap_last [OF k(1), of "as_ndps st"] k(2) by (simp add: ndp_ips_def st'_def del: mset_map)
  moreover have "ip \<in># mset (ndp_ips st)"
    using k by (auto simp: ndp_ips_def)
  ultimately show ?thesis
    using assms by (simp add: del) (simp add: st'_def)
qed

text \<open>
  C26. The tables of allowed addresses are multisets: adding an address adds one occurrence and
  fails only when 100 addresses are there, deleting one removes one occurrence and fails only
  when there is none, and each entry stays the ARP packet of its address.
\<close>

theorem antispoof_tables_refine_multisets:
  assumes "arps_ok st" and "as_ndps_size st \<le> PG_NPD_MAX"
  shows "(case arp_add ip st of Inl e \<Rightarrow> size (mset (arp_ips st)) = PG_ARP_MAX
      | Inr st' \<Rightarrow> arps_ok st' \<and> mset (arp_ips st') = add_mset ip (mset (arp_ips st))) \<and>
    (case arp_del ip st of Inl e \<Rightarrow> ip \<notin># mset (arp_ips st)
      | Inr st' \<Rightarrow> ip \<in># mset (arp_ips st) \<and> arps_ok st' \<and> mset (arp_ips st') = mset (arp_ips st) - {#ip#}) \<and>
    (case ndp_add ip6 st of Inl e \<Rightarrow> size (mset (ndp_ips st)) = PG_NPD_MAX
      | Inr st' \<Rightarrow> as_ndps_size st' \<le> PG_NPD_MAX \<and> mset (ndp_ips st') = add_mset ip6 (mset (ndp_ips st))) \<and>
    (case ndp_del ip6 st of Inl e \<Rightarrow> ip6 \<notin># mset (ndp_ips st)
      | Inr st' \<Rightarrow> ip6 \<in># mset (ndp_ips st) \<and> as_ndps_size st' \<le> PG_NPD_MAX \<and>
          mset (ndp_ips st') = mset (ndp_ips st) - {#ip6#})"
  by (intro conjI arp_add_ok arp_del_ok ndp_add_ok ndp_del_ok assms)

definition demo_antispoof :: pg_antispoof_state where
  "demo_antispoof = \<lparr>as_outside = PG_EAST_SIDE, as_mac = [0, 0, 0, 0, 0, 0], as_arp_enabled = True,
     as_arps_size = 2, as_arps = (\<lambda>i. arp_entry [0, 0, 0, 0, 0, 0] (word_of_nat i)),
     as_ndp_enabled = True, as_ndps_size = 0, as_ndps = (\<lambda>_. [])\<rparr>"

theorem antispoof_tables_refine_multisets_witness:
  "\<exists>st'. arp_del 0 demo_antispoof = Inr st' \<and> mset (arp_ips st') = {#1#}"
proof -
  have ok: "arps_ok demo_antispoof" "as_ndps_size demo_antispoof \<le> PG_NPD_MAX"
    by (simp_all add: arps_ok_def demo_antispoof_def arp_entry_def PG_ARP_MAX_def PG_NPD_MAX_def)
  have ips: "mset (arp_ips demo_antispoof) = {#0, 1#}"
    by (simp add: arp_ips_def demo_antispoof_def arp_entry_def upt_rec numeral_2_eq_2)
  show ?thesis
    using antispoof_tables_refine_multisets [OF ok, of 0 "[]"] unfolding ips
    by (auto split: sum.splits)
qed

section \<open>What passes\<close>

text \<open>
  What a packet from the inside may say. \<open>l3\<close> are the bytes after the link-layer header. An
  ARP packet is for Ethernet and IPv4 and names the MAC address of the brick and an allowed
  IPv4 address as its sender; a neighbour advertisement names an allowed IPv6 address as its
  source and as its target, and the MAC address of the brick as that of the target.
\<close>

definition arp_legit :: "pg_antispoof_state \<Rightarrow> (nat \<Rightarrow> u8) \<Rightarrow> bool" where
  "arp_legit st l3 \<longleftrightarrow> bytes_at l3 0 6 = [0, 1, 8, 0, 6, 4] \<and> bytes_at l3 8 6 = as_mac st \<and>
     ld32 l3 14 \<in> set (arp_ips st)"

definition ndp_legit :: "pg_antispoof_state \<Rightarrow> (nat \<Rightarrow> u8) \<Rightarrow> bool" where
  "ndp_legit st l3 \<longleftrightarrow>
     (case ipv6_skip 7 (\<lambda>i. l3 (40 + i)) (l3 6) 0 of None \<Rightarrow> False
      | Some (proto, pos) \<Rightarrow>
          proto = 58 \<and> l3 (40 + pos) = 136 \<longrightarrow>
            bytes_at l3 8 16 \<in> set (ndp_ips st) \<and> bytes_at l3 (40 + pos + 8) 16 = bytes_at l3 8 16 \<and>
            bytes_at l3 (40 + pos + 24) 8 = [2, 1] @ as_mac st)"

definition antispoof_legit :: "pg_antispoof_state \<Rightarrow> mbuf \<Rightarrow> mstore \<Rightarrow> bool" where
  "antispoof_legit st m ms \<longleftrightarrow>
     (let eth = pkt_bytes 0 m ms; l3 = pkt_bytes (l2_len m) m ms; etype = ld16 (bufs ms (buf_addr m)) (data_off m + l2_len m - 2) in
      ether_src eth = as_mac st \<and> etype \<noteq> PG_BE_ETHER_TYPE_RARP \<and>
      (as_arp_enabled st \<and> etype = PG_BE_ETHER_TYPE_ARP \<longrightarrow> arp_legit st l3) \<and>
      (as_ndp_enabled st \<and> etype = PG_BE_ETHER_TYPE_IPv6 \<longrightarrow> ndp_legit st l3))"

lemma length_bytes_at [simp]: "length (bytes_at f i n) = n"
  by (simp add: bytes_at_def)

lemma bytes_at_add: "bytes_at f i (n + k) = bytes_at f i n @ bytes_at f (i + n) k"
  by (rule nth_equalityI) (auto simp: bytes_at_def nth_append)

lemma bytes_at_shift: "bytes_at (\<lambda>i. f (d + i)) i n = bytes_at f (d + i) n"
  by (simp add: bytes_at_def add.assoc)

lemma antispoof_arp_legit:
  assumes "arps_ok st" and "length (as_mac st) = 6"
  shows "antispoof_arp st l3 < 0 \<longleftrightarrow> \<not> arp_legit st l3"
proof -
  have "le16 (PG_CPU_TO_BE_16 1) = [0, 1]" "le16 PG_BE_ETHER_TYPE_IPv4 = [8, 0]" by code_simp+
  then have part1: "arp_part1 (arp_packet (arp_entry mac ip)) = [0, 1, 8, 0, 6, 4]" for mac ip
    by (simp add: arp_part1_def arp_entry_def)
  have split10: "bytes_at l3 8 10 = bytes_at l3 8 6 @ bytes_at l3 14 4"
    using bytes_at_add [of l3 8 6 4] by simp
  have part2: "arp_part2 (arp_packet (arp_entry (as_mac st) ip)) = bytes_at l3 8 10 \<longleftrightarrow>
      bytes_at l3 8 6 = as_mac st \<and> ld32 l3 14 = ip" for ip
    unfolding split10 using assms(2) le32_ld32 [of ip l3 14]
    by (auto simp: arp_part2_def arp_entry_def)
  have entry: "arp_packet (as_arps st i) = arp_packet (arp_entry (as_mac st) (arp_ip (as_arps st i)))"
    if "i < as_arps_size st" for i
    using assms(1) that unfolding arps_ok_def by metis
  have "list_ex (\<lambda>i. arp_part1 (arp_packet (as_arps st i)) = bytes_at l3 0 6 \<and>
      arp_part2 (arp_packet (as_arps st i)) = bytes_at l3 8 10) [0..<as_arps_size st] \<longleftrightarrow>
    (\<exists>i < as_arps_size st. bytes_at l3 0 6 = [0, 1, 8, 0, 6, 4] \<and> bytes_at l3 8 6 = as_mac st \<and>
       ld32 l3 14 = arp_ip (as_arps st i))"
    unfolding list_ex_iff using entry part1 part2 by (auto cong: conj_cong)
  also have "\<dots> \<longleftrightarrow> arp_legit st l3"
    by (auto simp: arp_legit_def arp_ips_def)
  finally show ?thesis by (simp add: antispoof_arp_def)
qed

lemma antispoof_ndp_legit:
  assumes "mbufs (mst w) p = Some m" and "length (as_mac st) = 6"
  shows "\<exists>r. antispoof_ndp st p w = Ret r w \<and> (r < 0 \<longleftrightarrow> \<not> ndp_legit st (pkt_bytes (l2_len m) m (mst w)))"
proof -
  define l3 where "l3 = pkt_bytes (l2_len m) m (mst w)"
  have l3: "pg_utils_get_l3 p w = Ret l3 w"
    by (simp add: pg_utils_get_l3_def get_mbuf_def assms(1) l3_def)
  show ?thesis
  proof (cases "ipv6_skip 7 (\<lambda>i. l3 (40 + i)) (l3 6) 0")
    case None
    then show ?thesis
      by (simp add: antispoof_ndp_def pg_utils_get_ipv6_l4_def l3 ndp_legit_def l3_def [symmetric])
  next
    case (Some q)
    obtain proto pos where q: "q = (proto, pos)" by (cases q)
    define na where "na = (\<lambda>i. l3 (40 + pos + i))"
    have run: "pg_utils_get_ipv6_l4 p w = Ret (int pos, proto, na) w"
      by (simp add: pg_utils_get_ipv6_l4_def l3 Some q na_def)
    have ll: "bytes_at l3 (40 + pos + 24) 8 = [2, 1] @ as_mac st \<longleftrightarrow>
        na 24 = 2 \<and> na 25 = 1 \<and> bytes_at na 26 6 = as_mac st"
    proof -
      have "bytes_at l3 (40 + pos + 24) 8 = bytes_at na 24 (2 + 6)"
        by (simp add: na_def bytes_at_shift)
      also have "\<dots> = [na 24, na 25] @ bytes_at na 26 6"
        unfolding bytes_at_add by (simp add: bytes_at_def upt_rec numeral_2_eq_2)
      finally show ?thesis by auto
    qed
    have ip: "list_ex (\<lambda>i. pg_is_same_ipv6_tab_tab (bytes_at l3 8 16) (as_ndps st i) \<and>
          bytes_at na 8 16 = as_ndps st i) [0..<as_ndps_size st] \<longleftrightarrow>
        bytes_at l3 8 16 \<in> set (ndp_ips st) \<and> bytes_at l3 (40 + pos + 8) 16 = bytes_at l3 8 16"
      by (auto simp: list_ex_iff pg_is_same_ipv6_tab_tab_def ndp_ips_def na_def bytes_at_shift)
    have "ndp_legit st l3 \<longleftrightarrow> (proto = 58 \<and> na 0 = 136 \<longrightarrow>
        (bytes_at l3 8 16 \<in> set (ndp_ips st) \<and> bytes_at l3 (40 + pos + 8) 16 = bytes_at l3 8 16) \<and>
        bytes_at l3 (40 + pos + 24) 8 = [2, 1] @ as_mac st)"
      by (simp add: ndp_legit_def Some q na_def)
    then show ?thesis
      unfolding l3_def [symmetric] ip [symmetric] ll
      by (auto simp: antispoof_ndp_def run l3 PG_IP_TYPE_ICMPV6_def PG_ICMPV6_TYPE_NA_def)
  qed
qed

lemma antispoof_round_legit:
  assumes "arps_ok st" and "length (as_mac st) = 6" and "arrays w a = Some f" and "mbufs (mst w) (f i) = Some m"
  shows "antispoof_round st a i msk w =
    Ret (if antispoof_legit st m (mst w) then msk else msk AND NOT (push_bit i 1)) w"
proof -
  obtain r where r: "antispoof_ndp st (f i) w = Ret r w"
      "r < 0 \<longleftrightarrow> \<not> ndp_legit st (pkt_bytes (l2_len m) m (mst w))"
    using antispoof_ndp_legit [OF assms(4,2)] by blast
  have "mtod (f i) w = Ret (pkt_bytes 0 m (mst w)) w"
    by (simp add: mtod_def get_mbuf_def assms(4) pkt_bytes_def)
  moreover have "pg_utils_get_l3 (f i) w = Ret (pkt_bytes (l2_len m) m (mst w)) w"
    by (simp add: pg_utils_get_l3_def get_mbuf_def assms(4))
  moreover define e where "e = ld16 (bufs (mst w) (buf_addr m)) (data_off m + l2_len m - 2)"
  moreover have "pg_utils_get_ether_type (f i) w = Ret e w"
    by (simp add: pg_utils_get_ether_type_def get_mbuf_def assms(4) e_def)
  moreover define off where "off = msk AND NOT (push_bit i 1)"
  ultimately show ?thesis
    unfolding antispoof_round_def antispoof_legit_def Let_def e_def [symmetric] off_def [symmetric]
    using assms(3) r antispoof_arp_legit [OF assms(1,2)]
    by (cases "as_arp_enabled st \<and> e = PG_BE_ETHER_TYPE_ARP"; cases "as_ndp_enabled st \<and> e = PG_BE_ETHER_TYPE_IPv6")
       simp_all
qed

text \<open>
  C27. From the inside exactly the legitimate packets of a burst pass the antispoof brick: those
  with the source MAC address of the brick that are not RARP and that obey the checks that are
  on. An ARP packet has to name the MAC address of the brick and an allowed IPv4 address as its
  sender. An IPv6 packet has to have fewer than seven extension headers, and a neighbour
  advertisement has to come from an allowed IPv6 address, be about the same address and carry the
  target link-layer address option with the MAC address of the brick; one without this option is
  dropped, although the documentation says that the option is checked if it exists.
\<close>

theorem antispoof_passes_legitimate:
  assumes "arps_ok st" and "length (as_mac st) = 6" and "arrays w a = Some f"
    and "valid_pkts f (pg_foreach_bit m) (mst w)"
  shows "oret (antispoof_filter st a m w) (\<lambda>m' w'. w' = w \<and>
    (\<forall>i. bit m' i \<longleftrightarrow> bit m i \<and> antispoof_legit st (the (mbufs (mst w) (f i))) (mst w)))"
proof -
  let ?ok = "\<lambda>i. antispoof_legit st (the (mbufs (mst w) (f i))) (mst w)"
  let ?g = "\<lambda>i msk. if ?ok i then msk else msk AND NOT (push_bit i 1) :: u64"
  have run: "antispoof_filter st a m w = Ret (fold ?g (pg_foreach_bit m) m) w"
    unfolding antispoof_filter_def
  proof (rule oacc_pure)
    fix i acc assume "i \<in> set (pg_foreach_bit m)"
    then obtain mb where "mbufs (mst w) (f i) = Some mb"
      using assms(4) by (auto simp: valid_pkts_def)
    then show "antispoof_round st a i acc w = Ret (?g i acc) w"
      using antispoof_round_legit [OF assms(1-3)] by simp
  qed
  have fold: "bit (fold ?g js msk) k \<longleftrightarrow> bit msk k \<and> (k \<in> set js \<longrightarrow> ?ok k)" if "\<forall>j \<in> set js. j < 64" for js msk k
    using that
  proof (induction js arbitrary: msk)
    case (Cons j js)
    have "bit (msk AND NOT (push_bit j 1)) k \<longleftrightarrow> bit msk k \<and> k \<noteq> j"
      using Cons.prems by (auto simp: bit_and_iff bit_not_iff bit_exp_iff dest: bit64_less)
    then show ?case using Cons by auto
  qed simp
  show ?thesis
    unfolding run using fold [of "pg_foreach_bit m"] by (auto simp: set_pg_foreach_bit dest: bit64_less)
qed

theorem antispoof_passes_legitimate_witness:
  "oret (antispoof_filter demo_antispoof (Arr 0) 1 demo_world) (\<lambda>m' w'. w' = demo_world \<and> bit m' 0)"
proof -
  have ok: "arps_ok demo_antispoof" "length (as_mac demo_antispoof) = 6"
    by (simp_all add: arps_ok_def demo_antispoof_def arp_entry_def PG_ARP_MAX_def)
  have mb: "mbufs (mst demo_world) 1 = Some (demo_mbuf\<lparr>buf_addr := 1\<rparr>)" by (simp add: demo_world_def)
  have "PG_BE_ETHER_TYPE_RARP \<noteq> 0" "PG_BE_ETHER_TYPE_ARP \<noteq> 0" "PG_BE_ETHER_TYPE_IPv6 \<noteq> 0" by code_simp+
  moreover have "pkt_bytes off mb (mst demo_world) = (\<lambda>_. 0)" "bufs (mst demo_world) n = (\<lambda>_. 0)" for off mb n
    by (simp_all add: pkt_bytes_def demo_world_def)
  moreover have "ether_src (\<lambda>_. 0) = [0, 0, 0, 0, 0, 0]" by code_simp
  moreover have "ld16 (\<lambda>_. 0) i = 0" for i by (simp add: ld16_def)
  ultimately have legit: "antispoof_legit demo_antispoof (demo_mbuf\<lparr>buf_addr := 1\<rparr>) (mst demo_world)"
    by (simp add: antispoof_legit_def Let_def) (simp add: demo_antispoof_def)
  show ?thesis
    using antispoof_passes_legitimate [OF ok demo_array demo_valid, of 1] legit mb by (auto simp: oret_iff)
qed

end
