(* ===== verification/PG_Firewall.thy ===== *)
theory PG_Firewall
  imports PG_Relay PG_Net
begin

text \<open>
  The firewall, \<open>src/firewall.c\<close>, around the packet filter NPF. NPF and the pcap compiler are
  functions of \<open>ext\<close>: they read and change the state outside the library. A rule is its
  attributes and its compiled filter; the rules of a brick are the list \<open>rules\<close>, and they
  take effect when \<open>npfk_load\<close> gets them. The counters of \<open>firewall.c\<close> are fields of \<open>globals\<close>.
  \<open>PG_MAX_SIDE\<close>, both sides, is \<open>None\<close>.
\<close>

definition PG_NO_CONN_WORKER :: u32 where "PG_NO_CONN_WORKER = 1"

fun st_firewall :: "priv \<Rightarrow> pg_firewall_state option" where
  "st_firewall (P_firewall st) = Some st"
| "st_firewall _ = None"

fun on_firewall :: "(pg_firewall_state \<Rightarrow> pg_firewall_state) \<Rightarrow> priv \<Rightarrow> priv" where
  "on_firewall f (P_firewall st) = P_firewall (f st)"
| "on_firewall f p = p"

definition firewall_config_new :: "string \<Rightarrow> u32 \<Rightarrow> pg_brick_config" where
  "firewall_config_new nm flags = pg_brick_config_init (Some (C_firewall flags)) nm 1 1 PG_DIPOLE"

definition pg_firewall_gc :: "ext \<Rightarrow> nat \<Rightarrow> world \<Rightarrow> (unit, world) out" where
  "pg_firewall_gc x b w =
     obind (get_state st_firewall b w) (\<lambda>st w. call_out x (npfk_gc (fw_npf st)) w)"

section \<open>Rules\<close>

definition firewall_build_pcap_filter :: "ext \<Rightarrow> nl_rule \<Rightarrow> string \<Rightarrow> nl_rule option" where
  "firewall_build_pcap_filter x rl flt =
     map_option (\<lambda>code. rl\<lparr>rule_code := Some code\<rparr>) (x_pcap_compile (x_npf x) flt)"

fun firewall_side_to_npf_rule :: "ext \<Rightarrow> pg_side option \<Rightarrow> u32" where
  "firewall_side_to_npf_rule x (Some PG_WEST_SIDE) = NPF_RULE_OUT (x_npf x)"
| "firewall_side_to_npf_rule x (Some PG_EAST_SIDE) = NPF_RULE_IN (x_npf x)"
| "firewall_side_to_npf_rule x None = NPF_RULE_OUT (x_npf x) OR NPF_RULE_IN (x_npf x)"

definition pg_firewall_rule_add ::
    "ext \<Rightarrow> nat \<Rightarrow> string option \<Rightarrow> pg_side option \<Rightarrow> bool \<Rightarrow> world \<Rightarrow> (int, world) out" where
  "pg_firewall_rule_add x b flt side stateful w =
     obind (get_state st_firewall b w) (\<lambda>st w.
       let options = firewall_side_to_npf_rule x side;
           options = (if stateful then options OR NPF_RULE_STATEFUL (x_npf x) else options);
           rule = \<lparr>rule_attr = NPF_RULE_PASS (x_npf x) OR options, rule_code = None\<rparr> in
       case (case flt of None \<Rightarrow> Some rule | Some f \<Rightarrow> firewall_build_pcap_filter x rule f) of
         None \<Rightarrow> Ret (-1) (set_err (pg_error_new ''this filter failed to build: %s'' [the flt]) w)
       | Some rule \<Rightarrow> Ret 0 (upd_priv b (on_firewall (\<lambda>st. st\<lparr>fw_rules := fw_rules st @ [rule]\<rparr>)) w))"

text \<open>
  The loop of \<open>pg_firewall_rule_flush_side\<close>. The list is \<open>pre @ it\<close>; after a deletion the
  loop goes back to the head of the list.
\<close>

function flush_rules :: "(nl_rule \<Rightarrow> bool) \<Rightarrow> nl_rule list \<Rightarrow> nl_rule list \<Rightarrow> nl_rule list" where
  "flush_rules P pre [] = pre"
| "flush_rules P pre (r # it) =
     (if P r then flush_rules P [] (pre @ it) else flush_rules P (pre @ [r]) it)"
  by pat_completeness auto
termination
  by (relation "measures [\<lambda>(P, pre, it). length pre + length it, \<lambda>(P, pre, it). length it]") auto

definition on_side :: "ext \<Rightarrow> u32 \<Rightarrow> nl_rule \<Rightarrow> bool" where
  "on_side x pf_side r \<longleftrightarrow>
     rule_attr r AND (NPF_RULE_OUT (x_npf x) OR NPF_RULE_IN (x_npf x)) AND pf_side \<noteq> 0"

definition pg_firewall_rule_flush_side :: "ext \<Rightarrow> nat \<Rightarrow> pg_side option \<Rightarrow> world \<Rightarrow> (unit, world) out" where
  "pg_firewall_rule_flush_side x b side w =
     obind (get_state st_firewall b w) (\<lambda>st w.
       Ret () (upd_priv b (on_firewall (\<lambda>st. st\<lparr>fw_rules :=
         flush_rules (on_side x (firewall_side_to_npf_rule x side)) [] (fw_rules st)\<rparr>)) w))"

definition pg_firewall_rule_flush :: "nat \<Rightarrow> world \<Rightarrow> (unit, world) out" where
  "pg_firewall_rule_flush b w =
     obind (get_state st_firewall b w) (\<lambda>st w.
       Ret () (upd_priv b (on_firewall (\<lambda>st. st\<lparr>fw_rules := []\<rparr>)) w))"

definition firewall_reload_internal :: "ext \<Rightarrow> nat \<Rightarrow> world \<Rightarrow> (int, world) out" where
  "firewall_reload_internal x b w =
     obind (get_state st_firewall b w) (\<lambda>st w.
     obind (let (r, ms) = x_npfk_load (x_npf x) (fw_npf st) (fw_rules st) (mst w) in Ret r (w\<lparr>mst := ms\<rparr>))
       (\<lambda>npf_ret w.
     obind (call_out x (npfk_ifmap_attach (fw_npf st) (fw_ifp st)) w) (\<lambda>_ w.
       if npf_ret \<noteq> 0 then
         Ret (-1) (set_err (pg_error_new_errno npf_ret ''NPF failed to load configuration'' []) w)
       else Ret 0 w)))"

definition pg_firewall_reload :: "ext \<Rightarrow> nat \<Rightarrow> world \<Rightarrow> (int, world) out" where
  "pg_firewall_reload x b w = firewall_reload_internal x b w"

definition pg_firewall_new :: "brick_ops list \<Rightarrow> string \<Rightarrow> u64 \<Rightarrow> world \<Rightarrow> (nat option, world) out" where
  "pg_firewall_new reg nm flags w =
     pg_brick_new reg (Some ''firewall'') (Some (firewall_config_new nm (ucast flags))) w"

section \<open>Filtering\<close>

text \<open>
  One packet: the data offset moves behind the link-layer header for the time of the call.
  \<open>out\<close> is the direction, \<open>PFIL_OUT\<close>. Offsets have 16 bits.
\<close>

definition npf_verdict ::
    "ext \<Rightarrow> pg_firewall_state \<Rightarrow> bool \<Rightarrow> nat \<Rightarrow> world \<Rightarrow> (int, world) out" where
  "npf_verdict x st pfil_out p w =
     obind (Ret () (upd_mbuf p (\<lambda>m. m\<lparr>data_off := (data_off m + l2_len m) mod 65536\<rparr>) w)) (\<lambda>_ w.
     obind (let (r, ms) = x_npfk_packet_handler (x_npf x) (fw_npf st) (fw_ifp st) pfil_out p (mst w) in
            Ret r (w\<lparr>mst := ms\<rparr>)) (\<lambda>ret w.
     obind (get_mbuf p w) (\<lambda>_ w.
     Ret ret (upd_mbuf p (\<lambda>m. m\<lparr>data_off := (data_off m + (65536 - l2_len m)) mod 65536\<rparr>) w))))"

definition firewall_round ::
    "ext \<Rightarrow> pg_firewall_state \<Rightarrow> bool \<Rightarrow> arr \<Rightarrow> nat \<Rightarrow> u64 \<Rightarrow> world \<Rightarrow> (u64, world) out" where
  "firewall_round x st pfil_out pkts i pkts_mask w =
     obind (get_pkts pkts w) (\<lambda>f w.
     obind (pg_utils_get_ether_type (f i) w) (\<lambda>ether_type w.
       if ether_type \<noteq> PG_BE_ETHER_TYPE_IPv4 \<and> ether_type \<noteq> PG_BE_ETHER_TYPE_IPv6 then Ret pkts_mask w
       else
         obind (npf_verdict x st pfil_out (f i) w) (\<lambda>ret w.
         if ret \<noteq> 0 then Ret (pkts_mask AND NOT (push_bit i 1)) w else Ret pkts_mask w)))"

definition firewall_filter ::
    "ext \<Rightarrow> pg_firewall_state \<Rightarrow> bool \<Rightarrow> arr \<Rightarrow> u64 \<Rightarrow> world \<Rightarrow> (u64, world) out" where
  "firewall_filter x st pfil_out pkts pkts_mask w =
     oacc (firewall_round x st pfil_out pkts) (pg_foreach_bit pkts_mask) pkts_mask w"

definition firewall_burst ::
    "ext \<Rightarrow> burster \<Rightarrow> nat \<Rightarrow> pg_side \<Rightarrow> nat \<Rightarrow> arr \<Rightarrow> u64 \<Rightarrow> world \<Rightarrow> (int, world) out" where
  "firewall_burst x brst b from edge_index pkts pkts_mask w =
     obind (get_state st_firewall b w) (\<lambda>st w.
     obind (firewall_filter x st (from = PG_WEST_SIDE) pkts pkts_mask w) (\<lambda>pkts_mask w.
       if pkts_mask = 0 then Ret 0 w
       else burst_edge brst b (pg_flip_side from) from pkts pkts_mask w))"

section \<open>Creation and destruction\<close>

definition upd_glob :: "(globals \<Rightarrow> globals) \<Rightarrow> world \<Rightarrow> world" where
  "upd_glob f w = w\<lparr>glob := f (glob w)\<rparr>"

text \<open>The part of \<open>firewall_init\<close> that the first firewall runs.\<close>

definition npf_sysinit :: "ext \<Rightarrow> world \<Rightarrow> (bool, world) out" where
  "npf_sysinit x w =
     (if nb_firewall (glob w) \<noteq> 0 then Ret True w
      else
        obind (let (r, ms) = x_npfk_sysinit (x_npf x) (pg_npf_nworkers (glob w)) (mst w) in
               Ret r (w\<lparr>mst := ms\<rparr>)) (\<lambda>r w.
          if r < 0 then Ret False w
          else if is_dpdk_init (glob w) then Ret True w
          else obind (call_out x npf_dpdk_init w) (\<lambda>_ w.
            Ret True (upd_glob (\<lambda>g. g\<lparr>is_dpdk_init := True\<rparr>) w))))"

definition firewall_init :: "ext \<Rightarrow> nat \<Rightarrow> pg_brick_config \<Rightarrow> world \<Rightarrow> (int, world) out" where
  "firewall_init x b config w =
     (case brick_config config of
        Some (C_firewall flags) \<Rightarrow>
          obind (Ret () (set_burst b firewall_burst_fn w)) (\<lambda>_ w.
          let flags = (if pg_npf_nworkers (glob w) = 0 \<or> flags AND PG_NO_CONN_WORKER \<noteq> 0
                       then flags OR NPF_NO_GC (x_npf x) else flags) in
          obind (npf_sysinit x w) (\<lambda>ok w.
          if \<not> ok then Ret (-1) (set_err (pg_error_new ''fail during npf initialisation'' []) w)
          else
            obind (let (r, ms) = x_npf_dpdk_create (x_npf x) flags (mst w) in Ret r (w\<lparr>mst := ms\<rparr>)) (\<lambda>npf w.
            (case npf of
              None \<Rightarrow> Ret (-1) (set_err (pg_error_new ''fail to create npf'' []) w)
            | Some npf \<Rightarrow>
                obind (call_out x (npfk_thread_register npf) w) (\<lambda>_ w.
                obind (let (r, ms) = x_npf_dpdk_ifattach (x_npf x) npf (firewall_iface_cnt (glob w)) (mst w) in
                       Ret r (upd_glob (\<lambda>g. g\<lparr>firewall_iface_cnt := firewall_iface_cnt g + 1\<rparr>) (w\<lparr>mst := ms\<rparr>)))
                  (\<lambda>ifp w.
                obind (Ret () (upd_priv b (on_firewall (\<lambda>st. st\<lparr>fw_ifp := ifp\<rparr>)) w)) (\<lambda>_ w.
                if ifp = None then
                  obind (get_state st_firewall b w) (\<lambda>st w.
                  obind (call_out x (npfk_destroy (fw_npf st)) w) (\<lambda>_ w.
                  Ret (-1) (set_err (pg_error_new ''npf_dpdk_ifattach fail'' []) w)))
                else
                  obind (Ret () (upd_priv b (on_firewall (\<lambda>st. st\<lparr>fw_npf := Some npf, fw_rules := []\<rparr>)) w))
                    (\<lambda>_ w.
                  obind (Ret () (upd_glob (\<lambda>g. g\<lparr>nb_firewall := nb_firewall g + 1\<rparr>) w)) (\<lambda>_ w.
                  firewall_reload_internal x b w)))))))))
      | _ \<Rightarrow> Abort ''config of another brick'')"

definition firewall_destroy :: "ext \<Rightarrow> nat \<Rightarrow> world \<Rightarrow> (unit, world) out" where
  "firewall_destroy x b w =
     obind (get_state st_firewall b w) (\<lambda>st w.
     obind (pg_firewall_rule_flush b w) (\<lambda>_ w.
     obind (call_out x (npf_dpdk_ifdetach (fw_npf st) (fw_ifp st)) w) (\<lambda>_ w.
     obind (call_out x (npfk_thread_unregister (fw_npf st)) w) (\<lambda>_ w.
     obind (call_out x (npfk_destroy (fw_npf st)) w) (\<lambda>_ w.
     obind (Ret () (upd_glob (\<lambda>g. g\<lparr>nb_firewall := nb_firewall g - 1\<rparr>) w)) (\<lambda>_ w.
       if nb_firewall (glob w) = 0 then call_out x npfk_sysfini w else Ret () w))))))"

definition firewall_ops :: "ext \<Rightarrow> brick_ops" where
  "firewall_ops x = base_ops\<lparr>op_name := ''firewall'',
     op_zero := P_firewall \<lparr>fw_npf = None, fw_ifp = None, fw_rules = []\<rparr>,
     op_init := firewall_init x, op_destroy := Some (firewall_destroy x), op_unlink := True\<rparr>"

section \<open>Lemmas\<close>

lemma safe_step_firewall [simp]: "safe_step w (upd_priv b (on_firewall f) w)"
proof (rule safe_step_priv)
  fix br show "priv_step (priv_state br) (on_firewall f (priv_state br))"
    by (cases "priv_state br") (simp_all add: priv_step_def)
qed

lemma safe_upd_glob [simp]: "safe_step w (upd_glob f w)" "safe_step w (upd_glob f (w\<lparr>mst := ms\<rparr>))"
  by (rule safe_step_data; simp add: upd_glob_def)+

lemma firewall_flush_safe: "safe w (pg_firewall_rule_flush b w)"
  unfolding pg_firewall_rule_flush_def by (intro safe_intros; simp)

lemma firewall_reload_safe: "safe w (firewall_reload_internal x b w)"
  unfolding firewall_reload_internal_def by (intro safe_intros; simp)

lemma npf_sysinit_safe: "safe w (npf_sysinit x w)"
  unfolding npf_sysinit_def by (intro safe_intros; simp)

lemma firewall_init_safe: "safe w (firewall_init x b c w)"
proof (cases "brick_config c")
  case (Some bc)
  show ?thesis
  proof (cases bc)
    case (C_firewall flags)
    show ?thesis
      unfolding firewall_init_def Some C_firewall option.case bconf.case
      by (intro safe_intros npf_sysinit_safe firewall_reload_safe; simp)
  qed (simp_all add: firewall_init_def Some)
qed (simp add: firewall_init_def)

lemma firewall_destroy_safe: "safe w (firewall_destroy x b w)"
  unfolding firewall_destroy_def by (intro safe_intros firewall_flush_safe; simp)

lemma firewall_filter_safe: "safe w (firewall_filter x st d a m w)"
  unfolding firewall_filter_def firewall_round_def npf_verdict_def by (intro safe_intros; simp)

context bursts
begin

lemma firewall_burst_safe: "safe w (firewall_burst x brst b from i a m w)"
  unfolding firewall_burst_def by (intro safe_intros firewall_filter_safe burst_edge_safe; simp)

end

section \<open>Flushing a side\<close>

lemma flush_rules_filter: "\<forall>r \<in> set pre. \<not> P r \<Longrightarrow> flush_rules P pre it = filter (\<lambda>r. \<not> P r) (pre @ it)"
  by (induction P pre it rule: flush_rules.induct) (auto simp: filter_id_conv)

lemma st_on_firewall [simp]: "st_firewall (on_firewall f p) = map_option f (st_firewall p)"
  by (cases p) simp_all

lemma firewall_at_upd [simp]:
  "state_at st_firewall (upd_priv b (on_firewall f) w) b = map_option f (state_at st_firewall w b)"
  by (subst state_at_upd_priv [where g = f]) simp_all

text \<open>
  C28. Flushing a side ends, although the loop restarts at every deletion, and leaves exactly
  the rules whose attributes do not name that side. A rule that was added for both sides goes
  with the flush of either of them.
\<close>

theorem firewall_flush_side:
  assumes "state_at st_firewall w b = Some st"
  shows "oret (pg_firewall_rule_flush_side x b side w) (\<lambda>_ w'.
      state_at st_firewall w' b = Some (st\<lparr>fw_rules :=
        filter (\<lambda>r. \<not> on_side x (firewall_side_to_npf_rule x side) r) (fw_rules st)\<rparr>)) \<and>
    (firewall_side_to_npf_rule x side \<noteq> 0 \<longrightarrow>
      oret (obind (pg_firewall_rule_add x b None None stateful w) (\<lambda>_. pg_firewall_rule_flush_side x b side))
        (\<lambda>_ w'. state_at st_firewall w' b = Some (st\<lparr>fw_rules :=
           filter (\<lambda>r. \<not> on_side x (firewall_side_to_npf_rule x side) r) (fw_rules st)\<rparr>)))"
proof -
  let ?pf = "firewall_side_to_npf_rule x side"
  let ?both = "firewall_side_to_npf_rule x None"
  have sub: "?pf AND ?both = ?pf"
  proof (cases side)
    case (Some s)
    then show ?thesis
      by (cases s) (auto intro!: bit_word_eqI simp: bit_and_iff bit_or_iff)
  qed simp
  then have "bit ?both n" if "bit ?pf n" for n
    using that by (metis bit_and_iff)
  then have "(p OR (?both OR c)) AND ?both AND ?pf = ?pf" for p c
    by (intro bit_word_eqI) (auto simp only: bit_and_iff bit_or_iff)
  then have both: "on_side x ?pf \<lparr>rule_attr = p OR (?both OR c), rule_code = code\<rparr>" if "?pf \<noteq> 0" for p c code
    using that by (simp add: on_side_def)
  have both': "on_side x ?pf \<lparr>rule_attr = p OR ?both, rule_code = code\<rparr>" if "?pf \<noteq> 0" for p code
    using both [OF that, of p 0] by simp
  show ?thesis
    using assms both both'
    by (auto simp: pg_firewall_rule_flush_side_def pg_firewall_rule_add_def flush_rules_filter Let_def
        simp del: firewall_side_to_npf_rule.simps)
qed

definition demo_firewall :: pg_firewall_state where
  "demo_firewall = \<lparr>fw_npf = Some 1, fw_ifp = Some 1, fw_rules = [\<lparr>rule_attr = 0x20000001, rule_code = None\<rparr>]\<rparr>"

theorem firewall_flush_side_witness:
  "oret (obind (pg_firewall_rule_add demo_ext 0 None None True (place 0 (P_firewall demo_firewall) demo_world))
      (\<lambda>_. pg_firewall_rule_flush_side demo_ext 0 (Some PG_EAST_SIDE)))
    (\<lambda>_ w'. state_at st_firewall w' 0 = Some demo_firewall)"
proof -
  have "firewall_side_to_npf_rule demo_ext (Some PG_EAST_SIDE) \<noteq> 0"
    by (simp add: demo_ext_def demo_npf_def)
  moreover have "\<not> on_side demo_ext (firewall_side_to_npf_rule demo_ext (Some PG_EAST_SIDE))
      \<lparr>rule_attr = 0x20000001, rule_code = None\<rparr>"
    by (simp add: on_side_def demo_ext_def demo_npf_def)
  ultimately show ?thesis
    using firewall_flush_side [of "place 0 (P_firewall demo_firewall) demo_world" 0 demo_firewall demo_ext
        "Some PG_EAST_SIDE" True]
    by (auto simp: demo_firewall_def elim!: oret_mono)
qed

section \<open>What filtering does to a burst\<close>

text \<open>
  What \<open>firewall_burst\<close> relies on when it puts the link-layer header back after the call: the
  packets are still there, and NPF has not moved the start of their data. NPF may change their
  bytes, and its own state.
\<close>

definition layout :: "mstore \<Rightarrow> nat \<Rightarrow> (nat \<times> nat) option" where
  "layout ms p = map_option (\<lambda>m. (data_off m, l2_len m)) (mbufs ms p)"

definition npf_keeps_layout :: "ext \<Rightarrow> bool" where
  "npf_keeps_layout x \<longleftrightarrow> (\<forall>n i d p ms. layout (snd (x_npfk_packet_handler (x_npf x) n i d p ms)) = layout ms)"

definition ip_packet :: "mbuf \<Rightarrow> mstore \<Rightarrow> bool" where
  "ip_packet m ms \<longleftrightarrow>
     ld16 (bufs ms (buf_addr m)) (data_off m + l2_len m - 2) \<in> {PG_BE_ETHER_TYPE_IPv4, PG_BE_ETHER_TYPE_IPv6}"

text \<open>
  Filtering without masks: NPF is asked about one IP packet after the other, each without its
  link-layer header, and the result is the set of the packets it does not let pass.
\<close>

definition npf_ask :: "ext \<Rightarrow> pg_firewall_state \<Rightarrow> bool \<Rightarrow> nat \<Rightarrow> mstore \<Rightarrow> int \<times> mstore" where
  "npf_ask x st d p ms =
     (let m = the (mbufs ms p);
          (r, ms') = x_npfk_packet_handler (x_npf x) (fw_npf st) (fw_ifp st) d p
            (ms\<lparr>mbufs := (mbufs ms)(p \<mapsto> m\<lparr>data_off := data_off m + l2_len m\<rparr>)\<rparr>) in
      (r, ms'\<lparr>mbufs := (mbufs ms')(p := map_option (\<lambda>m'. m'\<lparr>data_off := data_off m\<rparr>) (mbufs ms' p))\<rparr>))"

primrec npf_run ::
    "ext \<Rightarrow> pg_firewall_state \<Rightarrow> bool \<Rightarrow> (nat \<Rightarrow> nat) \<Rightarrow> nat list \<Rightarrow> mstore \<Rightarrow> nat set \<times> mstore" where
  "npf_run x st d f [] ms = ({}, ms)"
| "npf_run x st d f (i # js) ms =
     (if ip_packet (the (mbufs ms (f i))) ms then
        let (r, ms1) = npf_ask x st d (f i) ms; (blocked, ms2) = npf_run x st d f js ms1 in
        (if r = 0 then blocked else insert i blocked, ms2)
      else npf_run x st d f js ms)"

lemma npf_verdict_ask:
  assumes "npf_keeps_layout x" and "mbufs (mst w) p = Some m" and "data_off m + l2_len m < 65536"
  shows "npf_verdict x st d p w = Ret (fst (npf_ask x st d p (mst w))) (w\<lparr>mst := snd (npf_ask x st d p (mst w))\<rparr>)"
    and "layout (snd (npf_ask x st d p (mst w))) = layout (mst w)"
proof -
  let ?ms = "(mst w)\<lparr>mbufs := (mbufs (mst w))(p \<mapsto> m\<lparr>data_off := data_off m + l2_len m\<rparr>)\<rparr>"
  obtain r ms where h: "x_npfk_packet_handler (x_npf x) (fw_npf st) (fw_ifp st) d p ?ms = (r, ms)"
    by (cases "x_npfk_packet_handler (x_npf x) (fw_npf st) (fw_ifp st) d p ?ms")
  have "layout (snd (x_npfk_packet_handler (x_npf x) (fw_npf st) (fw_ifp st) d p ?ms)) = layout ?ms"
    using assms(1) unfolding npf_keeps_layout_def by blast
  then have lay: "layout ms q = (if q = p then Some (data_off m + l2_len m, l2_len m) else layout (mst w) q)" for q
    by (simp add: h layout_def)
  obtain m' where m': "mbufs ms p = Some m'" "data_off m' = data_off m + l2_len m" "l2_len m' = l2_len m"
    using lay [of p] by (auto simp: layout_def)
  have undo: "(data_off m + l2_len m + (65536 - l2_len m)) mod 65536 = data_off m"
    using assms(3) by simp
  have ask: "npf_ask x st d p (mst w) = (r, ms\<lparr>mbufs := (mbufs ms)(p \<mapsto> m'\<lparr>data_off := data_off m\<rparr>)\<rparr>)"
    using assms(2) h m'(1) by (simp add: npf_ask_def)
  show "npf_verdict x st d p w = Ret (fst (npf_ask x st d p (mst w))) (w\<lparr>mst := snd (npf_ask x st d p (mst w))\<rparr>)"
    unfolding ask using assms(2,3) h m' undo by (simp add: npf_verdict_def upd_mbuf_def get_mbuf_def)
  show "layout (snd (npf_ask x st d p (mst w))) = layout (mst w)"
    unfolding ask using lay m' assms(2) by (auto simp: layout_def fun_eq_iff split: if_splits)
qed

lemma firewall_round_ok:
  assumes "npf_keeps_layout x" and "arrays w a = Some f" and m: "mbufs (mst w) (f i) = Some m"
    and len: "data_off m + l2_len m < 65536"
  shows "firewall_round x st d a i msk w =
    (if ip_packet m (mst w) then
       Ret (if fst (npf_ask x st d (f i) (mst w)) = 0 then msk else msk AND NOT (push_bit i 1))
         (w\<lparr>mst := snd (npf_ask x st d (f i) (mst w))\<rparr>)
     else Ret msk w)"
proof -
  have "pg_utils_get_ether_type (f i) w = Ret (ld16 (bufs (mst w) (buf_addr m)) (data_off m + l2_len m - 2)) w"
    using m len by (simp add: pg_utils_get_ether_type_def get_mbuf_def)
  then show ?thesis
    using assms(2) npf_verdict_ask(1) [OF assms(1) m len, of st d]
    by (auto simp: firewall_round_def ip_packet_def simp del: push_bit_of_1)
qed

definition fits :: "(nat \<Rightarrow> nat) \<Rightarrow> nat list \<Rightarrow> mstore \<Rightarrow> bool" where
  "fits f js ms \<longleftrightarrow> (\<forall>i \<in> set js. \<exists>off len. layout ms (f i) = Some (off, len) \<and> off + len < 65536)"

lemma firewall_loop:
  assumes "npf_keeps_layout x" and "arrays w a = Some f" and "\<forall>i \<in> set js. i < 64" and "fits f js (mst w)"
  shows "\<exists>m'. oacc (firewall_round x st d a) js msk w = Ret m' (w\<lparr>mst := snd (npf_run x st d f js (mst w))\<rparr>) \<and>
    (\<forall>k. bit m' k \<longleftrightarrow> bit msk k \<and> k \<notin> fst (npf_run x st d f js (mst w))) \<and>
    layout (snd (npf_run x st d f js (mst w))) = layout (mst w)"
  using assms(2-)
proof (induction js arbitrary: msk w)
  case (Cons i js)
  obtain m where m: "mbufs (mst w) (f i) = Some m" "data_off m + l2_len m < 65536"
    using Cons.prems(3) by (auto simp: fits_def layout_def)
  note round = firewall_round_ok [OF assms(1) Cons.prems(1) m, of st d msk]
  have fit: "fits f js ms" if "layout ms = layout (mst w)" for ms
    using Cons.prems(3) that by (simp add: fits_def)
  show ?case
  proof (cases "ip_packet m (mst w)")
    case False
    then show ?thesis using Cons.IH [of w msk] Cons.prems fit [of "mst w"] round m by simp
  next
    case True
    let ?r = "fst (npf_ask x st d (f i) (mst w))" and ?ms = "snd (npf_ask x st d (f i) (mst w))"
    define msk1 where "msk1 = (if ?r = 0 then msk else msk AND NOT (push_bit i 1))"
    have lay: "layout ?ms = layout (mst w)" by (rule npf_verdict_ask(2) [OF assms(1) m])
    have bits: "bit msk1 k \<longleftrightarrow> bit msk k \<and> (?r = 0 \<or> k \<noteq> i)" for k
      using Cons.prems(2) by (auto simp: msk1_def bit_and_iff bit_not_iff bit_exp_iff dest: bit64_less)
    obtain m' where "oacc (firewall_round x st d a) js msk1 (w\<lparr>mst := ?ms\<rparr>) =
          Ret m' (w\<lparr>mst := snd (npf_run x st d f js ?ms)\<rparr>)"
        "\<And>k. bit m' k \<longleftrightarrow> bit msk1 k \<and> k \<notin> fst (npf_run x st d f js ?ms)"
        "layout (snd (npf_run x st d f js ?ms)) = layout (mst w)"
      using Cons.IH [of "w\<lparr>mst := ?ms\<rparr>" msk1] Cons.prems(1,2) fit [OF lay] lay by auto
    then show ?thesis
      using round True m bits by (auto simp: msk1_def [symmetric] case_prod_beta Let_def)
  qed
qed simp

text \<open>
  C29. The firewall drops exactly the packets that NPF does not let pass. NPF is asked about the IPv4
  and IPv6 packets of the burst, in order, each without its link-layer header; a packet stays in
  the mask unless NPF answers with something else than 0. Afterwards every packet starts where it
  did before, and all else is as NPF left it.
\<close>

theorem firewall_filter_transparent:
  assumes "npf_keeps_layout x" and "arrays w a = Some f" and "fits f (pg_foreach_bit m) (mst w)"
  shows "oret (firewall_filter x st d a m w) (\<lambda>m' w'.
    (\<forall>i. bit m' i \<longleftrightarrow> bit m i \<and> i \<notin> fst (npf_run x st d f (pg_foreach_bit m) (mst w))) \<and>
    w' = w\<lparr>mst := snd (npf_run x st d f (pg_foreach_bit m) (mst w))\<rparr> \<and> layout (mst w') = layout (mst w))"
proof -
  have "\<forall>i \<in> set (pg_foreach_bit m). i < 64" by (auto simp: set_pg_foreach_bit dest: bit64_less)
  from firewall_loop [OF assms(1,2) this assms(3), of st d m] show ?thesis
    unfolding firewall_filter_def by auto
qed

text \<open>
  Packets 1 and 2 of the array are IPv4 packets and packet 3 is not. NPF blocks packet 2 and writes
  into the packets it sees.
\<close>

definition npf_demo :: ext where
  "npf_demo = demo_ext\<lparr>x_npf := demo_npf\<lparr>x_npfk_packet_handler :=
     (\<lambda>n i d p ms. (if p = 2 then 1 else 0, ms\<lparr>bufs := (bufs ms)(p := (bufs ms p)(200 := 9))\<rparr>))\<rparr>\<rparr>"

definition npf_world :: world where
  "npf_world = demo_world\<lparr>mst := (mst demo_world)\<lparr>bufs := (\<lambda>p k. if p \<noteq> 3 \<and> k = 140 then 8 else 0)\<rparr>\<rparr>"

theorem firewall_filter_transparent_witness:
  "oret (firewall_filter npf_demo demo_firewall True (Arr 0) 7 npf_world)
     (\<lambda>m' w'. bit m' 0 \<and> \<not> bit m' 1 \<and> bit m' 2 \<and> bufs (mst w') 2 200 = 9)"
proof -
  have bits: "pg_foreach_bit 7 = [0, 1, 2]" by code_simp
  have keep: "npf_keeps_layout npf_demo" by (simp add: npf_keeps_layout_def npf_demo_def layout_def fun_eq_iff)
  have arr: "arrays npf_world (Arr 0) = Some Suc" by (simp add: npf_world_def demo_world_def)
  have mb: "mbufs (mst npf_world) p = (if 1 \<le> p \<and> p \<le> 64 then Some (demo_mbuf\<lparr>buf_addr := p\<rparr>) else None)" for p
    by (simp add: npf_world_def demo_world_def)
  have fit: "fits Suc (pg_foreach_bit 7) (mst npf_world)"
    by (simp add: fits_def bits layout_def mb demo_mbuf_def)
  have types: "PG_BE_ETHER_TYPE_IPv4 = 8" "PG_BE_ETHER_TYPE_IPv6 \<noteq> 0" by code_simp+
  define run where "run = npf_run npf_demo demo_firewall True Suc (pg_foreach_bit 7) (mst npf_world)"
  have run: "fst run = {1}" "bufs (snd run) 2 200 = 9"
    by (simp_all add: run_def bits npf_ask_def ip_packet_def types ld16_def npf_demo_def npf_world_def demo_world_def
        demo_mbuf_def Let_def)
  have "{i. bit (7 :: u64) i} = {0, 1, 2}" unfolding set_pg_foreach_bit [symmetric] bits by simp
  then have seven: "bit (7 :: u64) i \<longleftrightarrow> i \<in> {0, 1, 2}" for i by blast
  have "oret (firewall_filter npf_demo demo_firewall True (Arr 0) 7 npf_world) (\<lambda>m' w'.
      (\<forall>i. bit m' i \<longleftrightarrow> i \<in> {0, 1, 2} \<and> i \<notin> fst run) \<and>
      w' = npf_world\<lparr>mst := snd run\<rparr> \<and> layout (mst w') = layout (mst npf_world))"
    unfolding run_def seven [symmetric] by (rule firewall_filter_transparent [OF keep arr fit])
  then show ?thesis by (rule oret_mono) (simp add: run)
qed

end
