(* ===== verification/PG_Pmtud.thy ===== *)
theory PG_Pmtud
  imports PG_Relay PG_Net
begin

text \<open>
  The path MTU discovery brick, \<open>src/pmtud.c\<close>: an IPv4 packet from the output side that is too
  big and must not be fragmented is dropped, and an ICMP message that says so goes back. The
  message is one packet, prepared by \<open>init\<close> and completed for every dropped packet; the
  pointer to it is slot 0 of an array of the brick.
\<close>

fun st_pmtud :: "priv \<Rightarrow> pg_pmtud_state option" where
  "st_pmtud (P_pmtud st) = Some st"
| "st_pmtud _ = None"

fun on_pmtud :: "(pg_pmtud_state \<Rightarrow> pg_pmtud_state) \<Rightarrow> priv \<Rightarrow> priv" where
  "on_pmtud f (P_pmtud st) = P_pmtud (f st)"
| "on_pmtud f p = p"

abbreviation pmtud_icmp :: "nat \<Rightarrow> arr" where "pmtud_icmp b \<equiv> Emb b 0"

definition pmtud_config_new :: "string \<Rightarrow> pg_side \<Rightarrow> u32 \<Rightarrow> pg_brick_config" where
  "pmtud_config_new nm output mtu_size =
     pg_brick_config_init (Some (C_pmtud output mtu_size)) nm 1 1 PG_DIPOLE"

text \<open>The checksum of the 36 bytes of an ICMP message.\<close>

definition icmp_checksum :: "ext \<Rightarrow> u8 list \<Rightarrow> u16" where
  "icmp_checksum x msg = NOT (x_raw_cksum_reduce x (x_raw_cksum x msg 0))"

text \<open>
  Completing the message \<open>icmp\<close> for a packet with the Ethernet header \<open>eth\<close> and the IPv4
  header \<open>ip\<close>. In the message the IPv4 header is at byte 14 and the ICMP message at byte 34.
\<close>

definition pmtud_fill :: "ext \<Rightarrow> nat \<Rightarrow> (nat \<Rightarrow> u8) \<Rightarrow> (nat \<Rightarrow> u8) \<Rightarrow> world \<Rightarrow> (unit, world) out" where
  "pmtud_fill x icmp eth ip w =
     obind (put_bytes icmp 6 (ether_dst eth) w) (\<lambda>_ w.
     obind (put_bytes icmp 0 (ether_src eth) w) (\<lambda>_ w.
     obind (put_bytes icmp (14 + 12) (bytes_at ip 16 4) w) (\<lambda>_ w.
     obind (put_bytes icmp (14 + 16) (bytes_at ip 12 4) w) (\<lambda>_ w.
     obind (put_bytes icmp (14 + 10) [0, 0] w) (\<lambda>_ w.
     obind (mtod icmp w) (\<lambda>buf w.
     obind (put_bytes icmp (14 + 10) (le16 (x_ipv4_cksum x (bytes_at buf 14 20))) w) (\<lambda>_ w.
     obind (put_bytes icmp (34 + 8) (bytes_at ip 0 20) w) (\<lambda>_ w.
     obind (put_bytes icmp (34 + 28) (bytes_at ip 20 8) w) (\<lambda>_ w.
     obind (put_bytes icmp (34 + 2) [0, 0] w) (\<lambda>_ w.
     obind (mtod icmp w) (\<lambda>buf w.
     put_bytes icmp (34 + 2) (le16 (icmp_checksum x (bytes_at buf 34 36))) w)))))))))))"

definition pmtud_too_big :: "u32 \<Rightarrow> u16 \<Rightarrow> (nat \<Rightarrow> u8) \<Rightarrow> mbuf \<Rightarrow> bool" where
  "pmtud_too_big eth_mtu_size ether_type ip m \<longleftrightarrow>
     ether_type = PG_BE_ETHER_TYPE_IPv4 \<and> ld16 ip 6 AND PG_CPU_TO_BE_16 IPV4_HDR_DF_FLAG \<noteq> 0 \<and>
     unat eth_mtu_size < pkt_len m"

text \<open>The loop over the burst; \<open>None\<close> is the return of -1 when the message cannot be sent.\<close>

primrec pmtud_loop ::
    "ext \<Rightarrow> burster \<Rightarrow> nat \<Rightarrow> u32 \<Rightarrow> pg_side \<Rightarrow> arr \<Rightarrow> nat list \<Rightarrow> u64 \<Rightarrow> world \<Rightarrow> (u64 option, world) out" where
  "pmtud_loop x brst b mtu from pkts [] pkts_mask w = Ret (Some pkts_mask) w"
| "pmtud_loop x brst b mtu from pkts (i # is) pkts_mask w =
     obind (get_pkts pkts w) (\<lambda>f w.
     obind (pg_utils_get_l3 (f i) w) (\<lambda>ip w.
     obind (mtod (f i) w) (\<lambda>eth w.
     obind (pg_utils_get_ether_type (f i) w) (\<lambda>ether_type w.
     obind (get_mbuf (f i) w) (\<lambda>m w.
       if pmtud_too_big mtu ether_type ip m then
         obind (get_pkts (pmtud_icmp b) w) (\<lambda>g w.
         obind (pmtud_fill x (g 0) eth ip w) (\<lambda>_ w.
         obind (burst_edge brst b from (pg_flip_side from) (pmtud_icmp b) 1 w) (\<lambda>ret w.
           if ret < 0 then Ret None w
           else pmtud_loop x brst b mtu from pkts is (pkts_mask XOR push_bit i 1) w)))
       else pmtud_loop x brst b mtu from pkts is pkts_mask w)))))"

definition pmtud_burst ::
    "ext \<Rightarrow> burster \<Rightarrow> nat \<Rightarrow> pg_side \<Rightarrow> nat \<Rightarrow> arr \<Rightarrow> u64 \<Rightarrow> world \<Rightarrow> (int, world) out" where
  "pmtud_burst x brst b from edge_index pkts pkts_mask w =
     obind (get_state st_pmtud b w) (\<lambda>st w.
     obind (if pm_output st = from
            then pmtud_loop x brst b (pm_eth_mtu_size st) from pkts (pg_foreach_bit pkts_mask) pkts_mask w
            else Ret (Some pkts_mask) w) (\<lambda>r w.
       case r of None \<Rightarrow> Ret (-1) w
       | Some pkts_mask \<Rightarrow>
           if pkts_mask = 0 then Ret 0 w
           else burst_edge brst b (pg_flip_side from) from pkts pkts_mask w))"

definition pmtud_init :: "ext \<Rightarrow> nat \<Rightarrow> pg_brick_config \<Rightarrow> world \<Rightarrow> (int, world) out" where
  "pmtud_init x b config w =
     (case brick_config config of
        Some (C_pmtud output mtu_size) \<Rightarrow>
          obind (Ret () (set_burst b pmtud_burst_fn w)) (\<lambda>_ w.
          obind (Ret () (upd_priv b (on_pmtud (\<lambda>st. st\<lparr>pm_output := output, pm_eth_mtu_size := mtu_size,
            pm_icmp_mtu_size := mtu_size - 14\<rparr>)) w)) (\<lambda>_ w.
          obind (let (r, ms) = x_alloc x (mst w) in Ret r (w\<lparr>mst := ms\<rparr>)) (\<lambda>r w.
          (case r of
             None \<Rightarrow> Ret (-1) (set_err (pg_error_new ''cannot allocate icmp packet'' []) w)
           | Some p \<Rightarrow>
               obind (set_pkt (pmtud_icmp b) 0 p w) (\<lambda>_ w.
               obind (pg_packets_append_ether x (pmtud_icmp b) 1 (replicate 6 0) (replicate 6 0)
                        ETHER_TYPE_IPv4 w) (\<lambda>_ w.
               obind (pg_packets_append_ipv4 x (pmtud_icmp b) 1 1 2 (36 + 20) PG_ICMP_PROTOCOL w) (\<lambda>_ w.
               obind (Ret () (upd_mbuf p (\<lambda>m. m\<lparr>l2_len := 14, l2_type := unat PG_BE_ETHER_TYPE_IPv4 mod 16\<rparr>) w))
                 (\<lambda>_ w.
               obind (let (r, ms) = x_append x p 36 (mst w) in Ret r (w\<lparr>mst := ms\<rparr>)) (\<lambda>off w.
               (case off of
                  None \<Rightarrow> Abort ''null pointer''
                | Some off \<Rightarrow>
                    obind (write_bytes p off [3, 4] w) (\<lambda>_ w.
                    obind (write_bytes p (off + 4) ([0, 0] @ be16 (ucast (mtu_size - 14))) w) (\<lambda>_ w.
                    Ret 0 w))))))))))))
      | _ \<Rightarrow> Abort ''config of another brick'')"

definition pg_pmtud_new :: "brick_ops list \<Rightarrow> string \<Rightarrow> pg_side \<Rightarrow> u32 \<Rightarrow> world \<Rightarrow> (nat option, world) out" where
  "pg_pmtud_new reg nm output mtu_size w =
     pg_brick_new reg (Some ''pmtud'') (Some (pmtud_config_new nm output mtu_size)) w"

definition pmtud_destroy :: "ext \<Rightarrow> nat \<Rightarrow> world \<Rightarrow> (unit, world) out" where
  "pmtud_destroy x b w =
     obind (get_state st_pmtud b w) (\<lambda>_ w.
     obind (get_pkts (pmtud_icmp b) w) (\<lambda>f w.
     obind (Ret () (w\<lparr>mst := x_free x (f 0) (mst w)\<rparr>)) (\<lambda>_ w.
     set_pkt (pmtud_icmp b) 0 0 w)))"

definition pmtud_ops :: "ext \<Rightarrow> brick_ops" where
  "pmtud_ops x = base_ops\<lparr>op_name := ''pmtud'',
     op_zero := P_pmtud \<lparr>pm_output = PG_WEST_SIDE, pm_eth_mtu_size = 0, pm_icmp_mtu_size = 0\<rparr>,
     op_init := pmtud_init x, op_destroy := Some (pmtud_destroy x), op_unlink := True\<rparr>"

section \<open>Lemmas\<close>

lemma safe_step_pmtud [simp]: "safe_step w (upd_priv b (on_pmtud f) w)"
proof (rule safe_step_priv)
  fix br show "priv_step (priv_state br) (on_pmtud f (priv_state br))"
    by (cases "priv_state br") (simp_all add: priv_step_def)
qed

lemma pmtud_fill_safe: "safe w (pmtud_fill x p eth ip w)"
  unfolding pmtud_fill_def by (intro safe_intros)

lemma pmtud_init_safe: "safe w (pmtud_init x b c w)"
proof (cases "brick_config c")
  case (Some bc)
  show ?thesis
  proof (cases bc)
    case (C_pmtud os mtu)
    show ?thesis
      unfolding pmtud_init_def Some C_pmtud option.case bconf.case pg_packets_append_ether_def
        pg_packets_append_ipv4_def pg_packets_ops_ether_def packets_ops_ipv4_def
      by (intro safe_intros safe_packets_ops; simp)
  qed (simp_all add: pmtud_init_def Some)
qed (simp add: pmtud_init_def)

lemma pmtud_destroy_safe: "safe w (pmtud_destroy x b w)"
  unfolding pmtud_destroy_def by (intro safe_intros; simp)

context bursts
begin

lemma pmtud_loop_safe: "safe w (pmtud_loop x brst b mtu from a is m w)"
proof (induction "is" arbitrary: m w)
  case (Cons i js)
  show ?case
    unfolding pmtud_loop.simps by (intro safe_intros pmtud_fill_safe burst_edge_safe Cons; simp)
qed simp

lemma pmtud_burst_safe: "safe w (pmtud_burst x brst b from i a m w)"
  unfolding pmtud_burst_def by (intro safe_intros pmtud_loop_safe burst_edge_safe; simp)

end

section \<open>The message\<close>

text \<open>The completed message as a list of writes, and the checksums over what is there by then.\<close>

definition pmtud_addresses :: "(nat \<Rightarrow> u8) \<Rightarrow> (nat \<Rightarrow> u8) \<Rightarrow> (nat \<Rightarrow> u8) \<Rightarrow> (nat \<Rightarrow> u8)" where
  "pmtud_addresses eth ip f = set_bytes 24 [0, 0] (set_bytes 30 (bytes_at ip 12 4) (set_bytes 26 (bytes_at ip 16 4)
     (set_bytes 0 (ether_src eth) (set_bytes 6 (ether_dst eth) f))))"

definition pmtud_quote :: "ext \<Rightarrow> (nat \<Rightarrow> u8) \<Rightarrow> (nat \<Rightarrow> u8) \<Rightarrow> (nat \<Rightarrow> u8)" where
  "pmtud_quote x ip f = set_bytes 36 [0, 0] (set_bytes 62 (bytes_at ip 20 8) (set_bytes 42 (bytes_at ip 0 20)
     (set_bytes 24 (le16 (x_ipv4_cksum x (bytes_at f 14 20))) f)))"

lemma pmtud_fill_buf:
  fixes eth ip :: "nat \<Rightarrow> u8" and x :: ext
  assumes "mbufs (mst w) p = Some m" and "f = pkt_bytes 0 m (mst w)"
  defines "g \<equiv> pmtud_quote x ip (pmtud_addresses eth ip f)"
  shows "oret (pmtud_fill x p eth ip w) (\<lambda>_ w'. pkt_bytes 0 m (mst w') =
      set_bytes 36 (le16 (icmp_checksum x (bytes_at g 34 36))) g \<and> mbufs (mst w') = mbufs (mst w))"
proof -
  have w: "w = with_buf m (bufs (mst w) (buf_addr m)) w" by (simp add: with_buf_def)
  have f: "f = (\<lambda>i. bufs (mst w) (buf_addr m) (data_off m + i))" by (simp add: assms(2) pkt_bytes_def)
  have mb: "pkt_bytes 0 m (mst (with_buf m B w)) = (\<lambda>i. B (data_off m + i))" for B
    by (simp add: pkt_bytes_def with_buf_def)
  have "mbufs (mst (with_buf m B w)) = mbufs (mst w)" for B by (simp add: with_buf_def)
  then show ?thesis
    unfolding pmtud_fill_def
    by (subst w) (simp add: put_bytes_buf [OF assms(1)] mtod_buf [OF assms(1)] mb poke_shift poke_shift0
        g_def pmtud_quote_def pmtud_addresses_def f del: poke.simps)
qed

text \<open>
  C30. The ICMP message for a packet that is too big goes to where the packet came from and
  quotes it: Ethernet and IPv4 addresses are those of the packet, swapped, and the message
  carries the IPv4 header and the first eight bytes after it. Both checksums are those of the
  finished headers with their checksum fields zero, and the type, the code and the next-hop
  MTU that \<open>init\<close> wrote stay.
\<close>

theorem pmtud_message_quotes_packet:
  assumes "mbufs (mst w) p = Some m"
  shows "oret (pmtud_fill x p eth ip w) (\<lambda>_ w'.
    let f = pkt_bytes 0 m (mst w); msg = pkt_bytes 0 m (mst w') in
      bytes_at msg 0 6 = ether_src eth \<and> bytes_at msg 6 6 = ether_dst eth \<and>
      bytes_at msg 26 4 = bytes_at ip 16 4 \<and> bytes_at msg 30 4 = bytes_at ip 12 4 \<and>
      bytes_at msg 42 20 = bytes_at ip 0 20 \<and> bytes_at msg 62 8 = bytes_at ip 20 8 \<and>
      bytes_at msg 24 2 = le16 (x_ipv4_cksum x (bytes_at msg 14 10 @ [0, 0] @ bytes_at msg 26 8)) \<and>
      bytes_at msg 36 2 = le16 (icmp_checksum x (bytes_at msg 34 2 @ [0, 0] @ bytes_at msg 38 32)) \<and>
      bytes_at msg 34 2 = bytes_at f 34 2 \<and> bytes_at msg 38 4 = bytes_at f 38 4)"
proof -
  define f where "f = pkt_bytes 0 m (mst w)"
  define h where "h = pmtud_addresses eth ip f"
  define g where "g = pmtud_quote x ip h"
  define msg where "msg = set_bytes 36 (le16 (icmp_checksum x (bytes_at g 34 36))) g"
  have len: "length (ether_src e) = 6" "length (ether_dst e) = 6" "length (le16 c) = 2"
      "length (bytes_at e i n) = n" for e c i n
    by (simp_all add: ether_src_def ether_dst_def le16_def bytes_at_def)
  note at = bytes_at_set_bytes len
  have app: "bytes_at e 14 20 = bytes_at e 14 10 @ bytes_at e 24 2 @ bytes_at e 26 8"
      "bytes_at e 34 36 = bytes_at e 34 2 @ bytes_at e 36 2 @ bytes_at e 38 32" for e
    using bytes_at_append [of e 14 10 10] bytes_at_append [of e 24 2 8]
      bytes_at_append [of e 34 2 34] bytes_at_append [of e 36 2 32] by simp_all
  have "bytes_at h 14 20 = bytes_at msg 14 10 @ [0, 0] @ bytes_at msg 26 8"
    unfolding app msg_def g_def pmtud_quote_def h_def pmtud_addresses_def by (simp add: at)
  moreover have "bytes_at g 34 36 = bytes_at msg 34 2 @ [0, 0] @ bytes_at msg 38 32"
    unfolding app msg_def g_def pmtud_quote_def by (simp add: at)
  moreover have "bytes_at msg 24 2 = le16 (x_ipv4_cksum x (bytes_at h 14 20))"
      "bytes_at msg 36 2 = le16 (icmp_checksum x (bytes_at g 34 36))"
    unfolding msg_def g_def pmtud_quote_def by (simp_all add: at)
  moreover have "bytes_at msg 0 6 = ether_src eth" "bytes_at msg 6 6 = ether_dst eth"
      "bytes_at msg 26 4 = bytes_at ip 16 4" "bytes_at msg 30 4 = bytes_at ip 12 4"
      "bytes_at msg 42 20 = bytes_at ip 0 20" "bytes_at msg 62 8 = bytes_at ip 20 8"
      "bytes_at msg 34 2 = bytes_at f 34 2" "bytes_at msg 38 4 = bytes_at f 38 4"
    unfolding msg_def g_def pmtud_quote_def h_def pmtud_addresses_def by (simp_all add: at)
  ultimately show ?thesis
    using pmtud_fill_buf [OF assms f_def, of x eth ip]
    unfolding h_def [symmetric] g_def [symmetric] msg_def [symmetric] f_def [symmetric]
    by (auto simp: Let_def elim!: oret_mono)
qed

theorem pmtud_message_quotes_packet_witness:
  "oret (pmtud_fill demo_ext 1 (\<lambda>i. word_of_nat i) (\<lambda>i. word_of_nat (2 * i)) demo_world) (\<lambda>_ w'.
    bytes_at (pkt_bytes 0 (demo_mbuf\<lparr>buf_addr := 1\<rparr>) (mst w')) 0 6 = ether_src (\<lambda>i. word_of_nat i))"
proof -
  have "mbufs (mst demo_world) 1 = Some (demo_mbuf\<lparr>buf_addr := 1\<rparr>)" by (simp add: demo_world_def)
  from pmtud_message_quotes_packet [OF this, of demo_ext "\<lambda>i. word_of_nat i" "\<lambda>i. word_of_nat (2 * i)"]
  show ?thesis by (auto simp: Let_def elim!: oret_mono)
qed

end
