(* ===== verification/PG_Nic.thy ===== *)
theory PG_Nic
  imports PG_Relay PG_Net
begin

text \<open>
  The brick of a network card, \<open>src/nic.c\<close>: a burst goes to the transmit queue of the port,
  and a poll forwards what the receive queue of the port has. The Ethernet devices of DPDK
  are functions of \<open>ext\<close>. \<open>port_conf\<close> of \<open>nic_init_ports\<close> is a static variable, so the offload
  flags of one card stay for the next one. The arrays \<open>pkts\<close> and \<open>exit_pkts\<close> belong to the brick.
\<close>

fun st_nic :: "priv \<Rightarrow> pg_nic_state option" where
  "st_nic (P_nic st) = Some st"
| "st_nic _ = None"

fun on_nic :: "(pg_nic_state \<Rightarrow> pg_nic_state) \<Rightarrow> priv \<Rightarrow> priv" where
  "on_nic f (P_nic st) = P_nic (f st)"
| "on_nic f p = p"

abbreviation nic_pkts :: "nat \<Rightarrow> arr" where "nic_pkts b \<equiv> Emb b 0"
abbreviation exit_pkts :: "nat \<Rightarrow> arr" where "exit_pkts b \<equiv> Emb b 1"

definition NIC_ARGS_MAX_SIZE :: nat where "NIC_ARGS_MAX_SIZE = 1024"

definition pg_nic_port :: "ext \<Rightarrow> string \<Rightarrow> world \<Rightarrow> (int, world) out" where
  "pg_nic_port x ifname w = (let (r, ms) = x_eth_attach (x_eth x) ifname (mst w) in Ret r (w\<lparr>mst := ms\<rparr>))"

definition pg_nic_get_mac :: "ext \<Rightarrow> nat \<Rightarrow> world \<Rightarrow> (u8 list, world) out" where
  "pg_nic_get_mac x b w =
     obind (get_state st_nic b w) (\<lambda>st w. Ret (x_eth_macaddr (x_eth x) (nic_portid st) (mst w)) w)"

definition pg_nic_capabilities :: "ext \<Rightarrow> nat \<Rightarrow> world \<Rightarrow> (u32 \<times> u32, world) out" where
  "pg_nic_capabilities x b w =
     obind (get_state st_nic b w) (\<lambda>st w.
       Ret (ucast (x_eth_rx_offload_capa (x_eth x) (nic_portid st) (mst w)),
            ucast (x_eth_tx_offload_capa (x_eth x) (nic_portid st) (mst w))) w)"

definition nic_config_new :: "string \<Rightarrow> string option \<Rightarrow> nat \<Rightarrow> pg_brick_config" where
  "nic_config_new nm ifname portid =
     pg_brick_config_init
       (Some (case ifname of
          Some s \<Rightarrow> C_nic (take (NIC_ARGS_MAX_SIZE - 1) s) 0
        | None \<Rightarrow> C_nic [] portid)) nm 1 1 PG_MONOPOLE"

fun nic_rx_bytes :: "ext \<Rightarrow> priv \<Rightarrow> mstore \<Rightarrow> u64" where
  "nic_rx_bytes x (P_nic st) ms = x_eth_ibytes (x_eth x) (nic_portid st) ms"
| "nic_rx_bytes x p ms = 0"

fun nic_tx_bytes :: "ext \<Rightarrow> priv \<Rightarrow> mstore \<Rightarrow> u64" where
  "nic_tx_bytes x (P_nic st) ms = x_eth_obytes (x_eth x) (nic_portid st) ms"
| "nic_tx_bytes x p ms = 0"

section \<open>Sending\<close>

definition nic_burst ::
    "ext \<Rightarrow> nat \<Rightarrow> pg_side \<Rightarrow> nat \<Rightarrow> arr \<Rightarrow> u64 \<Rightarrow> world \<Rightarrow> (int, world) out" where
  "nic_burst x b from edge_index pkts pkts_mask w =
     obind (get_state st_nic b w) (\<lambda>st w.
     obind (pg_packets_pack (exit_pkts b) pkts pkts_mask w) (\<lambda>count w.
     obind (pg_packets_incref x pkts pkts_mask w) (\<lambda>_ w.
     obind (get_pkts (exit_pkts b) w) (\<lambda>f w.
     obind (Ret () (w\<lparr>mst := x_eth_tx_prepare (x_eth x) (nic_portid st) (map f [0..<count]) (mst w)\<rparr>)) (\<lambda>_ w.
     obind (let (n, ms) = x_eth_tx_burst (x_eth x) (nic_portid st) (map f [0..<count]) (mst w) in
            Ret n (w\<lparr>mst := ms\<rparr>)) (\<lambda>pkts_bursted w.
     obind (if pkts_bursted < count then
              pg_packets_free x (exit_pkts b)
                (pg_mask_firsts (word_of_nat count) AND NOT (pg_mask_firsts (word_of_nat pkts_bursted))) w
            else Ret () w) (\<lambda>_ w.
     Ret 0 w)))))))"

text \<open>
  The checksum of one packet in software. The header starts 14 bytes before the network
  layer, so the IPv4 header is at byte 14 of it and the transport header at byte 34.
\<close>

definition nic_cksum :: "ext \<Rightarrow> nat \<Rightarrow> world \<Rightarrow> (unit, world) out" where
  "nic_cksum x p w =
     obind (get_mbuf p w) (\<lambda>m w.
       if ol_flags m AND (PKT_TX_UDP_CKSUM (x_eth x) OR PKT_TX_TCP_CKSUM (x_eth x)) = 0 then Ret () w
       else
         let hdr = data_off m + l2_len m - 14; buf = (\<lambda>w. bufs (mst w) (buf_addr m));
             next_proto_id = buf w (hdr + 23) in
         if PG_CPU_TO_BE_16 (ld16 (buf w) (hdr + 12)) \<noteq> ETHER_TYPE_IPv4 \<or>
            next_proto_id \<noteq> PG_TCP_PROTOCOL_NUMBER \<and> next_proto_id \<noteq> PG_UDP_PROTOCOL_NUMBER then Ret () w
         else
           let ipv4_csum = ld16 (buf w) (hdr + 24);
               field = hdr + 34 + (if next_proto_id = PG_TCP_PROTOCOL_NUMBER then 16 else 6) in
           obind (write_bytes p (hdr + 24) [0, 0] w) (\<lambda>_ w.
           obind (write_bytes p field [0, 0] w) (\<lambda>_ w.
           obind (write_bytes p field (le16 (x_udptcp_cksum (x_eth x) (buf w) (hdr + 14) (hdr + 34))) w) (\<lambda>_ w.
           write_bytes p (hdr + 24) (le16 ipv4_csum) w))))"

definition nic_burst_no_offload ::
    "ext \<Rightarrow> nat \<Rightarrow> pg_side \<Rightarrow> nat \<Rightarrow> arr \<Rightarrow> u64 \<Rightarrow> world \<Rightarrow> (int, world) out" where
  "nic_burst_no_offload x b from edge_index pkts pkts_mask w =
     obind (ofold (\<lambda>i w. obind (get_pkts pkts w) (\<lambda>f w. nic_cksum x (f i) w)) (pg_foreach_bit pkts_mask) w) (\<lambda>_ w.
     nic_burst x b from edge_index pkts pkts_mask w)"

section \<open>Receiving\<close>

definition nic_poll_forward :: "ext \<Rightarrow> burster \<Rightarrow> nat \<Rightarrow> nat \<Rightarrow> world \<Rightarrow> (int, world) out" where
  "nic_poll_forward x brst b nb_pkts w =
     obind (get_state st_nic b w) (\<lambda>st w.
     obind (get_brick b w) (\<lambda>br w.
       if link (edge (sides br PG_WEST_SIDE)) = None then Ret 0 w
       else
         let pkts_mask = pg_mask_firsts (word_of_nat nb_pkts) in
         obind (burst_edge brst b PG_WEST_SIDE (nic_output st) (nic_pkts b) pkts_mask w) (\<lambda>ret w.
         obind (pg_packets_free x (nic_pkts b) pkts_mask w) (\<lambda>_ w.
         Ret ret w))))"

definition nic_poll :: "ext \<Rightarrow> burster \<Rightarrow> nat \<Rightarrow> nat \<Rightarrow> world \<Rightarrow> (int \<times> nat, world) out" where
  "nic_poll x brst b pkts_cnt w =
     obind (get_state st_nic b w) (\<lambda>st w.
     obind (get_pkts (nic_pkts b) w) (\<lambda>f w.
     obind (let (ps, ms) = x_eth_rx_burst (x_eth x) (nic_portid st) 64 (mst w) in
            Ret (length ps) (w\<lparr>mst := ms,
              arrays := (arrays w)(nic_pkts b \<mapsto> (\<lambda>i. if i < length ps then ps ! i else f i))\<rparr>)) (\<lambda>nb_pkts w.
       if nb_pkts = 0 then Ret (0, 0) w
       else
         obind (ofold (\<lambda>i w. obind (get_pkts (nic_pkts b) w) (\<lambda>f w. pg_utils_guess_metadata x (f i) w))
                  [0..<nb_pkts] w) (\<lambda>_ w.
         obind (nic_poll_forward x brst b nb_pkts w) (\<lambda>ret w.
         Ret (ret, nb_pkts) w)))))"

section \<open>Creation and destruction\<close>

definition DEV_TX_OFFLOAD_CHECK :: "ext \<Rightarrow> u64" where
  "DEV_TX_OFFLOAD_CHECK x = DEV_TX_OFFLOAD_UDP_CKSUM (x_eth x) OR DEV_TX_OFFLOAD_TCP_CKSUM (x_eth x)"

definition eth_call :: "(mstore \<Rightarrow> int \<times> mstore) \<Rightarrow> world \<Rightarrow> (int, world) out" where
  "eth_call f w = (let (r, ms) = f (mst w) in Ret r (w\<lparr>mst := ms\<rparr>))"

definition nic_init_ports :: "ext \<Rightarrow> nat \<Rightarrow> world \<Rightarrow> (int, world) out" where
  "nic_init_ports x portid w =
     obind (Ret () (if x_eth_tx_offload_capa (x_eth x) portid (mst w) AND DEV_TX_OFFLOAD_CHECK x \<noteq> 0
            then w\<lparr>glob := (glob w)\<lparr>port_conf_offloads := port_conf_offloads (glob w) OR DEV_TX_OFFLOAD_CHECK x\<rparr>\<rparr>
            else w)) (\<lambda>_ w.
     obind (eth_call (x_eth_dev_configure (x_eth x) portid (port_conf_offloads (glob w))) w) (\<lambda>ret w.
       if ret < 0 then
         Ret (-1) (set_err (pg_error_new ''Port configuration %u failed (may already be in use)'' [nat_str portid]) w)
       else
     obind (eth_call (x_eth_rx_queue_setup (x_eth x) portid) w) (\<lambda>ret w.
       if ret < 0 then
         Ret (-1) (set_err (pg_error_new ''Setup failed for port rx queue 0, port %d'' [nat_str portid]) w)
       else
     obind (eth_call (x_eth_tx_queue_setup (x_eth x) portid (port_conf_offloads (glob w))) w) (\<lambda>ret w.
       if ret < 0 then
         Ret (-1) (set_err (pg_error_new ''Setup failed for port tx queue 0, port %d'' [nat_str portid]) w)
       else Ret 0 w))))"

definition pg_nic_port_count :: "ext \<Rightarrow> world \<Rightarrow> int" where
  "pg_nic_port_count x w = x_eth_dev_count (x_eth x) (mst w)"

text \<open>The first part of \<open>nic_init\<close>: the port to use, or an error.\<close>

definition nic_setup_port :: "ext \<Rightarrow> string \<Rightarrow> nat \<Rightarrow> world \<Rightarrow> (nat option, world) out" where
  "nic_setup_port x ifname portid w =
     (if ifname \<noteq> [] then
        obind (pg_nic_port x ifname w) (\<lambda>ret w.
          if ret < 0 then Ret None (set_err (pg_error_new (''Failed to attach port %s'' @ [CHR 0x0A]) [ifname]) w)
          else Ret (Some (nat ret mod 65536)) w)
      else if int portid < pg_nic_port_count x w then Ret (Some portid) w
      else Ret None (set_err (pg_error_new ''Invalid port id %i'' [nat_str portid]) w))"

definition nic_init :: "ext \<Rightarrow> nat \<Rightarrow> pg_brick_config \<Rightarrow> world \<Rightarrow> (int, world) out" where
  "nic_init x b config w =
     (case brick_config config of
        Some (C_nic ifname portid) \<Rightarrow>
          obind (nic_setup_port x ifname portid w) (\<lambda>r w.
          (case r of
             None \<Rightarrow> Ret (-1) w
           | Some portid \<Rightarrow>
               obind (Ret () (upd_priv b (on_nic (\<lambda>st. st\<lparr>nic_portid := portid\<rparr>)) w)) (\<lambda>_ w.
               obind (nic_init_ports x portid w) (\<lambda>ret w.
               if ret < 0 then Ret (-1) w
               else
                 obind (eth_call (x_eth_dev_start (x_eth x) portid) w) (\<lambda>ret w.
                 if ret < 0 then
                   Ret (-1) (set_err (pg_error_new ''Device failed to start on port %d'' [nat_str portid]) w)
                 else
                   obind (Ret () (w\<lparr>mst := x_call x (rte_eth_promiscuous_enable portid) (mst w)\<rparr>)) (\<lambda>_ w.
                   let offload = (case x_eth_txq_offloads (x_eth x) portid (mst w) of None \<Rightarrow> False
                         | Some flags \<Rightarrow> flags AND DEV_TX_OFFLOAD_TCP_CKSUM (x_eth x) \<noteq> 0 \<and>
                                         flags AND DEV_TX_OFFLOAD_UDP_CKSUM (x_eth x) \<noteq> 0) in
                   obind (Ret () (set_burst b (if offload then nic_burst_fn else nic_burst_no_offload_fn) w)) (\<lambda>_ w.
                   Ret 0 (set_poll b nic_poll_fn w))))))))
      | _ \<Rightarrow> Abort ''config of another brick'')"

definition nic_destroy :: "ext \<Rightarrow> nat \<Rightarrow> world \<Rightarrow> (unit, world) out" where
  "nic_destroy x b w =
     obind (get_state st_nic b w) (\<lambda>st w.
     obind (Ret () (w\<lparr>mst := x_call x (rte_eth_xstats_reset (nic_portid st)) (mst w)\<rparr>)) (\<lambda>_ w.
     obind (Ret () (w\<lparr>mst := x_call x (rte_eth_dev_stop (nic_portid st)) (mst w)\<rparr>)) (\<lambda>_ w.
     Ret () (w\<lparr>mst := x_call x (rte_eth_dev_close (nic_portid st)) (mst w)\<rparr>))))"

definition pg_nic_new :: "brick_ops list \<Rightarrow> string \<Rightarrow> string option \<Rightarrow> world \<Rightarrow> (nat option, world) out" where
  "pg_nic_new reg nm ifname w = pg_brick_new reg (Some ''nic'') (Some (nic_config_new nm ifname 0)) w"

definition pg_nic_new_by_id :: "brick_ops list \<Rightarrow> string \<Rightarrow> nat \<Rightarrow> world \<Rightarrow> (nat option, world) out" where
  "pg_nic_new_by_id reg nm portid w = pg_brick_new reg (Some ''nic'') (Some (nic_config_new nm None portid)) w"

definition pg_nic_set_mtu :: "ext \<Rightarrow> nat \<Rightarrow> u16 \<Rightarrow> world \<Rightarrow> (int, world) out" where
  "pg_nic_set_mtu x b mtu w =
     obind (get_state st_nic b w) (\<lambda>st w.
     obind (eth_call (x_eth_set_mtu (x_eth x) (nic_portid st) mtu) w) (\<lambda>ret w.
       if ret < 0 then Ret (-1) (set_err (pg_error_new_errno (- ret) ''cannot set MTU'' []) w)
       else Ret 0 w))"

definition pg_nic_get_mtu :: "ext \<Rightarrow> nat \<Rightarrow> world \<Rightarrow> (int \<times> u16, world) out" where
  "pg_nic_get_mtu x b w =
     obind (get_state st_nic b w) (\<lambda>st w.
       let (ret, mtu) = x_eth_get_mtu (x_eth x) (nic_portid st) (mst w) in
       if ret < 0 then Ret (-1, mtu) (set_err (pg_error_new_errno (- ret) ''cannot get MTU'' []) w)
       else Ret (0, mtu) w)"

definition nic_link :: "priv \<Rightarrow> pg_side \<Rightarrow> nat \<Rightarrow> priv" where
  "nic_link p side edge_index = on_nic (\<lambda>st. st\<lparr>nic_output := pg_flip_side side\<rparr>) p"

fun nic_get_side :: "priv \<Rightarrow> pg_side" where
  "nic_get_side (P_nic st) = pg_flip_side (nic_output st)"
| "nic_get_side p = PG_WEST_SIDE"

definition nic_ops :: "ext \<Rightarrow> brick_ops" where
  "nic_ops x = base_ops\<lparr>op_name := ''nic'', op_zero := P_nic \<lparr>nic_portid = 0, nic_output = PG_WEST_SIDE\<rparr>,
     op_init := nic_init x, op_destroy := Some (nic_destroy x), op_link_notify := Some nic_link,
     op_get_side := Some nic_get_side, op_unlink := True,
     op_rx_bytes := Some (nic_rx_bytes x), op_tx_bytes := Some (nic_tx_bytes x)\<rparr>"

section \<open>Lemmas\<close>

lemma safe_step_nic [simp]:
  assumes "\<And>st. nic_output (f st) = nic_output st"
  shows "safe_step w (upd_priv b (on_nic f) w)"
proof (rule safe_step_priv)
  fix br show "priv_step (priv_state br) (on_nic f (priv_state br))"
    by (cases "priv_state br") (simp_all add: priv_step_def assms)
qed

lemma eth_call_safe [simp, safe_intros]: "safe w (eth_call f w)"
  unfolding eth_call_def by (intro safe_intros; simp)

lemma nic_init_ports_safe: "safe w (nic_init_ports x p w)"
  unfolding nic_init_ports_def by (intro safe_intros; simp)

lemma nic_setup_port_safe: "safe w (nic_setup_port x n p w)"
  unfolding nic_setup_port_def pg_nic_port_def by (intro safe_intros; simp)

lemma nic_init_safe: "safe w (nic_init x b c w)"
proof (cases "brick_config c")
  case (Some bc)
  show ?thesis
  proof (cases bc)
    case (C_nic n p)
    show ?thesis
      unfolding nic_init_def Some C_nic option.case bconf.case
      by (intro safe_intros nic_setup_port_safe nic_init_ports_safe; simp)
  qed (simp_all add: nic_init_def Some)
qed (simp add: nic_init_def)

lemma nic_burst_safe: "safe w (nic_burst x b from i a m w)"
  unfolding nic_burst_def by (intro safe_intros; simp)

lemma nic_cksum_safe: "safe w (nic_cksum x p w)"
  unfolding nic_cksum_def by (intro safe_intros; simp)

lemma nic_burst_no_offload_safe: "safe w (nic_burst_no_offload x b from i a m w)"
  unfolding nic_burst_no_offload_def by (intro safe_intros nic_cksum_safe nic_burst_safe)

lemma nic_destroy_safe: "safe w (nic_destroy x b w)"
  unfolding nic_destroy_def by (intro safe_intros; simp)

context bursts
begin

lemma nic_poll_safe: "safe w (nic_poll x brst b c w)"
  unfolding nic_poll_def nic_poll_forward_def
  by (intro safe_intros burst_edge_safe; simp add: safe_step_data)

end

section \<open>References\<close>

definition refs :: "mstore \<Rightarrow> nat \<Rightarrow> nat option" where
  "refs ms p = map_option (\<lambda>m. unat (refcnt m)) (mbufs ms p)"

text \<open>References given back: with the last one the packet goes back to its pool.\<close>

definition release :: "nat \<Rightarrow> nat option \<Rightarrow> nat option" where
  "release n r = (case r of None \<Rightarrow> None | Some k \<Rightarrow> if n < k \<or> n = 0 then Some (k - n) else None)"

text \<open>
  What DPDK documents of the transmit functions: preparing changes no reference count. The transmit
  queue takes over the first packets of the array, as many as it has room for, with a reference to
  each; and it frees packets that have been sent, so it gives references back that it owns: the
  \<open>owned p\<close> ones it holds on a packet \<open>p\<close> from earlier bursts, or those it has just taken over.
\<close>

definition tx_queue :: "ext \<Rightarrow> nat \<Rightarrow> nat \<Rightarrow> (nat \<Rightarrow> nat) \<Rightarrow> bool" where
  "tx_queue x portid room owned \<longleftrightarrow>
     (\<forall>ps ms. refs (x_eth_tx_prepare (x_eth x) portid ps ms) = refs ms) \<and>
     (\<forall>ps ms. fst (x_eth_tx_burst (x_eth x) portid ps ms) = min room (length ps)) \<and>
     (\<forall>ps ms. \<exists>sent. \<forall>p. sent p \<le> owned p + count_list (take room ps) p \<and>
        refs (snd (x_eth_tx_burst (x_eth x) portid ps ms)) p = release (sent p) (refs ms p))"

lemma refs_adj:
  "counters_fit f is ms \<Longrightarrow> refs (adj_refs (uses f is) ms) p = map_option (\<lambda>n. n + uses f is p) (refs ms p)"
  by (cases "mbufs ms p") (simp_all add: refs_def adj_refs_def counters_fit_def unat_more)

lemma unat_less: "Suc 0 < unat r \<Longrightarrow> unat (r - 1) = unat r - Suc 0" for r :: u16
  by (simp add: unat_sub_if')

lemma refs_fold_free:
  assumes "dpdk_refcnt x" and "\<And>p. 0 < uses f is p \<Longrightarrow> \<exists>n. refs ms p = Some n \<and> uses f is p < n"
  shows "refs (fold (\<lambda>i. x_free x (f i)) is ms) p = map_option (\<lambda>n. n - uses f is p) (refs ms p)"
  using assms(2)
proof (induction "is" arbitrary: ms)
  case Nil
  then show ?case by (simp add: uses_def option.map_ident)
next
  case (Cons i "is")
  obtain n where n: "refs ms (f i) = Some n" "uses f (i # is) (f i) < n"
    using Cons.prems [of "f i"] by (auto simp: uses_Cons)
  then obtain m where m: "mbufs ms (f i) = Some m" "unat (refcnt m) = n" by (auto simp: refs_def)
  define ms1 where "ms1 = x_free x (f i) ms"
  have gt: "1 < refcnt m" using n m by (simp add: uses_Cons word_less_nat_alt)
  then have "ms1 = mbuf_refs (f i) (\<lambda>n. n - 1) ms"
    using assms(1) m(1) by (simp add: dpdk_refcnt_def ms1_def)
  then have r1: "refs ms1 q = (if q = f i then Some (n - 1) else refs ms q)" for q
    using m gt by (auto simp: refs_def mbufs_mbuf_refs word_less_nat_alt unat_less)
  have pre: "\<exists>k. refs ms1 q = Some k \<and> uses f is q < k" if "0 < uses f is q" for q
    using that Cons.prems [of q] n by (cases "q = f i") (auto simp: r1 uses_Cons)
  have "refs (fold (\<lambda>i. x_free x (f i)) is ms1) p = map_option (\<lambda>k. k - uses f is p) (refs ms1 p)"
    by (rule Cons.IH) (rule pre)
  also have "\<dots> = map_option (\<lambda>k. k - uses f (i # is) p) (refs ms p)"
    using n by (auto simp: r1 uses_Cons)
  finally show ?case by (simp add: ms1_def)
qed

lemma uses_append: "uses f (xs @ ys) p = uses f xs p + uses f ys p"
  by (simp add: uses_def)

lemma uses_reindex: "uses (\<lambda>i. f (js ! i)) [k..<length js] p = uses f (drop k js) p"
proof -
  have "map (\<lambda>i. js ! i) [k..<length js] = drop k js"
    by (rule nth_equalityI) simp_all
  then have "filter (\<lambda>j. f j = p) (drop k js) = filter (\<lambda>j. f j = p) (map (\<lambda>i. js ! i) [k..<length js])"
    by simp
  then show ?thesis by (simp add: uses_def filter_map o_def)
qed

text \<open>
  The first \<open>n\<close> packets of an array have been taken over with the reference that each got, and
  \<open>sent\<close> references have been given back since. The other packets are freed: of the references taken
  for them nothing is left.
\<close>

lemma refs_free_rest:
  assumes "dpdk_refcnt x"
    and valid: "\<And>p. 0 < uses f js p \<Longrightarrow> \<exists>k. r p = Some k \<and> sent p < k + uses f (take n js) p"
    and refs: "\<And>p. refs ms p = release (sent p) (map_option (\<lambda>k. k + uses f js p) (r p))"
    and h: "\<And>i. i < length js \<Longrightarrow> h i = f (js ! i)"
  shows "refs (fold (\<lambda>i. x_free x (h i)) [n..<length js] ms) p =
    release (sent p) (map_option (\<lambda>k. k + uses f (take n js) p) (r p))"
proof -
  have split: "uses f js q = uses f (take n js) q + uses f (drop n js) q" for q
    using uses_append [of f "take n js" "drop n js" q] by simp
  have u: "uses h [n..<length js] q = uses f (drop n js) q" for q
  proof -
    have "uses h [n..<length js] q = uses (\<lambda>i. f (js ! i)) [n..<length js] q"
      unfolding uses_def by (intro arg_cong [of _ _ length] filter_cong) (auto simp: h)
    then show ?thesis by (simp add: uses_reindex)
  qed
  have "refs (fold (\<lambda>i. x_free x (h i)) [n..<length js] ms) p = map_option (\<lambda>k. k - uses f (drop n js) p) (refs ms p)"
    unfolding u [symmetric]
  proof (rule refs_fold_free [OF assms(1)])
    fix q assume "0 < uses h [n..<length js] q"
    then show "\<exists>k. refs ms q = Some k \<and> uses h [n..<length js] q < k"
      using valid [of q] split [of q] by (auto simp: u refs release_def)
  qed
  then show ?thesis
    using valid [of p] split [of p]
    by (cases "uses f (drop n js) p = 0") (auto simp: refs release_def split: option.splits)
qed

text \<open>What the transmit queue takes and gives back.\<close>

lemma tx_queue_burst:
  assumes "tx_queue x port room owned"
    and "x_eth_tx_burst (x_eth x) port ps (x_eth_tx_prepare (x_eth x) port ps ms) = (n, ms')"
  shows "n = min room (length ps)"
    and "\<exists>sent. \<forall>p. sent p \<le> owned p + count_list (take room ps) p \<and> refs ms' p = release (sent p) (refs ms p)"
proof -
  let ?ms = "x_eth_tx_prepare (x_eth x) port ps ms"
  show "n = min room (length ps)"
    using assms unfolding tx_queue_def by (metis fst_conv)
  have "refs ?ms = refs ms" using assms(1) unfolding tx_queue_def by blast
  moreover have "\<exists>sent. \<forall>p. sent p \<le> owned p + count_list (take room ps) p \<and>
      refs (snd (x_eth_tx_burst (x_eth x) port ps ?ms)) p = release (sent p) (refs ?ms p)"
    using assms(1) unfolding tx_queue_def by blast
  ultimately show "\<exists>sent. \<forall>p. sent p \<le> owned p + count_list (take room ps) p \<and> refs ms' p = release (sent p) (refs ms p)"
    by (simp add: assms(2))
qed

lemma count_uses: "count_list (map f js) p = uses f js p"
  by (induction js) (auto simp: uses_def)


text \<open>
  A queue with one free slot that has sent packet 3 earlier and gives that reference back during
  the call.
\<close>

definition one_slot_ext :: ext where
  "one_slot_ext = demo_ext\<lparr>x_eth := demo_eth\<lparr>x_eth_tx_burst := (\<lambda>_ ps ms. (min 1 (length ps), x_free demo_ext 3 ms))\<rparr>\<rparr>"

lemma refs_free:
  "refs (x_free demo_ext q ms) p = (if p = q then release 1 (refs ms p) else refs ms p)"
  by (auto simp: demo_ext_def refs_def release_def mbufs_mbuf_refs word_le_nat_alt unat_less split: option.splits)


end
