(* ===== verification/PG_Tap.thy ===== *)
theory PG_Tap
  imports PG_Relay PG_Net
begin

text \<open>
  The brick of a kernel interface, \<open>src/tap.c\<close>: a burst is written to the file descriptor of
  the interface packet by packet, and a poll reads packets until none is left or 64 are
  there. The system calls are functions of \<open>ext\<close>. A read that is truncated is repeated into
  the same packet, without a bound, so the loop of \<open>tap_poll\<close> has fuel. The array \<open>pkts\<close> of
  64 prepared packets belongs to the brick.
\<close>

fun st_tap :: "priv \<Rightarrow> pg_tap_state option" where
  "st_tap (P_tap st) = Some st"
| "st_tap _ = None"

fun on_tap :: "(pg_tap_state \<Rightarrow> pg_tap_state) \<Rightarrow> priv \<Rightarrow> priv" where
  "on_tap f (P_tap st) = P_tap (f st)"
| "on_tap f p = p"

abbreviation tap_pkts :: "nat \<Rightarrow> arr" where "tap_pkts b \<equiv> Emb b 0"

definition IFNAMSIZ :: nat where "IFNAMSIZ = 16"

definition PG_MBUF_SIZE :: "ext \<Rightarrow> nat" where
  "PG_MBUF_SIZE x = 2048 + SIZEOF_RTE_MBUF x + RTE_PKTMBUF_HEADROOM x"

definition pg_tap_ifname :: "nat \<Rightarrow> world \<Rightarrow> (string, world) out" where
  "pg_tap_ifname b w = obind (get_state st_tap b w) (\<lambda>st w. Ret (tap_ifname st) w)"

definition pg_tap_get_mac :: "ext \<Rightarrow> nat \<Rightarrow> world \<Rightarrow> (int \<times> u8 list option, world) out" where
  "pg_tap_get_mac x b w =
     obind (pg_tap_ifname b w) (\<lambda>name w.
     obind (let (fd, ms) = x_socket (x_os x) (mst w) in Ret fd (w\<lparr>mst := ms\<rparr>)) (\<lambda>fd w.
       case x_siocgifhwaddr (x_os x) fd name (mst w) of
         None \<Rightarrow> Ret (-1, None) w
       | Some addr \<Rightarrow> Ret (0, Some addr) w))"

definition tap_config_new :: "string \<Rightarrow> string option \<Rightarrow> pg_brick_config" where
  "tap_config_new nm ifname =
     pg_brick_config_init (Some (C_tap (case ifname of None \<Rightarrow> [] | Some s \<Rightarrow> take (IFNAMSIZ - 1) s)))
       nm 1 1 PG_MONOPOLE"

section \<open>Sending\<close>

text \<open>One packet: \<open>pkt_len\<close> bytes from the start of its data. A negative result ends the burst.\<close>

definition tap_write :: "ext \<Rightarrow> int \<Rightarrow> arr \<Rightarrow> nat \<Rightarrow> world \<Rightarrow> (int option, world) out" where
  "tap_write x fd pkts i w =
     obind (get_pkts pkts w) (\<lambda>f w.
     obind (mtod (f i) w) (\<lambda>data w.
     obind (get_mbuf (f i) w) (\<lambda>m w.
     obind (let (r, ms) = x_write (x_os x) fd (bytes_at data 0 (pkt_len m)) (mst w) in Ret r (w\<lparr>mst := ms\<rparr>)) (\<lambda>r w.
       if r < 0 then Ret (Some (-1)) (set_err (pg_error_new ''%s'' [x_strerror (x_os x) (mst w)]) w)
       else Ret None w))))"

definition tap_burst ::
    "ext \<Rightarrow> nat \<Rightarrow> pg_side \<Rightarrow> nat \<Rightarrow> arr \<Rightarrow> u64 \<Rightarrow> world \<Rightarrow> (int, world) out" where
  "tap_burst x b from edge_index pkts pkts_mask w =
     obind (get_state st_tap b w) (\<lambda>st w.
       loop_result (oloop (tap_write x (tap_fd st) pkts) (pg_foreach_bit pkts_mask) w))"

section \<open>Receiving\<close>

text \<open>
  A read of up to \<open>PG_MBUF_SIZE\<close> bytes into the data of a packet. More bytes than the buffer
  has room for are written beyond it.
\<close>

definition tap_read :: "ext \<Rightarrow> int \<Rightarrow> nat \<Rightarrow> world \<Rightarrow> (string + nat, world) out" where
  "tap_read x fd p w =
     obind (Ret () (w\<lparr>mst := x_reset x p (mst w)\<rparr>)) (\<lambda>_ w.
     obind (get_mbuf p w) (\<lambda>m w.
     obind (let (r, ms) = x_read (x_os x) fd (PG_MBUF_SIZE x) (mst w) in Ret r (w\<lparr>mst := ms\<rparr>)) (\<lambda>r w.
       case r of
         Inl errno \<Rightarrow> Ret (Inl errno) w
       | Inr bs \<Rightarrow>
           if buf_len m < data_off m + length bs then Abort ''write beyond the buffer''
           else obind (write_bytes p (data_off m) bs w) (\<lambda>_ w. Ret (Inr (length bs)) w))))"

text \<open>
  The loop of \<open>tap_poll\<close>; \<open>Inr\<close> is the number of packets read, \<open>Inl\<close> the return of -1.
\<close>

primrec tap_read_loop :: "nat \<Rightarrow> ext \<Rightarrow> int \<Rightarrow> arr \<Rightarrow> nat \<Rightarrow> world \<Rightarrow> (unit + nat, world) out" where
  "tap_read_loop 0 x fd pkts nb_pkts w = Diverge"
| "tap_read_loop (Suc n) x fd pkts nb_pkts w =
     (if 64 \<le> nb_pkts then Ret (Inr nb_pkts) w
      else
        obind (get_pkts pkts w) (\<lambda>f w.
        obind (tap_read x fd (f nb_pkts) w) (\<lambda>r w.
          case r of
            Inl errno \<Rightarrow>
              if errno = ''EAGAIN'' then Ret (Inr nb_pkts) w
              else Ret (Inl ()) (set_err (pg_error_new ''%s'' [x_strerror (x_os x) (mst w)]) w)
          | Inr read_size \<Rightarrow>
              if read_size = PG_MBUF_SIZE x then tap_read_loop n x fd pkts nb_pkts w
              else
                obind (let (_, ms) = x_append x (f nb_pkts) read_size (mst w) in Ret () (w\<lparr>mst := ms\<rparr>)) (\<lambda>_ w.
                obind (pg_utils_guess_metadata x (f nb_pkts) w) (\<lambda>_ w.
                tap_read_loop n x fd pkts (Suc nb_pkts) w)))))"

text \<open>The counter \<open>pkts_cnt\<close> keeps its value when the poll leaves before setting it.\<close>

definition tap_poll :: "nat \<Rightarrow> ext \<Rightarrow> burster \<Rightarrow> nat \<Rightarrow> nat \<Rightarrow> world \<Rightarrow> (int \<times> nat, world) out" where
  "tap_poll n x brst b pkts_cnt w =
     obind (get_state st_tap b w) (\<lambda>st w.
     obind (get_brick b w) (\<lambda>br w.
       if link (edge (sides br PG_WEST_SIDE)) = None then Ret (0, pkts_cnt) w
       else
         obind (tap_read_loop n x (tap_fd st) (tap_pkts b) 0 w) (\<lambda>r w.
         case r of
           Inl _ \<Rightarrow> Ret (-1, pkts_cnt) w
         | Inr nb_pkts \<Rightarrow>
             if nb_pkts = 0 then Ret (0, 0) w
             else
               obind (burst_edge brst b PG_WEST_SIDE (tap_output st) (tap_pkts b)
                        (pg_mask_firsts (word_of_nat nb_pkts)) w) (\<lambda>ret w.
               Ret (ret, nb_pkts) w))))"

section \<open>Creation and destruction\<close>

definition tap_close :: "ext \<Rightarrow> int \<Rightarrow> world \<Rightarrow> (unit, world) out" where
  "tap_close x fd w = Ret () (w\<lparr>mst := x_call x (close_fd fd) (mst w)\<rparr>)"

definition tap_init :: "ext \<Rightarrow> nat \<Rightarrow> pg_brick_config \<Rightarrow> world \<Rightarrow> (int, world) out" where
  "tap_init x b config w =
     (case brick_config config of
        Some (C_tap ifname) \<Rightarrow>
          obind (let (fd, ms) = x_tun_open (x_os x) (mst w) in Ret fd (w\<lparr>mst := ms\<rparr>)) (\<lambda>fd w.
          if fd < 0 then Ret (-1) (set_err (pg_error_new ''Cannot open /dev/net/tun'' []) w)
          else
            obind (Ret () (upd_priv b (on_tap (\<lambda>st. st\<lparr>tap_ifname := take IFNAMSIZ ifname\<rparr>)) w)) (\<lambda>_ w.
            obind (let (r, ms) = x_tun_setiff (x_os x) fd (take IFNAMSIZ ifname) (mst w) in Ret r (w\<lparr>mst := ms\<rparr>)) (\<lambda>r w.
            (case r of
               None \<Rightarrow>
                 obind (tap_close x fd (set_err (pg_error_new ''ioctl error (TUNSETIFF)'' []) w)) (\<lambda>_ w. Ret (-1) w)
             | Some name \<Rightarrow>
                 obind (Ret () (upd_priv b (on_tap (\<lambda>st. st\<lparr>tap_ifname := name\<rparr>)) w)) (\<lambda>_ w.
                 obind (let (r, ms) = x_tun_setpersist (x_os x) fd (mst w) in Ret r (w\<lparr>mst := ms\<rparr>)) (\<lambda>r w.
                 if r < 0 then
                   obind (tap_close x fd (set_err (pg_error_new ''ioctl error (TUNSETPERSIST)'' []) w)) (\<lambda>_ w. Ret (-1) w)
                 else
                   obind (let (r, ms) = x_alloc_bulk x 64 (mst w) in Ret r (w\<lparr>mst := ms\<rparr>)) (\<lambda>r w.
                   (case r of
                      None \<Rightarrow>
                        obind (tap_close x fd (set_err (pg_error_new ''packet allocation failed'' []) w)) (\<lambda>_ w. Ret (-1) w)
                    | Some ps \<Rightarrow>
                        obind (Ret () (w\<lparr>arrays := (arrays w)(tap_pkts b \<mapsto> (\<lambda>i. ps ! i))\<rparr>)) (\<lambda>_ w.
                        obind (Ret () (upd_priv b (on_tap (\<lambda>st. st\<lparr>tap_fd := fd\<rparr>)) w)) (\<lambda>_ w.
                        obind (Ret () (set_burst b tap_burst_fn w)) (\<lambda>_ w.
                        Ret 0 (set_poll b tap_poll_fn w))))))))))))
      | _ \<Rightarrow> Abort ''config of another brick'')"

definition tap_destroy :: "ext \<Rightarrow> nat \<Rightarrow> world \<Rightarrow> (unit, world) out" where
  "tap_destroy x b w =
     obind (get_state st_tap b w) (\<lambda>st w.
     obind (tap_close x (tap_fd st) w) (\<lambda>_ w.
     pg_packets_free x (tap_pkts b) (pg_mask_firsts 64) w))"

definition pg_tap_new :: "brick_ops list \<Rightarrow> string \<Rightarrow> string option \<Rightarrow> world \<Rightarrow> (nat option, world) out" where
  "pg_tap_new reg nm ifname w = pg_brick_new reg (Some ''tap'') (Some (tap_config_new nm ifname)) w"

definition tap_link :: "priv \<Rightarrow> pg_side \<Rightarrow> nat \<Rightarrow> priv" where
  "tap_link p side edge_index = on_tap (\<lambda>st. st\<lparr>tap_output := pg_flip_side side\<rparr>) p"

fun tap_get_side :: "priv \<Rightarrow> pg_side" where
  "tap_get_side (P_tap st) = pg_flip_side (tap_output st)"
| "tap_get_side p = PG_WEST_SIDE"

definition tap_ops :: "ext \<Rightarrow> brick_ops" where
  "tap_ops x = base_ops\<lparr>op_name := ''tap'',
     op_zero := P_tap \<lparr>tap_fd = 0, tap_ifname = [], tap_output = PG_WEST_SIDE\<rparr>,
     op_init := tap_init x, op_destroy := Some (tap_destroy x), op_link_notify := Some tap_link,
     op_get_side := Some tap_get_side, op_unlink := True\<rparr>"

section \<open>Lemmas\<close>

lemma safe_step_tap [simp]:
  assumes "\<And>st. tap_output (f st) = tap_output st"
  shows "safe_step w (upd_priv b (on_tap f) w)"
proof (rule safe_step_priv)
  fix br show "priv_step (priv_state br) (on_tap f (priv_state br))"
    by (cases "priv_state br") (simp_all add: priv_step_def assms)
qed

lemma tap_close_safe: "safe_step w w1 \<Longrightarrow> safe w (tap_close x fd w1)"
  by (simp add: tap_close_def) (erule safe_step_trans, simp)

lemma tap_init_safe: "safe w (tap_init x b c w)"
proof (cases "brick_config c")
  case (Some bc)
  show ?thesis
  proof (cases bc)
    case (C_tap n)
    show ?thesis
      unfolding tap_init_def Some C_tap option.case bconf.case
      by (intro safe_intros tap_close_safe; simp)
  qed (simp_all add: tap_init_def Some)
qed (simp add: tap_init_def)

lemma tap_burst_safe: "safe w (tap_burst x b from i a m w)"
  unfolding tap_burst_def tap_write_def by (intro safe_intros; simp)

lemma tap_destroy_safe: "safe w (tap_destroy x b w)"
  unfolding tap_destroy_def by (intro safe_intros tap_close_safe; simp)

lemma tap_read_safe [safe_intros]: "safe w (tap_read x fd p w)"
  unfolding tap_read_def by (intro safe_intros; simp)

lemma tap_read_loop_safe: "safe w (tap_read_loop n x fd a k w)"
proof (induction n arbitrary: k w)
  case (Suc n)
  show ?case
    unfolding tap_read_loop.simps by (intro safe_intros Suc.IH; simp)
qed simp

context bursts
begin

lemma tap_poll_safe: "safe w (tap_poll n x brst b c w)"
  unfolding tap_poll_def
  by (intro safe_intros burst_edge_safe tap_read_loop_safe; simp)

end

text \<open>
  C32. How much a read may write: the packets of the pool have \<open>PG_MBUF_SIZE\<close> bytes with their
  header, so after a reset 2048 bytes are left behind the headroom. A frame of up to 2048
  bytes becomes the data of the packet. The read is allowed \<open>PG_MBUF_SIZE\<close> bytes, though, and
  every longer frame it gets is written beyond the buffer.
\<close>

theorem tap_read_room:
  assumes "mbufs (x_reset x p (mst w)) p = Some m" and "data_off m = RTE_PKTMBUF_HEADROOM x"
    and "SIZEOF_RTE_MBUF x + buf_len m = PG_MBUF_SIZE x"
    and "x_read (x_os x) fd (PG_MBUF_SIZE x) (x_reset x p (mst w)) = (Inr bs, ms)" and "mbufs ms p = Some m"
  shows "if length bs \<le> 2048
    then oret (tap_read x fd p w) (\<lambda>r w'. r = Inr (length bs) \<and>
           bytes_at (pkt_bytes 0 m (mst w')) 0 (length bs) = bs)
    else tap_read x fd p w = Abort ''write beyond the buffer''"
proof -
  have room: "buf_len m < data_off m + length bs \<longleftrightarrow> 2048 < length bs"
    using assms(2,3) by (auto simp: PG_MBUF_SIZE_def)
  have "bytes_at (\<lambda>i. poke f (data_off m) bs (data_off m + i)) 0 (length bs) = bs" for f
    by (rule nth_equalityI) (simp_all add: bytes_at_def poke_apply)
  then show ?thesis
    using assms(1,4,5) room by (simp add: tap_read_def get_mbuf_def write_bytes_def pkt_bytes_def)
qed

definition demo_tap_ext :: "nat \<Rightarrow> ext" where
  "demo_tap_ext n = demo_ext\<lparr>x_os := demo_os\<lparr>x_read := (\<lambda>fd k ms. (Inr (replicate n 7), ms))\<rparr>,
     x_reset := (\<lambda>p ms. ms\<lparr>mbufs := (mbufs ms)(p \<mapsto> demo_mbuf\<lparr>buf_addr := p, buf_len := 2176\<rparr>)\<rparr>)\<rparr>"

theorem tap_read_room_witness:
  "tap_read (demo_tap_ext 2100) 3 1 demo_world = Abort ''write beyond the buffer'' \<and>
   oret (tap_read (demo_tap_ext 60) 3 1 demo_world) (\<lambda>r w'. r = Inr 60 \<and>
     bytes_at (pkt_bytes 0 (demo_mbuf\<lparr>buf_addr := 1, buf_len := 2176\<rparr>) (mst w')) 0 60 = replicate 60 7)"
proof -
  define m where "m = demo_mbuf\<lparr>buf_addr := 1, buf_len := 2176\<rparr>"
  have m: "data_off m = 128" "buf_len m = 2176" by (simp_all add: m_def demo_mbuf_def)
  have e: "x_reset (demo_tap_ext n) 1 ms = ms\<lparr>mbufs := (mbufs ms)(1 \<mapsto> m)\<rparr>"
      "x_read (x_os (demo_tap_ext n)) fd k ms = (Inr (replicate n 7), ms)"
      "RTE_PKTMBUF_HEADROOM (demo_tap_ext n) = 128" "SIZEOF_RTE_MBUF (demo_tap_ext n) = 128"
      "PG_MBUF_SIZE (demo_tap_ext n) = 2304" for n fd k ms
    by (simp_all add: demo_tap_ext_def demo_ext_def m_def PG_MBUF_SIZE_def)
  note t = tap_read_room [where w = demo_world and m = m and p = 1 and fd = 3, unfolded e m]
  show ?thesis
    using t [where x = "demo_tap_ext 2100" and bs = "replicate 2100 7", unfolded e]
      t [where x = "demo_tap_ext 60" and bs = "replicate 60 7", unfolded e]
    unfolding m_def [symmetric] by simp
qed

end
