(* ===== verification/PG_Vhost.thy ===== *)
theory PG_Vhost
  imports PG_Relay PG_Net
begin

text \<open>
  The brick of a virtual machine, \<open>src/vhost.c\<close>: a burst is put into the receive queue of the
  machine and a poll takes what its transmit queue has. A machine connects and disconnects
  through the callbacks \<open>new_vm\<close> and \<open>destroy_vm\<close>. The flag \<open>allow_queuing\<close> is a lock: it is
  taken while no machine is connected, and by a handler while it works on the queues. The
  vhost library is a group of functions of \<open>ext\<close>; the socket list and the settings of the
  file are fields of \<open>globals\<close>. The mutex around the list has no counterpart, since a callback
  is one step here; \<open>PG_VHOST_FASTER_YET_BROKEN_POLL\<close> is not defined.
\<close>

fun st_vhost :: "priv \<Rightarrow> pg_vhost_state option" where
  "st_vhost (P_vhost st) = Some st"
| "st_vhost _ = None"

fun on_vhost :: "(pg_vhost_state \<Rightarrow> pg_vhost_state) \<Rightarrow> priv \<Rightarrow> priv" where
  "on_vhost f (P_vhost st) = P_vhost (f st)"
| "on_vhost f p = p"

abbreviation vhost_in :: "nat \<Rightarrow> arr" where "vhost_in b \<equiv> Emb b 0"
abbreviation vhost_out :: "nat \<Rightarrow> arr" where "vhost_out b \<equiv> Emb b 1"

definition MAX_BURST :: nat where "MAX_BURST = 32"

definition vhost_config_new :: "string \<Rightarrow> u64 \<Rightarrow> pg_brick_config" where
  "vhost_config_new nm flags =
     pg_brick_config_init (Some (C_vhost PG_WEST_SIDE flags)) nm 1 1 PG_MONOPOLE"

definition upd_vhost :: "nat \<Rightarrow> (pg_vhost_state \<Rightarrow> pg_vhost_state) \<Rightarrow> world \<Rightarrow> (unit, world) out" where
  "upd_vhost b f w = obind (get_state st_vhost b w) (\<lambda>_ w. Ret () (upd_priv b (on_vhost f) w))"

text \<open>\<open>rte_atomic32_test_and_set\<close> and \<open>rte_atomic32_clear\<close> on the lock of a brick.\<close>

definition vhost_try_lock :: "nat \<Rightarrow> world \<Rightarrow> (bool, world) out" where
  "vhost_try_lock b w =
     obind (get_state st_vhost b w) (\<lambda>st w.
       if vh_allow_queuing st = 0 then
         obind (upd_vhost b (\<lambda>st. st\<lparr>vh_allow_queuing := 1\<rparr>) w) (\<lambda>_ w. Ret True w)
       else Ret False w)"

definition vhost_unlock :: "nat \<Rightarrow> world \<Rightarrow> (unit, world) out" where
  "vhost_unlock b w = upd_vhost b (\<lambda>st. st\<lparr>vh_allow_queuing := 0\<rparr>) w"

section \<open>Handlers\<close>

definition vhost_enqueue :: "ext \<Rightarrow> int \<Rightarrow> nat list \<Rightarrow> world \<Rightarrow> (nat, world) out" where
  "vhost_enqueue x vid ps w =
     (let (n, ms) = x_vhost_enqueue (x_vhost x) vid ps (mst w) in Ret n (w\<lparr>mst := ms\<rparr>))"

definition vhost_len :: "arr \<Rightarrow> nat \<Rightarrow> u64 \<Rightarrow> world \<Rightarrow> (u64, world) out" where
  "vhost_len pkts i bytes w =
     obind (get_pkts pkts w) (\<lambda>f w.
     obind (get_mbuf (f i) w) (\<lambda>m w. Ret (bytes + word_of_nat (pkt_len m)) w))"

definition vhost_burst ::
    "ext \<Rightarrow> nat \<Rightarrow> pg_side \<Rightarrow> nat \<Rightarrow> arr \<Rightarrow> u64 \<Rightarrow> world \<Rightarrow> (int, world) out" where
  "vhost_burst x b from edge_index pkts pkts_mask w =
     obind (vhost_try_lock b w) (\<lambda>locked w.
     if \<not> locked then Ret 0 w
     else
       obind (get_state st_vhost b w) (\<lambda>st w.
       obind (pg_packets_pack (vhost_out b) pkts pkts_mask w) (\<lambda>pkts_count w.
       obind (get_pkts (vhost_out b) w) (\<lambda>f w.
       obind (if 32 < pkts_count then
                obind (vhost_enqueue x (vh_vid st) (map f [0..<32]) w) (\<lambda>n w.
                obind (vhost_enqueue x (vh_vid st) (map f [32..<pkts_count]) w) (\<lambda>k w.
                Ret ((n + k) mod 65536) w))
              else vhost_enqueue x (vh_vid st) (map f [0..<pkts_count]) w) (\<lambda>bursted_pkts w.
       obind (vhost_unlock b w) (\<lambda>_ w.
       obind (oacc (vhost_len pkts) [0..<bursted_pkts] 0 w) (\<lambda>tx_bytes w.
       obind (upd_vhost b (\<lambda>st. st\<lparr>vh_tx_bytes := vh_tx_bytes st + tx_bytes\<rparr>) w) (\<lambda>_ w.
       Ret 0 w))))))))"

text \<open>Packets that the library puts into the array from place \<open>k\<close> on.\<close>

definition vhost_dequeue :: "ext \<Rightarrow> int \<Rightarrow> nat \<Rightarrow> nat \<Rightarrow> world \<Rightarrow> (nat, world) out" where
  "vhost_dequeue x vid b k w =
     obind (get_pkts (vhost_in b) w) (\<lambda>f w.
       let (ps, ms) = x_vhost_dequeue (x_vhost x) vid MAX_BURST (mst w) in
       Ret (length ps) (w\<lparr>mst := ms, arrays := (arrays w)(vhost_in b \<mapsto>
         (\<lambda>i. if k \<le> i \<and> i < k + length ps then ps ! (i - k) else f i))\<rparr>))"

definition vhost_guess :: "ext \<Rightarrow> nat \<Rightarrow> nat \<Rightarrow> u64 \<Rightarrow> world \<Rightarrow> (u64, world) out" where
  "vhost_guess x b i bytes w =
     obind (vhost_len (vhost_in b) i bytes w) (\<lambda>bytes w.
     obind (get_pkts (vhost_in b) w) (\<lambda>f w.
     obind (pg_utils_guess_metadata x (f i) w) (\<lambda>_ w. Ret bytes w)))"

definition vhost_poll :: "ext \<Rightarrow> burster \<Rightarrow> nat \<Rightarrow> nat \<Rightarrow> world \<Rightarrow> (int \<times> nat, world) out" where
  "vhost_poll x brst b pkts_cnt w =
     obind (vhost_try_lock b w) (\<lambda>locked w.
     if \<not> locked then Ret (0, 0) w
     else
       obind (get_state st_vhost b w) (\<lambda>st w.
       obind (vhost_dequeue x (vh_vid st) b 0 w) (\<lambda>count w.
       obind (if count = MAX_BURST
              then obind (vhost_dequeue x (vh_vid st) b MAX_BURST w) (\<lambda>k w. Ret (count + k) w)
              else Ret count w) (\<lambda>count w.
       obind (vhost_unlock b w) (\<lambda>_ w.
       if count = 0 then Ret (0, 0) w
       else
         obind (oacc (vhost_guess x b) [0..<count] 0 w) (\<lambda>rx_bytes w.
         obind (upd_vhost b (\<lambda>st. st\<lparr>vh_rx_bytes := vh_rx_bytes st + rx_bytes\<rparr>) w) (\<lambda>_ w.
         let pkts_mask = pg_mask_firsts (word_of_nat count) in
         obind (burst_edge brst b PG_WEST_SIDE (vh_output st) (vhost_in b) pkts_mask w) (\<lambda>ret w.
         obind (pg_packets_free x (vhost_in b) pkts_mask w) (\<lambda>_ w.
         Ret (ret, count) w)))))))))"

section \<open>Sockets and features\<close>

definition pg_vhost_socket_path :: "nat \<Rightarrow> world \<Rightarrow> (string option, world) out" where
  "pg_vhost_socket_path b w = obind (get_state st_vhost b w) (\<lambda>st w. Ret (vh_socket st) w)"

text \<open>\<open>pg_vhost_enable\<close> and \<open>pg_vhost_disable\<close>: \<open>on\<close> says which of the two functions of the library is called.\<close>

definition vhost_features :: "bool \<Rightarrow> ext \<Rightarrow> nat \<Rightarrow> u64 \<Rightarrow> world \<Rightarrow> (int, world) out" where
  "vhost_features on x b feature_mask w =
     obind (pg_vhost_socket_path b w) (\<lambda>path w.
       case path of None \<Rightarrow> Ret (-1) w
       | Some path \<Rightarrow>
           obind (let (r, ms) = x_vhost_features (x_vhost x) on path feature_mask (mst w) in
                  Ret r (w\<lparr>mst := ms\<rparr>)) (\<lambda>r w. Ret (if r \<noteq> 0 then -1 else 0) w))"

definition pg_vhost_enable :: "ext \<Rightarrow> nat \<Rightarrow> u64 \<Rightarrow> world \<Rightarrow> (int, world) out" where
  "pg_vhost_enable x = vhost_features True x"

definition pg_vhost_disable :: "ext \<Rightarrow> nat \<Rightarrow> u64 \<Rightarrow> world \<Rightarrow> (int, world) out" where
  "pg_vhost_disable x = vhost_features False x"

definition pg_vhost_global_enable :: "u64 \<Rightarrow> world \<Rightarrow> (int, world) out" where
  "pg_vhost_global_enable feature_mask w =
     Ret 0 (w\<lparr>glob := (glob w)\<lparr>enable_freacture_mask := enable_freacture_mask (glob w) OR ucast feature_mask\<rparr>\<rparr>)"

definition pg_vhost_global_disable :: "u64 \<Rightarrow> world \<Rightarrow> (int, world) out" where
  "pg_vhost_global_disable feature_mask w =
     Ret 0 (w\<lparr>glob := (glob w)\<lparr>disable_freacture_mask := disable_freacture_mask (glob w) OR ucast feature_mask\<rparr>\<rparr>)"

definition vhost_call :: "(mstore \<Rightarrow> int \<times> mstore) \<Rightarrow> world \<Rightarrow> (int, world) out" where
  "vhost_call f w = (let (r, ms) = f (mst w) in Ret r (w\<lparr>mst := ms\<rparr>))"

definition vhost_create_socket :: "ext \<Rightarrow> nat \<Rightarrow> u64 \<Rightarrow> world \<Rightarrow> (unit, world) out" where
  "vhost_create_socket x b flags w =
     obind (get_brick b w) (\<lambda>br w.
       let path = (case sockets_path (glob w) of None \<Rightarrow> ''(null)'' | Some p \<Rightarrow> p) @ ''/qemu-'' @ brick_name br in
       obind (Ret () (w\<lparr>mst := x_call x (g_remove path) (mst w)\<rparr>)) (\<lambda>_ w.
       obind (vhost_call (x_vhost_register (x_vhost x) path (flags AND x_vhost_flags (x_vhost x))) w) (\<lambda>ret w.
       if ret \<noteq> 0 then Ret () (set_err (pg_error_new_errno (- ret) ''Failed to start vhost user driver'' []) w)
       else
         obind (vhost_call (x_vhost_callback_register (x_vhost x) path) w) (\<lambda>ret w.
         if ret \<noteq> 0 then Ret () (set_err (pg_error_new_errno (- ret) ''Failed to register vhost-user callbacks'' []) w)
         else
           obind (vhost_call (x_vhost_start (x_vhost x) path) w) (\<lambda>_ w.
           obind (Ret () (upd_priv b (on_vhost (\<lambda>st. st\<lparr>vh_socket := Some path\<rparr>)) w)) (\<lambda>_ w.
           Ret () (w\<lparr>glob := (glob w)\<lparr>vhost_sockets := (path, b) # vhost_sockets (glob w)\<rparr>\<rparr>)))))))"

section \<open>Creation and destruction\<close>

definition VHOST_NOT_READY :: string where
  "VHOST_NOT_READY = ''vhost not ready, did you called vhost_start after packetgraph_start ?''"

definition vhost_init :: "ext \<Rightarrow> nat \<Rightarrow> pg_brick_config \<Rightarrow> world \<Rightarrow> (int, world) out" where
  "vhost_init x b config w =
     (case brick_config config of
        Some (C_vhost output flags) \<Rightarrow>
          if \<not> vhost_start_ok (glob w) then Ret (-1) (set_err (pg_error_new VHOST_NOT_READY []) w)
          else
            obind (Ret () (upd_priv b (on_vhost (\<lambda>st. st\<lparr>vh_output := output, vh_vid := -1,
              vh_rx_bytes := 0, vh_tx_bytes := 0\<rparr>)) w)) (\<lambda>_ w.
            obind (pg_vhost_enable x b (scast (enable_freacture_mask (glob w))) w) (\<lambda>_ w.
            obind (pg_vhost_disable x b (scast (disable_freacture_mask (glob w))) w) (\<lambda>_ w.
            obind (vhost_create_socket x b flags w) (\<lambda>_ w.
            if pg_error_is_set w then Ret (-1) w
            else
              obind (Ret () (set_burst b vhost_burst_fn w)) (\<lambda>_ w.
              obind (Ret () (set_poll b vhost_poll_fn w)) (\<lambda>_ w.
              Ret 0 (upd_priv b (on_vhost (\<lambda>st. st\<lparr>vh_allow_queuing := 1\<rparr>)) w)))))))
      | _ \<Rightarrow> Abort ''config of another brick'')"

definition pg_vhost_new :: "brick_ops list \<Rightarrow> string \<Rightarrow> u64 \<Rightarrow> world \<Rightarrow> (nat option, world) out" where
  "pg_vhost_new reg nm flags w = pg_brick_new reg (Some ''vhost'') (Some (vhost_config_new nm flags)) w"

definition vhost_destroy :: "ext \<Rightarrow> nat \<Rightarrow> world \<Rightarrow> (unit, world) out" where
  "vhost_destroy x b w =
     obind (get_state st_vhost b w) (\<lambda>st w.
       case vh_socket st of None \<Rightarrow> Abort ''null pointer''
       | Some path \<Rightarrow>
           obind (Ret () (w\<lparr>mst := x_call x (rte_vhost_driver_unregister path) (mst w)\<rparr>)) (\<lambda>_ w.
           obind (Ret () (w\<lparr>mst := x_call x (g_remove path) (mst w)\<rparr>)) (\<lambda>_ w.
           Ret () (w\<lparr>glob := (glob w)\<lparr>vhost_sockets := remove1 (path, b) (vhost_sockets (glob w))\<rparr>\<rparr>))))"

definition vhost_link :: "priv \<Rightarrow> pg_side \<Rightarrow> nat \<Rightarrow> priv" where
  "vhost_link p side edge_index = on_vhost (\<lambda>st. st\<lparr>vh_output := pg_flip_side side\<rparr>) p"

fun vhost_get_side :: "priv \<Rightarrow> pg_side" where
  "vhost_get_side (P_vhost st) = pg_flip_side (vh_output st)"
| "vhost_get_side p = PG_WEST_SIDE"

fun vhost_get_rx_bytes :: "priv \<Rightarrow> mstore \<Rightarrow> u64" where
  "vhost_get_rx_bytes (P_vhost st) ms = vh_rx_bytes st"
| "vhost_get_rx_bytes p ms = 0"

fun vhost_get_tx_bytes :: "priv \<Rightarrow> mstore \<Rightarrow> u64" where
  "vhost_get_tx_bytes (P_vhost st) ms = vh_tx_bytes st"
| "vhost_get_tx_bytes p ms = 0"

definition zero_vhost :: pg_vhost_state where
  "zero_vhost = \<lparr>vh_output = PG_WEST_SIDE, vh_socket = None, vh_allow_queuing = 0, vh_vid = 0,
     vh_tx_bytes = 0, vh_rx_bytes = 0\<rparr>"

definition vhost_ops :: "ext \<Rightarrow> brick_ops" where
  "vhost_ops x = base_ops\<lparr>op_name := ''vhost'', op_zero := P_vhost zero_vhost,
     op_init := vhost_init x, op_destroy := Some (vhost_destroy x), op_link_notify := Some vhost_link,
     op_get_side := Some vhost_get_side, op_unlink := True,
     op_rx_bytes := Some vhost_get_rx_bytes, op_tx_bytes := Some vhost_get_tx_bytes\<rparr>"

section \<open>Connections\<close>

definition vhost_find :: "string \<Rightarrow> (string \<times> nat) list \<Rightarrow> nat option" where
  "vhost_find path ss = map_option snd (find (\<lambda>s. fst s = path) ss)"

definition new_vm :: "ext \<Rightarrow> int \<Rightarrow> world \<Rightarrow> (int, world) out" where
  "new_vm x dev w =
     (case vhost_find (x_vhost_ifname (x_vhost x) dev (mst w)) (vhost_sockets (glob w)) of
        None \<Rightarrow> Ret 0 w
      | Some b \<Rightarrow>
          obind (upd_vhost b (\<lambda>st. st\<lparr>vh_vid := dev\<rparr>) w) (\<lambda>_ w.
          obind (vhost_unlock b w) (\<lambda>_ w. Ret 0 w)))"

text \<open>
  \<open>destroy_vm\<close> waits for the lock. Only a handler that runs in another thread, or \<open>new_vm\<close>, gives
  it back; as nothing else runs here, waiting is divergence.
\<close>

definition destroy_vm :: "ext \<Rightarrow> int \<Rightarrow> world \<Rightarrow> (unit, world) out" where
  "destroy_vm x dev w =
     (case vhost_find (x_vhost_ifname (x_vhost x) dev (mst w)) (vhost_sockets (glob w)) of
        None \<Rightarrow> Ret () w
      | Some b \<Rightarrow>
          obind (vhost_try_lock b w) (\<lambda>locked w.
          if \<not> locked then Diverge
          else upd_vhost b (\<lambda>st. st\<lparr>vh_vid := -1\<rparr>) w))"

section \<open>Starting and stopping\<close>

definition PATH_MAX :: nat where "PATH_MAX = 4096"

definition check_and_store_base_dir :: "ext \<Rightarrow> string \<Rightarrow> world \<Rightarrow> (unit, world) out" where
  "check_and_store_base_dir x base_dir w =
     (if \<not> x_is_dir (x_os x) base_dir then
        Ret () (set_err (pg_error_new ''Invalid vhost-user socket directory %s'' [base_dir]) w)
      else if PATH_MAX \<le> length base_dir then Ret () (set_err (pg_error_new ''base_dir too long'' []) w)
      else
        obind (Ret () (w\<lparr>glob := (glob w)\<lparr>sockets_path := x_realpath (x_os x) base_dir\<rparr>\<rparr>)) (\<lambda>_ w.
        if sockets_path (glob w) = None then
          Ret () (set_err (pg_error_new_errno (x_errno (x_os x) (mst w)) ''Cannot resolve path of %s'' [base_dir]) w)
        else Ret () w))"

definition pg_vhost_start :: "ext \<Rightarrow> string \<Rightarrow> world \<Rightarrow> (int, world) out" where
  "pg_vhost_start x base_dir w =
     (if vhost_start_ok (glob w) then Ret (-1) (set_err (pg_error_new ''vhost already started'' []) w)
      else
        obind (check_and_store_base_dir x base_dir (w\<lparr>glob := (glob w)\<lparr>vhost_sockets := []\<rparr>\<rparr>)) (\<lambda>_ w.
        if pg_error_is_set w then Ret (-1) w
        else Ret 0 (w\<lparr>glob := (glob w)\<lparr>vhost_start_ok := True\<rparr>\<rparr>)))"

definition pg_vhost_stop :: "world \<Rightarrow> (unit, world) out" where
  "pg_vhost_stop w =
     (if \<not> vhost_start_ok (glob w) then Ret () w
      else Ret () (w\<lparr>glob := (glob w)\<lparr>sockets_path := None, vhost_start_ok := False\<rparr>\<rparr>))"

section \<open>Lemmas\<close>

lemma safe_step_vhost [simp]:
  assumes "\<And>st. vh_output (f st) = vh_output st"
  shows "safe_step w (upd_priv b (on_vhost f) w)"
proof (rule safe_step_priv)
  fix br show "priv_step (priv_state br) (on_vhost f (priv_state br))"
    by (cases "priv_state br") (simp_all add: priv_step_def assms)
qed

lemma upd_vhost_safe: "(\<And>st. vh_output (f st) = vh_output st) \<Longrightarrow> safe w (upd_vhost b f w)"
  unfolding upd_vhost_def by (intro safe_intros; simp)

lemma vhost_lock_safe [safe_intros]: "safe w (vhost_try_lock b w)" "safe w (vhost_unlock b w)"
  unfolding vhost_try_lock_def vhost_unlock_def by (intro safe_intros upd_vhost_safe; simp)+

lemma vhost_burst_safe: "safe w (vhost_burst x b from i a m w)"
  unfolding vhost_burst_def vhost_enqueue_def vhost_len_def
  by (intro safe_intros upd_vhost_safe; simp)

lemma vhost_dequeue_safe: "safe w (vhost_dequeue x v b k w)"
  unfolding vhost_dequeue_def by (intro safe_intros; simp add: safe_step_data)

lemma vhost_guess_safe: "safe w (vhost_guess x b i c w)"
  unfolding vhost_guess_def vhost_len_def by (intro safe_intros; simp)

lemma vhost_destroy_safe: "safe w (vhost_destroy x b w)"
  unfolding vhost_destroy_def by (intro safe_intros; simp)

context bursts
begin

lemma vhost_poll_safe: "safe w (vhost_poll x brst b c w)"
  unfolding vhost_poll_def
  by (intro safe_intros upd_vhost_safe burst_edge_safe vhost_dequeue_safe vhost_guess_safe; simp)

end

lemma state_at_on_vhost:
  "state_at st_vhost (upd_priv b (on_vhost f) w) c =
     (if c = b then map_option f (state_at st_vhost w b) else state_at st_vhost w c)"
proof (rule state_at_upd_priv)
  fix p show "st_vhost (on_vhost f p) = map_option f (st_vhost p)" by (cases p) simp_all
qed

lemma upd_vhost_Some: "state_at st_vhost w b = Some st \<Longrightarrow> upd_vhost b f w = Ret () (upd_priv b (on_vhost f) w)"
  by (simp add: upd_vhost_def)

section \<open>Properties\<close>

definition with_features :: "u32 \<Rightarrow> u32 \<Rightarrow> world \<Rightarrow> world" where
  "with_features e d w = w\<lparr>glob := (glob w)\<lparr>enable_freacture_mask := e, disable_freacture_mask := d\<rparr>\<rparr>"

lemma with_features_simps [simp]:
  "bricks (with_features e d w) = bricks w" "mst (with_features e d w) = mst w"
  "errp (with_features e d w) = errp w"
  "sockets_path (glob (with_features e d w)) = sockets_path (glob w)"
  "vhost_start_ok (glob (with_features e d w)) = vhost_start_ok (glob w)"
  "(with_features e d w)\<lparr>mst := ms\<rparr> = with_features e d (w\<lparr>mst := ms\<rparr>)"
  "set_err er (with_features e d w) = with_features e d (set_err er w)"
  "upd_priv b f (with_features e d w) = with_features e d (upd_priv b f w)"
  "set_burst b bf (with_features e d w) = with_features e d (set_burst b bf w)"
  "set_poll b pf (with_features e d w) = with_features e d (set_poll b pf w)"
  "pg_error_is_set (with_features e d w) = pg_error_is_set w"
  "get_brick b (with_features e d w) = obind (get_brick b w) (\<lambda>br w. Ret br (with_features e d w))"
  by (simp_all add: with_features_def set_err_def upd_priv_def upd_brick_def set_burst_def set_poll_def
      pg_error_is_set_def get_brick_def split: option.splits)

lemma create_socket_features:
  "vhost_create_socket x b fl (with_features e d w) =
     obind (vhost_create_socket x b fl w) (\<lambda>r w'. Ret r (with_features e d w'))"
proof (cases "bricks w b")
  case (Some br)
  show ?thesis
    unfolding vhost_create_socket_def vhost_call_def Let_def
    using Some by (simp add: case_prod_beta) (simp add: with_features_def)
qed (simp add: vhost_create_socket_def get_brick_def)

text \<open>
  C33. The global feature settings have no effect: \<open>vhost_init\<close> applies them before it creates
  the socket of the brick, and without a socket \<open>pg_vhost_enable\<close> and \<open>pg_vhost_disable\<close> return
  at once. Whatever \<open>pg_vhost_global_enable\<close> and \<open>pg_vhost_global_disable\<close> stored, creating a
  brick does the same.
\<close>

theorem vhost_global_features_ignored:
  assumes "state_at st_vhost w b = Some st" and "vh_socket st = None"
  shows "vhost_init x b c (with_features e d w) =
    obind (vhost_init x b c w) (\<lambda>r w'. Ret r (with_features e d w'))"
proof -
  define w1 where "w1 out = upd_priv b (on_vhost (\<lambda>st. st\<lparr>vh_output := out, vh_vid := -1,
      vh_rx_bytes := 0, vh_tx_bytes := 0\<rparr>)) w" for out
  have none: "vhost_features on x b m (w1 out) = Ret (-1) (w1 out)"
      "vhost_features on x b m (with_features e d (w1 out)) = Ret (-1) (with_features e d (w1 out))" for on m out
    using assms state_at_data [of "with_features e d (w1 out)" "w1 out" st_vhost]
    by (simp_all add: vhost_features_def pg_vhost_socket_path_def w1_def state_at_on_vhost)
  have "vhost_init x b (c\<lparr>brick_config := Some (C_vhost out fl)\<rparr>) (with_features e d w) =
      obind (vhost_init x b (c\<lparr>brick_config := Some (C_vhost out fl)\<rparr>) w) (\<lambda>r w'. Ret r (with_features e d w'))" for out fl
    using none [of _ _ out] create_socket_features [of x b fl e d "w1 out"]
    by (cases "vhost_create_socket x b fl (w1 out)")
       (simp_all add: vhost_init_def pg_vhost_enable_def pg_vhost_disable_def w1_def [symmetric])
  from this [of "case brick_config c of Some (C_vhost out fl) \<Rightarrow> out | _ \<Rightarrow> PG_WEST_SIDE"
      "case brick_config c of Some (C_vhost out fl) \<Rightarrow> fl | _ \<Rightarrow> 0"]
  show ?thesis
    by (cases "brick_config c") (auto simp: vhost_init_def split: bconf.splits)
qed

definition started_vhost :: world where
  "started_vhost = (let w = place 0 (P_vhost zero_vhost) demo_world in
     w\<lparr>glob := (glob w)\<lparr>vhost_start_ok := True, sockets_path := Some ''/tmp''\<rparr>\<rparr>)"

theorem vhost_global_features_ignored_witness:
  "\<exists>w'. vhost_init demo_ext 0 (vhost_config_new ''vm'' 0) started_vhost = Ret 0 w' \<and>
     vhost_init demo_ext 0 (vhost_config_new ''vm'' 0) (with_features 8 2 started_vhost) = Ret 0 (with_features 8 2 w')"
proof -
  have st: "state_at st_vhost started_vhost 0 = Some zero_vhost"
    using state_at_data [of started_vhost "place 0 (P_vhost zero_vhost) demo_world" st_vhost]
    by (simp add: started_vhost_def Let_def)
  have no: "vh_socket zero_vhost = None" by (simp add: zero_vhost_def)
  have "\<exists>w'. vhost_init demo_ext 0 (vhost_config_new ''vm'' 0) started_vhost = Ret 0 w'"
    by (simp add: vhost_init_def vhost_config_new_def pg_brick_config_init_def started_vhost_def place_def demo_world_def
        upd_priv_def upd_brick_def pg_vhost_enable_def pg_vhost_disable_def vhost_features_def pg_vhost_socket_path_def
        vhost_create_socket_def vhost_call_def get_brick_def get_state_def zero_vhost_def demo_ext_def demo_vhost_def
        set_burst_def set_poll_def pg_error_is_set_def Let_def)
  then show ?thesis
    using vhost_global_features_ignored [OF st no, of demo_ext "vhost_config_new ''vm'' 0" 8 2] by auto
qed

lemma vhost_len_loop:
  assumes "arrays w a = Some f" and "\<And>i. i \<in> set is \<Longrightarrow> mbufs (mst w) (f i) = Some (mb i)"
  shows "oacc (vhost_len a) is c w = Ret (c + sum_list (map (\<lambda>i. word_of_nat (pkt_len (mb i))) is)) w"
  using assms(2)
proof (induction "is" arbitrary: c)
  case (Cons i "is")
  have "vhost_len a i c w = Ret (c + word_of_nat (pkt_len (mb i))) w"
    using assms(1) Cons.prems [of i] by (simp add: vhost_len_def get_mbuf_def)
  then show ?case using Cons by (simp add: add.assoc)
qed simp

text \<open>
  C34. With no machine connected the lock is taken and a burst does nothing. Otherwise a burst
  offers exactly the packets of the mask to the machine, in order, the first 32 and then, if there
  are more, the others in a second call. It gives the lock back and adds to the byte counter the
  lengths of the first \<open>n1 + n2\<close> packets of the caller's array, where \<open>n1\<close> and \<open>n2\<close> are the
  numbers of packets the machine took in the two calls, of a library that takes at most the packets
  it is offered. The packets counted are the packets taken only if the mask has no gaps and the
  first call took all it was offered.
\<close>

theorem vhost_burst_counts_array:
  assumes "state_at st_vhost w b = Some st" and "arrays w a = Some f" and "arrays w (vhost_out b) = Some g"
    and "a \<noteq> vhost_out b" and most: "\<And>ps ms. fst (x_vhost_enqueue (x_vhost x) (vh_vid st) ps ms) \<le> length ps"
    and first: "x_vhost_enqueue (x_vhost x) (vh_vid st) (map f (take 32 (pg_foreach_bit m))) (mst w) = (n1, ms1)"
    and second: "(if pg_mask_count m \<le> 32 then (0, ms1)
      else x_vhost_enqueue (x_vhost x) (vh_vid st) (map f (drop 32 (pg_foreach_bit m))) ms1) = (n2, ms)"
    and "\<And>i. i < n1 + n2 \<Longrightarrow> mbufs ms (f i) = Some (mb i)"
  shows "if vh_allow_queuing st \<noteq> 0 then vhost_burst x b from e a m w = Ret 0 w
    else oret (vhost_burst x b from e a m w) (\<lambda>r w'. r = 0 \<and> mst w' = ms \<and>
      state_at st_vhost w' b = Some (st\<lparr>vh_allow_queuing := 0,
        vh_tx_bytes := vh_tx_bytes st + (\<Sum>i\<leftarrow>[0..<n1 + n2]. word_of_nat (pkt_len (mb i)))\<rparr>))"
proof (cases "vh_allow_queuing st = 0")
  case False
  then show ?thesis using assms(1) by (simp add: vhost_burst_def vhost_try_lock_def)
next
  case True
  define w1 where "w1 = upd_priv b (on_vhost (\<lambda>st. st\<lparr>vh_allow_queuing := 1\<rparr>)) w"
  have st1: "state_at st_vhost w1 b = Some (st\<lparr>vh_allow_queuing := 1\<rparr>)"
    using assms(1) by (simp add: w1_def state_at_on_vhost)
  define js where "js = pg_foreach_bit m"
  define h where "h = (\<lambda>i. if i < length js then f (js ! i) else g i)"
  define w2 where "w2 = w1\<lparr>arrays := (arrays w1)(vhost_out b \<mapsto> h)\<rparr>"
  have lock: "vhost_try_lock b w = Ret True w1"
    using assms(1) True by (simp add: vhost_try_lock_def upd_vhost_Some w1_def)
  have pack: "pg_packets_pack (vhost_out b) a m w1 = Ret (length js) w2"
    using pack_loop [of w1 a f "vhost_out b" g 0 js, unfolded diff_zero] assms(2,3,4)
    by (simp add: pg_packets_pack_def js_def w2_def h_def w1_def)
  have h: "map h [i..<k] = map f (drop i (take k js))" if "k \<le> length js" for i k
    using that by (intro nth_equalityI) (auto simp: h_def)
  have len: "length js = pg_mask_count m" by (simp add: js_def length_pg_foreach_bit)
  define w3 where "w3 = w2\<lparr>mst := ms\<rparr>"
  have st3: "state_at st_vhost w3 b = Some (st\<lparr>vh_allow_queuing := 1\<rparr>)"
    using st1 state_at_data [of w3 w1 st_vhost] by (simp add: w3_def w2_def)
  have small: "n1 + n2 < 65536"
    using most [of "map f (take 32 js)" "mst w"] most [of "map f (drop 32 js)" ms1] first second
      pg_mask_count_le [of m] by (auto simp: len split: if_splits simp flip: js_def)
  have enq: "(if 32 < length js then
        obind (vhost_enqueue x (vh_vid st) (map h [0..<32]) w2) (\<lambda>n w.
        obind (vhost_enqueue x (vh_vid st) (map h [32..<length js]) w) (\<lambda>k w. Ret ((n + k) mod 65536) w))
      else vhost_enqueue x (vh_vid st) (map h [0..<length js]) w2) = Ret (n1 + n2) w3"
    using first second small
    by (auto simp: h vhost_enqueue_def len [symmetric] js_def [symmetric] w3_def w2_def w1_def split: if_splits)
  define w4 where "w4 = upd_priv b (on_vhost (\<lambda>st. st\<lparr>vh_allow_queuing := 0\<rparr>)) w3"
  have st4: "state_at st_vhost w4 b = Some (st\<lparr>vh_allow_queuing := 0\<rparr>)"
    using st3 by (simp add: w4_def state_at_on_vhost)
  have arr: "arrays w2 (vhost_out b) = Some h" "arrays w4 a = Some f" "mst w4 = ms"
    using assms(2,4) by (simp_all add: w4_def w3_def w2_def w1_def)
  define c :: u64 where "c = (\<Sum>i\<leftarrow>[0..<n1 + n2]. word_of_nat (pkt_len (mb i)))"
  have count: "oacc (vhost_len a) [0..<n1 + n2] 0 w4 = Ret c w4"
    using vhost_len_loop [OF arr(2), of "[0..<n1 + n2]" mb 0] assms(8) by (simp add: arr(3) c_def)
  have st2: "get_state st_vhost b w1 = Ret (st\<lparr>vh_allow_queuing := 1\<rparr>) w1" using st1 by simp
  have unlock: "vhost_unlock b w3 = Ret () w4" by (simp add: vhost_unlock_def upd_vhost_Some [OF st3] w4_def)
  have "vhost_burst x b from e a m w =
      Ret 0 (upd_priv b (on_vhost (\<lambda>st. st\<lparr>vh_tx_bytes := vh_tx_bytes st + c\<rparr>)) w4)"
    unfolding vhost_burst_def lock using st2 pack arr(1) enq unlock count
    by (cases "32 < length js") (simp_all add: upd_vhost_Some [OF st4])
  then show ?thesis
    using True st4 arr(3) by (simp add: state_at_on_vhost c_def)
qed

theorem vhost_burst_counts_array_witness:
  "oret (vhost_burst (demo_ext\<lparr>x_vhost := demo_vhost\<lparr>x_vhost_enqueue := (\<lambda>v ps ms. (length ps, ms))\<rparr>\<rparr>)
      0 PG_WEST_SIDE 0 (Arr 0) 0x1FFFFFFFFFE
      ((place 0 (P_vhost zero_vhost) demo_world)\<lparr>arrays := (arrays demo_world)(Emb 0 1 \<mapsto> (\<lambda>_. 0))\<rparr>))
    (\<lambda>r w'. r = 0 \<and> state_at st_vhost w' 0 = Some (zero_vhost\<lparr>vh_tx_bytes := 2400\<rparr>))"
proof -
  define x where "x = demo_ext\<lparr>x_vhost := demo_vhost\<lparr>x_vhost_enqueue := (\<lambda>v ps ms. (length ps, ms))\<rparr>\<rparr>"
  define w where "w = (place 0 (P_vhost zero_vhost) demo_world)\<lparr>arrays := (arrays demo_world)(Emb 0 1 \<mapsto> (\<lambda>_. 0))\<rparr>"
  have st: "state_at st_vhost w 0 = Some zero_vhost"
    using state_at_data [of w "place 0 (P_vhost zero_vhost) demo_world" st_vhost] by (simp add: w_def)
  have arr: "arrays w (Arr 0) = Some Suc" "arrays w (Emb 0 1) = Some (\<lambda>_. 0)" by (simp_all add: w_def)
  have bits: "pg_mask_count 0x1FFFFFFFFFE = 40" by code_simp
  have enq: "x_vhost_enqueue (x_vhost x) v ps ms = (length ps, ms)" for v ps ms by (simp add: x_def)
  have mb: "mbufs (mst w) (Suc i) = Some (demo_mbuf\<lparr>buf_addr := Suc i\<rparr>)" if "i < 40" for i
    using that by (simp add: w_def demo_world_def)
  have "vh_allow_queuing zero_vhost = 0" "vh_tx_bytes zero_vhost = 0" by (simp_all add: zero_vhost_def)
  moreover have "pkt_len (demo_mbuf\<lparr>buf_addr := i\<rparr>) = 60" for i by (simp add: demo_mbuf_def)
  moreover have "zero_vhost\<lparr>vh_allow_queuing := 0, vh_tx_bytes := c\<rparr> = zero_vhost\<lparr>vh_tx_bytes := c\<rparr>" for c
    by (simp add: zero_vhost_def)
  ultimately show ?thesis
    unfolding x_def [symmetric] w_def [symmetric]
    using vhost_burst_counts_array [OF st arr, of x "0x1FFFFFFFFFE" 32 "mst w" 8 "mst w"
        "\<lambda>i. demo_mbuf\<lparr>buf_addr := Suc i\<rparr>" PG_WEST_SIDE 0] mb
    by (auto simp: bits enq length_pg_foreach_bit map_replicate_const sum_list_replicate elim!: oret_mono)
qed

end
