(* ===== verification/PG_Vtep.thy ===== *)
theory PG_Vtep
  imports PG_Relay PG_Net
begin

text \<open>
  The VXLAN tunnel endpoint, \<open>src/vtep-impl.h\<close>, which \<open>src/vtep.c\<close> and \<open>src/vtep6.c\<close> include
  with \<open>IP_VERSION\<close> 4 and 6: the version is an argument here. A packet from inside gets an
  Ethernet, IP, UDP and VXLAN header; a packet from outside loses them and goes to the port of
  its network identifier (VNI). Each port has two MAC tables: the addresses of its own network
  (\<open>known_mac\<close>) and the endpoints behind which other addresses are (\<open>mac_to_dst\<close>).

  A pointer into a packet is a buffer and an offset, so what is read through it is what is
  there at that time. An allocation that fails inside a MAC table jumps to the last \<open>setjmp\<close>;
  a function that can be left that way returns an option, \<open>None\<close> for the jump.
\<close>

section \<open>State\<close>

datatype ip_version = IPV4 | IPV6

definition IS_MAC_TO_DST_DEAD :: u32 where "IS_MAC_TO_DST_DEAD = 1"
definition IS_KNOWN_MAC_DEAD :: u32 where "IS_KNOWN_MAC_DEAD = 2"
definition HAS_BEEN_BROKEN :: u32 where "HAS_BEEN_BROKEN = 4"

definition PG_VTEP_NO_COPY :: u32 where "PG_VTEP_NO_COPY = 1"
definition PG_VTEP_NO_INNERMAC_CHECK :: u32 where "PG_VTEP_NO_INNERMAC_CHECK = 2"
definition PG_VTEP_FORCE_UPD_IPV6_CHECKSUM :: u32 where "PG_VTEP_FORCE_UPD_IPV6_CHECKSUM = 4"
definition PG_VTEP_ALL_OPTI :: u32 where "PG_VTEP_ALL_OPTI = PG_VTEP_NO_COPY OR PG_VTEP_NO_INNERMAC_CHECK"

definition DEFAULT_MAX_LIFETIME :: u64 where "DEFAULT_MAX_LIFETIME = 1000"
definition UDP_MIN_PORT :: u16 where "UDP_MIN_PORT = 49152"
definition UDP_PORT_RANGE :: u16 where "UDP_PORT_RANGE = 16383"
definition PG_FRAGMENTED_MBUF :: u64 where "PG_FRAGMENTED_MBUF = 1"
definition ENOMEM :: int where "ENOMEM = 12"

fun st_vtep :: "priv \<Rightarrow> vtep_state option" where
  "st_vtep (P_vtep st) = Some st"
| "st_vtep _ = None"

fun on_vtep :: "(vtep_state \<Rightarrow> vtep_state) \<Rightarrow> priv \<Rightarrow> priv" where
  "on_vtep f (P_vtep st) = P_vtep (f st)"
| "on_vtep f p = p"

abbreviation vtep_pkts :: "nat \<Rightarrow> arr" where "vtep_pkts b \<equiv> Emb b 0"

definition upd_vtep :: "nat \<Rightarrow> (vtep_state \<Rightarrow> vtep_state) \<Rightarrow> world \<Rightarrow> (unit, world) out" where
  "upd_vtep b f w = obind (get_state st_vtep b w) (\<lambda>_ w. Ret () (upd_priv b (on_vtep f) w))"

definition get_port :: "nat \<Rightarrow> nat \<Rightarrow> world \<Rightarrow> (vtep_port, world) out" where
  "get_port b i w =
     obind (get_state st_vtep b w) (\<lambda>st w.
       if i < length (vt_ports st) then Ret (vt_ports st ! i) w else Abort ''port out of range'')"

definition upd_port :: "nat \<Rightarrow> nat \<Rightarrow> (vtep_port \<Rightarrow> vtep_port) \<Rightarrow> world \<Rightarrow> (unit, world) out" where
  "upd_port b i f w =
     obind (get_port b i w) (\<lambda>p w.
       upd_vtep b (\<lambda>st. st\<lparr>vt_ports := (vt_ports st)[i := f p]\<rparr>) w)"

text \<open>A pointer into a packet, and the bytes there.\<close>

type_synonym ptr = "nat \<times> nat"

definition deref :: "ptr \<Rightarrow> world \<Rightarrow> nat \<Rightarrow> u8" where
  "deref p w k = bufs (mst w) (fst p) (snd p + k)"

section \<open>IP addresses\<close>

definition ip_word :: "u8 list \<Rightarrow> u32" where
  "ip_word ip = ld32 (\<lambda>i. ip ! i) 0"

fun pg_is_multicast_ip :: "ip_version \<Rightarrow> u8 list \<Rightarrow> bool" where
  "pg_is_multicast_ip IPV4 ip = is_multicast_ipv4 (ip_word ip)"
| "pg_is_multicast_ip IPV6 ip = is_multicast_ip_tab ip"

fun pg_multicast_get_dst_addr :: "ip_version \<Rightarrow> u8 list \<Rightarrow> u8 list" where
  "pg_multicast_get_dst_addr IPV4 ip = pg_multicast_get_dst_addr4 (ip_word ip)"
| "pg_multicast_get_dst_addr IPV6 ip = pg_multicast_get_dst_addr6 ip"

fun ip_size :: "ip_version \<Rightarrow> nat" where
  "ip_size IPV4 = 4" | "ip_size IPV6 = 16"

text \<open>
  The IP header: its size, and where its protocol, source and destination fields are. The
  structure \<open>headers\<close> is the IP header, the UDP header of 8 bytes and the VXLAN header of 8.
\<close>

fun ip_hdr_size :: "ip_version \<Rightarrow> nat" where
  "ip_hdr_size IPV4 = 20" | "ip_hdr_size IPV6 = 40"

fun ip_proto_off :: "ip_version \<Rightarrow> nat" where
  "ip_proto_off IPV4 = 9" | "ip_proto_off IPV6 = 6"

fun ip_src_off :: "ip_version \<Rightarrow> nat" where
  "ip_src_off IPV4 = 12" | "ip_src_off IPV6 = 8"

fun ip_dst_off :: "ip_version \<Rightarrow> nat" where
  "ip_dst_off IPV4 = 16" | "ip_dst_off IPV6 = 24"

definition headers_size :: "ip_version \<Rightarrow> nat" where
  "headers_size v = ip_hdr_size v + 8 + 8"

definition HEADER_LENGTH :: "ip_version \<Rightarrow> nat" where
  "HEADER_LENGTH v = headers_size v + 14"

fun PG_BE_ETHER_TYPE_IP :: "ip_version \<Rightarrow> u16" where
  "PG_BE_ETHER_TYPE_IP IPV4 = PG_BE_ETHER_TYPE_IPv4"
| "PG_BE_ETHER_TYPE_IP IPV6 = PG_BE_ETHER_TYPE_IPv6"

section \<open>The MAC tables of a port\<close>

definition mac_mem_get :: "'v mac_mem \<Rightarrow> u64 \<Rightarrow> world \<Rightarrow> ('v option, world) out" where
  "mac_mem_get t mac w =
     (case t of
        Zeroed \<Rightarrow> Ret None w
      | Freed mk \<Rightarrow>
          if pg_mac_table_is_set mk (pg_mac_table_part1 mac) then Abort ''use after free'' else Ret None w
      | Live ma \<Rightarrow> Ret (pg_mac_table_ptr_get ma mac) w)"

text \<open>\<open>Inr\<close> is the table with the entry, \<open>Inl\<close> the table the failed allocation leaves behind.\<close>

definition mac_mem_set ::
    "ext \<Rightarrow> 'v mac_mem \<Rightarrow> u64 \<Rightarrow> 'v \<Rightarrow> world \<Rightarrow> ('v mac_mem + 'v mac_mem, world) out" where
  "mac_mem_set x t mac entry w =
     (case t of
        Zeroed \<Rightarrow> Abort ''null table''
      | Freed _ \<Rightarrow> Abort ''use after free''
      | Live ma \<Rightarrow>
          let n = malloc_cnt w;
              used = (if pg_mac_table_is_set (tbl_mask ma) (pg_mac_table_part1 mac) then 0
                      else if x_malloc_ok x n then 2 else 1) in
          (case pg_mac_table_ptr_set (x_malloc_ok x n) (x_malloc_ok x (Suc n)) ma mac entry of
             Ret ok ma' \<Rightarrow> Ret (if ok then Inr (Live ma') else Inl (Live ma')) (w\<lparr>malloc_cnt := n + used\<rparr>)
           | Abort r \<Rightarrow> Abort r
           | Diverge \<Rightarrow> Diverge))"

definition mac_mem_unset :: "'v mac_mem \<Rightarrow> u64 \<Rightarrow> world \<Rightarrow> (int \<times> 'v mac_mem, world) out" where
  "mac_mem_unset t mac w =
     (case t of
        Zeroed \<Rightarrow> Ret (-1, t) w
      | Freed mk \<Rightarrow>
          if pg_mac_table_is_set mk (pg_mac_table_part1 mac) then Abort ''use after free'' else Ret (-1, t) w
      | Live ma \<Rightarrow> let (r, ma') = pg_mac_table_ptr_unset ma mac in Ret (r, Live ma') w)"

definition mac_mem_free :: "'v mac_mem \<Rightarrow> world \<Rightarrow> ('v mac_mem, world) out" where
  "mac_mem_free t w =
     (case t of Zeroed \<Rightarrow> Ret Zeroed w | Freed _ \<Rightarrow> Abort ''double free'' | Live ma \<Rightarrow> Ret (Freed (tbl_mask ma)) w)"

text \<open>An operation that walks over the set bits of the mask before it touches anything else.\<close>

definition mac_mem_walk ::
    "('v pg_mac_table \<Rightarrow> 'v pg_mac_table) \<Rightarrow> 'v mac_mem \<Rightarrow> world \<Rightarrow> ('v mac_mem, world) out" where
  "mac_mem_walk f t w =
     (case t of
        Zeroed \<Rightarrow> Ret Zeroed w
      | Freed mk \<Rightarrow>
          if list_all (\<lambda>i. mk i = 0) [0..<PG_MAC_TABLE_MASK_SIZE] then Ret t w else Abort ''use after free''
      | Live ma \<Rightarrow> Ret (Live (f ma)) w)"

definition mac_mem_init :: "ext \<Rightarrow> world \<Rightarrow> ('v mac_mem option, world) out" where
  "mac_mem_init x w =
     Ret (map_option Live (pg_mac_table_init (x_malloc_ok x (malloc_cnt w)) True))
       (w\<lparr>malloc_cnt := Suc (malloc_cnt w)\<rparr>)"

text \<open>Setting an entry of a table of a port; \<open>False\<close> is the jump.\<close>

definition set_known_mac :: "ext \<Rightarrow> nat \<Rightarrow> nat \<Rightarrow> u64 \<Rightarrow> world \<Rightarrow> (bool, world) out" where
  "set_known_mac x b i mac w =
     obind (get_port b i w) (\<lambda>port w.
     obind (mac_mem_set x (vp_known_mac port) mac () w) (\<lambda>r w.
     case r of
       Inl t \<Rightarrow> obind (upd_port b i (\<lambda>p. p\<lparr>vp_known_mac := t\<rparr>) w) (\<lambda>_ w. Ret False w)
     | Inr t \<Rightarrow> obind (upd_port b i (\<lambda>p. p\<lparr>vp_known_mac := t\<rparr>) w) (\<lambda>_ w. Ret True w)))"

definition set_mac_to_dst :: "ext \<Rightarrow> nat \<Rightarrow> nat \<Rightarrow> u64 \<Rightarrow> dest_addresses \<Rightarrow> world \<Rightarrow> (bool, world) out" where
  "set_mac_to_dst x b i mac dst w =
     obind (get_port b i w) (\<lambda>port w.
     obind (mac_mem_set x (vp_mac_to_dst port) mac dst w) (\<lambda>r w.
     case r of
       Inl t \<Rightarrow> obind (upd_port b i (\<lambda>p. p\<lparr>vp_mac_to_dst := t\<rparr>) w) (\<lambda>_ w. Ret False w)
     | Inr t \<Rightarrow> obind (upd_port b i (\<lambda>p. p\<lparr>vp_mac_to_dst := t\<rparr>) w) (\<lambda>_ w. Ret True w)))"

definition free_known_mac :: "nat \<Rightarrow> nat \<Rightarrow> world \<Rightarrow> (unit, world) out" where
  "free_known_mac b i w =
     obind (get_port b i w) (\<lambda>port w.
     obind (mac_mem_free (vp_known_mac port) w) (\<lambda>t w. upd_port b i (\<lambda>p. p\<lparr>vp_known_mac := t\<rparr>) w))"

definition free_mac_to_dst :: "nat \<Rightarrow> nat \<Rightarrow> world \<Rightarrow> (unit, world) out" where
  "free_mac_to_dst b i w =
     obind (get_port b i w) (\<lambda>port w.
     obind (mac_mem_free (vp_mac_to_dst port) w) (\<lambda>t w. upd_port b i (\<lambda>p. p\<lparr>vp_mac_to_dst := t\<rparr>) w))"

definition are_mac_tables_dead :: "vtep_port \<Rightarrow> bool" where
  "are_mac_tables_dead port \<longleftrightarrow> vp_dead_tables port AND (IS_MAC_TO_DST_DEAD OR IS_KNOWN_MAC_DEAD) \<noteq> 0"

section \<open>Headers\<close>

definition src_port_compute :: "u16 \<Rightarrow> u16" where
  "src_port_compute seed = (seed AND UDP_PORT_RANGE) + UDP_MIN_PORT"

definition udp_overhead :: u16 where "udp_overhead = 8 + 8"

definition ip_overhead :: u16 where "ip_overhead = udp_overhead + 20"

definition vxlan_build :: "nat \<Rightarrow> nat \<Rightarrow> u32 \<Rightarrow> world \<Rightarrow> (unit, world) out" where
  "vxlan_build p off vni w = put_bytes p off (le32 PG_VTEP_BE_I_FLAG @ le32 vni) w"

definition ethernet_build :: "ip_version \<Rightarrow> nat \<Rightarrow> nat \<Rightarrow> u8 list \<Rightarrow> u8 list \<Rightarrow> world \<Rightarrow> (unit, world) out" where
  "ethernet_build v p off src_mac dst_mac w =
     put_bytes p off (dst_mac @ src_mac @ le16 (PG_BE_ETHER_TYPE_IP v)) w"

definition ip4_build ::
    "ext \<Rightarrow> nat \<Rightarrow> nat \<Rightarrow> nat \<Rightarrow> u8 list \<Rightarrow> u8 list \<Rightarrow> u16 \<Rightarrow> world \<Rightarrow> (unit, world) out" where
  "ip4_build x b p off src_ip dst_ip datagram_len w =
     obind (upd_vtep b (\<lambda>st. st\<lparr>vt_packet_id := vt_packet_id st + 1\<rparr>) w) (\<lambda>_ w.
     obind (get_state st_vtep b w) (\<lambda>st w.
       let total_length = PG_CPU_TO_BE_16 datagram_len in
       put_bytes p off
         (ipv4_bytes total_length (vt_packet_id st) 0 64 PG_UDP_PROTOCOL_NUMBER
            (pg_ipv4_udp_cksum x (vt_sum st) total_length (vt_packet_id st) (ip_word dst_ip))
            (ip_word src_ip) (ip_word dst_ip)) w))"

definition ip6_build :: "nat \<Rightarrow> nat \<Rightarrow> u8 list \<Rightarrow> u8 list \<Rightarrow> u16 \<Rightarrow> world \<Rightarrow> (unit, world) out" where
  "ip6_build p off src_ip dst_ip len w =
     put_bytes p off (le32 (PG_CPU_TO_BE_32 0x60000000) @ be16 len @ [PG_UDP_PROTOCOL_NUMBER, 0xff] @
       src_ip @ dst_ip) w"

fun ip_build ::
    "ip_version \<Rightarrow> ext \<Rightarrow> nat \<Rightarrow> nat \<Rightarrow> nat \<Rightarrow> u8 list \<Rightarrow> u8 list \<Rightarrow> u16 \<Rightarrow> world \<Rightarrow> (unit, world) out" where
  "ip_build IPV4 x b p off src_ip dst_ip len w = ip4_build x b p off src_ip dst_ip len w"
| "ip_build IPV6 x b p off src_ip dst_ip len w = ip6_build p off src_ip dst_ip len w"

definition udp_build :: "nat \<Rightarrow> nat \<Rightarrow> u16 \<Rightarrow> u16 \<Rightarrow> u16 \<Rightarrow> world \<Rightarrow> (unit, world) out" where
  "udp_build p off dst_port datagram_len seed w =
     put_bytes p off (be16 (src_port_compute seed) @ le16 dst_port @ be16 datagram_len @ [0, 0]) w"

text \<open>Only the variant for IPv6 computes the checksum.\<close>

definition udp_build_cksum ::
    "ip_version \<Rightarrow> ext \<Rightarrow> nat \<Rightarrow> nat \<Rightarrow> nat \<Rightarrow> u16 \<Rightarrow> u16 \<Rightarrow> u16 \<Rightarrow> world \<Rightarrow> (unit, world) out" where
  "udp_build_cksum v x p ip_off off dst_port datagram_len seed w =
     obind (udp_build p off dst_port datagram_len seed w) (\<lambda>_ w.
     if v = IPV6 then
       obind (mtod p w) (\<lambda>data w.
       put_bytes p (off + 6) (le16 (x_udptcp6_cksum (x_eth x) data ip_off off)) w)
     else Ret () w)"

section \<open>Encapsulation\<close>

definition do_add_mac :: "ext \<Rightarrow> nat \<Rightarrow> nat \<Rightarrow> u64 \<Rightarrow> world \<Rightarrow> (bool, world) out" where
  "do_add_mac x b i mac w = set_known_mac x b i mac w"

text \<open>The flags of a packet that leaves with a tunnel header.\<close>

definition vtep_meta :: "ext \<Rightarrow> ip_version \<Rightarrow> mbuf \<Rightarrow> mbuf" where
  "vtep_meta x v m =
     (let m = m\<lparr>l2_len := HEADER_LENGTH v + 14\<rparr> in
      if udata64 m AND PG_FRAGMENTED_MBUF \<noteq> 0 then
        m\<lparr>l2_len := 14, l3_len := 20, ol_flags := ol_flags m OR PKT_TX_UDP_CKSUM (x_eth x)\<rparr>
      else if ol_flags m AND PKT_TX_TCP_SEG (x_eth x) \<noteq> 0 then
        m\<lparr>ol_flags := ol_flags m OR PKT_TX_IPV4 (x_eth x) OR PKT_TX_IP_CKSUM (x_eth x) OR
           PKT_TX_TCP_CKSUM (x_eth x) OR PKT_TX_TCP_SEG (x_eth x)\<rparr>
      else m)"

text \<open>
  The choice of the destination in \<open>vtep_header_prepend\<close>. \<open>entry\<close> is the destination of a
  unicast packet and the key under which the table of the port has it; \<open>eth_hdr\<close> points to the
  header the packet came with. The result \<open>None\<close> is the jump.
\<close>

definition vtep_dst ::
    "ext \<Rightarrow> ip_version \<Rightarrow> nat \<Rightarrow> nat \<Rightarrow> (u64 \<times> dest_addresses) option \<Rightarrow> ptr \<Rightarrow> world \<Rightarrow>
     ((u8 list \<times> u8 list) option, world) out" where
  "vtep_dst x v b i entry eth_hdr w =
     obind (get_state st_vtep b w) (\<lambda>st w.
     obind (get_port b i w) (\<lambda>port w.
     case entry of
       Some (mac, da) \<Rightarrow>
         obind (upd_port b i (\<lambda>p. case vp_mac_to_dst p of
             Live ma \<Rightarrow> p\<lparr>vp_mac_to_dst := Live (mac_table_put ma mac (da\<lparr>da_lifetime := vt_tick st\<rparr>))\<rparr>
           | _ \<Rightarrow> p) w) (\<lambda>_ w.
         Ret (Some (da_mac da, da_ip da)) w)
     | None \<Rightarrow>
         obind (if vt_flags st AND PG_VTEP_NO_INNERMAC_CHECK = 0 then do_add_mac x b i (ld48 (deref eth_hdr w) 6) w else Ret True w) (\<lambda>ok w.
         if ok then Ret (Some (pg_multicast_get_dst_addr v (vp_multicast_ip port), vp_multicast_ip port)) w
         else Ret None w)))"

text \<open>The result is \<open>None\<close> for the jump.\<close>

definition vtep_header_prepend ::
    "ext \<Rightarrow> ip_version \<Rightarrow> nat \<Rightarrow> nat \<Rightarrow> nat \<Rightarrow> (u64 \<times> dest_addresses) option \<Rightarrow> world \<Rightarrow> (int option, world) out" where
  "vtep_header_prepend x v b i pkt entry w =
     obind (get_mbuf pkt w) (\<lambda>m w.
     let eth_hdr = (buf_addr m, data_off m); packet_len = word_of_nat (data_len m) in
     obind (let (r, ms) = x_prepend x pkt (HEADER_LENGTH v) (mst w) in Ret r (w\<lparr>mst := ms\<rparr>)) (\<lambda>r w.
     case r of
       None \<Rightarrow>
         obind (get_mbuf pkt w) (\<lambda>m w.
         Ret (Some (-1)) (set_err (pg_error_new ''%s on a packet of %ld/%d''
           [''No enough headroom to add VTEP headers'', nat_str (HEADER_LENGTH v), nat_str (pkt_len m)]) w))
     | Some _ \<Rightarrow>
         obind (get_state st_vtep b w) (\<lambda>st w.
         obind (get_port b i w) (\<lambda>port w.
         obind (vxlan_build pkt (14 + ip_hdr_size v + 8) (vp_vni port) w) (\<lambda>_ w.
         obind (vtep_dst x v b i entry eth_hdr w) (\<lambda>dst w.
         case dst of
           None \<Rightarrow> Ret None w
         | Some (dst_mac, dst_ip) \<Rightarrow>
             obind (ethernet_build v pkt 0 (vt_mac st) dst_mac w) (\<lambda>_ w.
             obind (ip_build v x b pkt 14 (vt_ip st) dst_ip (packet_len + ip_overhead) w) (\<lambda>_ w.
             obind (get_mbuf pkt w) (\<lambda>m w.
             let seed = word_of_nat (buf_addr m) in
             obind (if vt_flags st AND PG_VTEP_FORCE_UPD_IPV6_CHECKSUM \<noteq> 0
                    then udp_build_cksum v x pkt 14 (14 + ip_hdr_size v) (vt_udp_dst_port_be st)
                           (packet_len + udp_overhead) seed w
                    else udp_build pkt (14 + ip_hdr_size v) (vt_udp_dst_port_be st)
                           (packet_len + udp_overhead) seed w) (\<lambda>_ w.
             Ret (Some 0) (upd_mbuf pkt (vtep_meta x v) w)))))))))))"

text \<open>The table entry for the destination of a packet, unless it is a multicast address.\<close>

definition vtep_lookup ::
    "ext \<Rightarrow> nat \<Rightarrow> nat \<Rightarrow> (nat \<Rightarrow> u8) \<Rightarrow> world \<Rightarrow> ((u64 \<times> dest_addresses) option, world) out" where
  "vtep_lookup x b i eth w =
     (if x_is_multicast_ether x (ether_dst eth) then Ret None w
      else
        obind (get_port b i w) (\<lambda>port w.
        obind (mac_mem_get (vp_mac_to_dst port) (ld48 eth 0) w) (\<lambda>da w.
        Ret (map_option (Pair (ld48 eth 0)) da) w)))"

text \<open>One round of \<open>vtep_encapsulate\<close>: \<open>Some None\<close> is the jump, \<open>Some (Some -1)\<close> the return of -1.\<close>

definition vtep_encap_round ::
    "ext \<Rightarrow> ip_version \<Rightarrow> nat \<Rightarrow> nat \<Rightarrow> arr \<Rightarrow> nat \<Rightarrow> world \<Rightarrow> (int option option, world) out" where
  "vtep_encap_round x v b port pkts i w =
     obind (get_state st_vtep b w) (\<lambda>st w.
     obind (get_pkts pkts w) (\<lambda>f w.
     obind (mtod (f i) w) (\<lambda>eth w.
     obind (vtep_lookup x b port eth w) (\<lambda>entry w.
     obind (if vt_flags st AND PG_VTEP_NO_COPY = 0
            then let (r, ms) = x_clone x (f i) (mst w) in Ret r (w\<lparr>mst := ms\<rparr>)
            else Ret (Some (f i)) w) (\<lambda>tmp w.
     case tmp of None \<Rightarrow> Ret (Some (Some (-1))) w
     | Some tmp \<Rightarrow>
         obind (vtep_header_prepend x v b port tmp entry w) (\<lambda>r w.
         case r of
           None \<Rightarrow> Ret (Some None) w
         | Some r \<Rightarrow>
             if r < 0 then
               obind (Ret () (if vt_flags st AND PG_VTEP_NO_COPY = 0 then w\<lparr>mst := x_free x tmp (mst w)\<rparr> else w)) (\<lambda>_ w.
               Ret (Some (Some (-1))) w)
             else obind (set_pkt (vtep_pkts b) i tmp w) (\<lambda>_ w. Ret None w)))))))"

definition vtep_encapsulate ::
    "ext \<Rightarrow> ip_version \<Rightarrow> nat \<Rightarrow> nat \<Rightarrow> arr \<Rightarrow> u64 \<Rightarrow> world \<Rightarrow> (int option, world) out" where
  "vtep_encapsulate x v b port pkts pkts_mask w =
     obind (oloop (vtep_encap_round x v b port pkts) (pg_foreach_bit pkts_mask) w) (\<lambda>r w.
     Ret (case r of None \<Rightarrow> Some 0 | Some r \<Rightarrow> r) w)"

text \<open>\<open>try_fix_tables\<close>, for one table and for both.\<close>

definition try_fix_tables :: "ext \<Rightarrow> nat \<Rightarrow> nat \<Rightarrow> world \<Rightarrow> (int, world) out" where
  "try_fix_tables x b i w =
     obind (get_port b i w) (\<lambda>port w.
     obind (if vp_dead_tables port AND IS_MAC_TO_DST_DEAD \<noteq> 0 then
              obind (mac_mem_init x w) (\<lambda>t w.
              case t of None \<Rightarrow> Ret False (set_err (pg_error_new_errno ENOMEM ''out of memory'' []) w)
              | Some t \<Rightarrow>
                  obind (upd_port b i (\<lambda>p. p\<lparr>vp_mac_to_dst := t,
                    vp_dead_tables := vp_dead_tables p XOR IS_MAC_TO_DST_DEAD\<rparr>) w) (\<lambda>_ w. Ret True w))
            else Ret True w) (\<lambda>ok w.
     if \<not> ok then Ret (-1) w
     else if vp_dead_tables port AND IS_KNOWN_MAC_DEAD \<noteq> 0 then
       obind (mac_mem_init x w) (\<lambda>t w.
       case t of None \<Rightarrow> Ret (-1) (set_err (pg_error_new_errno ENOMEM ''out of memory'' []) w)
       | Some t \<Rightarrow>
           obind (upd_port b i (\<lambda>p. p\<lparr>vp_known_mac := t,
             vp_dead_tables := vp_dead_tables p XOR IS_KNOWN_MAC_DEAD\<rparr>) w) (\<lambda>_ w. Ret 0 w))
     else Ret 0 w))"

definition fix_dead_tables :: "ext \<Rightarrow> nat \<Rightarrow> nat \<Rightarrow> world \<Rightarrow> (int, world) out" where
  "fix_dead_tables x b i w =
     obind (get_port b i w) (\<lambda>port w.
       if are_mac_tables_dead port then try_fix_tables x b i w else Ret 0 w)"

definition vtep_free_copies :: "ext \<Rightarrow> nat \<Rightarrow> u64 \<Rightarrow> world \<Rightarrow> (unit, world) out" where
  "vtep_free_copies x b pkts_mask w =
     obind (get_state st_vtep b w) (\<lambda>st w.
       if vt_flags st AND PG_VTEP_NO_COPY = 0 then pg_packets_free x (vtep_pkts b) pkts_mask w else Ret () w)"

text \<open>
  Where a jump out of \<open>to_vtep\<close> goes. It can only start in \<open>do_add_mac\<close>, which is called under
  the condition under which \<open>to_vtep\<close> calls \<open>setjmp\<close>.
\<close>

definition to_vtep_exception :: "ext \<Rightarrow> nat \<Rightarrow> nat \<Rightarrow> u64 \<Rightarrow> world \<Rightarrow> (int, world) out" where
  "to_vtep_exception x b edge_index pkts_mask w =
     obind (upd_port b edge_index (\<lambda>p. p\<lparr>vp_dead_tables := IS_KNOWN_MAC_DEAD OR HAS_BEEN_BROKEN\<rparr>) w) (\<lambda>_ w.
     obind (free_known_mac b edge_index w) (\<lambda>_ w.
     obind (vtep_free_copies x b pkts_mask w) (\<lambda>_ w.
     Ret (-1) (set_err (pg_error_new_errno ENOMEM ''not enouth space to add mac'' []) w))))"

definition to_vtep ::
    "ext \<Rightarrow> ip_version \<Rightarrow> burster \<Rightarrow> nat \<Rightarrow> pg_side \<Rightarrow> nat \<Rightarrow> arr \<Rightarrow> u64 \<Rightarrow> world \<Rightarrow> (int, world) out" where
  "to_vtep x v brst b from edge_index pkts pkts_mask w =
     obind (fix_dead_tables x b edge_index w) (\<lambda>r w.
     if r < 0 then Ret (-1) w
     else
       obind (get_port b edge_index w) (\<lambda>port w.
       if \<not> pg_is_multicast_ip v (vp_multicast_ip port) then Ret 0 w
       else
         obind (vtep_encapsulate x v b edge_index pkts pkts_mask w) (\<lambda>r w.
         case r of
           None \<Rightarrow> to_vtep_exception x b edge_index pkts_mask w
         | Some r \<Rightarrow>
             if r < 0 then Ret (-1) w
             else
               obind (pg_brick_side_forward brst b (pg_flip_side from) from (vtep_pkts b) pkts_mask w) (\<lambda>ret w.
               obind (vtep_free_copies x b pkts_mask w) (\<lambda>_ w.
               Ret ret w)))))"

section \<open>Decapsulation\<close>

text \<open>One round of \<open>add_dst_iner_macs\<close>; \<open>False\<close> is the jump.\<close>

definition learn_dst ::
    "ext \<Rightarrow> ip_version \<Rightarrow> nat \<Rightarrow> nat \<Rightarrow> arr \<Rightarrow> (nat \<Rightarrow> ptr) \<Rightarrow> (nat \<Rightarrow> ptr) \<Rightarrow> nat \<Rightarrow> world \<Rightarrow> (unit option, world) out" where
  "learn_dst x v b port pkts eths hdrs i w =
     obind (get_state st_vtep b w) (\<lambda>st w.
     obind (get_pkts pkts w) (\<lambda>f w.
     obind (mtod (f i) w) (\<lambda>pkt_addr w.
     let dst = \<lparr>da_mac = bytes_at (deref (eths i) w) 0 6,
                da_ip = bytes_at (deref (hdrs i) w) (ip_src_off v) (ip_size v), da_lifetime = vt_tick st\<rparr> in
     obind (set_mac_to_dst x b port (ld48 pkt_addr 6) dst w) (\<lambda>ok w.
     Ret (if ok then None else Some ()) w))))"

definition add_dst_iner_macs ::
    "ext \<Rightarrow> ip_version \<Rightarrow> nat \<Rightarrow> nat \<Rightarrow> arr \<Rightarrow> (nat \<Rightarrow> ptr) \<Rightarrow> (nat \<Rightarrow> ptr) \<Rightarrow> u64 \<Rightarrow> world \<Rightarrow> (bool, world) out" where
  "add_dst_iner_macs x v b port pkts eths hdrs vni_mask w =
     obind (oloop (learn_dst x v b port pkts eths hdrs) (pg_foreach_bit vni_mask) w) (\<lambda>r w. Ret (r = None) w)"

text \<open>
  \<open>check_udp_checksum\<close> on the headers at the offset \<open>off\<close> from the data of the packet \<open>p\<close>. It
  leaves the checksum fields zero.
\<close>

definition check_udp_checksum :: "ext \<Rightarrow> ip_version \<Rightarrow> nat \<Rightarrow> nat \<Rightarrow> world \<Rightarrow> (bool, world) out" where
  "check_udp_checksum x v p off w =
     obind (mtod p w) (\<lambda>data w.
     let cksum = ld16 data (off + ip_hdr_size v + 6) in
     obind (if v = IPV4 then put_bytes p (off + 10) [0, 0] w else Ret () w) (\<lambda>_ w.
     obind (put_bytes p (off + ip_hdr_size v + 6) [0, 0] w) (\<lambda>_ w.
     obind (mtod p w) (\<lambda>data w.
     Ret ((case v of IPV4 \<Rightarrow> x_udptcp_cksum (x_eth x) data off (off + ip_hdr_size v)
                   | IPV6 \<Rightarrow> x_udptcp6_cksum (x_eth x) data off (off + ip_hdr_size v)) = cksum) w))))"

text \<open>The fields by which a packet is recognised as one for this endpoint.\<close>

definition is_vxlan :: "ip_version \<Rightarrow> u16 \<Rightarrow> (nat \<Rightarrow> u8) \<Rightarrow> bool" where
  "is_vxlan v udp_dst_port_be hdr \<longleftrightarrow>
     hdr (ip_proto_off v) = 17 \<and> ld16 hdr (ip_hdr_size v + 2) = udp_dst_port_be \<and>
     ld32 hdr (ip_hdr_size v + 8) = PG_VTEP_BE_I_FLAG"

definition vx_vni :: "ip_version \<Rightarrow> (nat \<Rightarrow> u8) \<Rightarrow> u32" where
  "vx_vni v hdr = ld32 hdr (ip_hdr_size v + 12)"

record classified =
  cl_eths :: "nat \<Rightarrow> ptr"
  cl_hdrs :: "nat \<Rightarrow> ptr"
  cl_multicast :: u64
  cl_computed :: u64

definition classify_pkt ::
    "ext \<Rightarrow> ip_version \<Rightarrow> u16 \<Rightarrow> arr \<Rightarrow> nat \<Rightarrow> classified \<Rightarrow> world \<Rightarrow> (classified, world) out" where
  "classify_pkt x v udp_dst_port_be pkts i cl w =
     obind (get_pkts pkts w) (\<lambda>f w.
     obind (get_mbuf (f i) w) (\<lambda>m w.
     let hdr = (buf_addr m, data_off m + l2_len m);
         cl = cl\<lparr>cl_eths := (cl_eths cl)(i := (buf_addr m, data_off m + 6)), cl_hdrs := (cl_hdrs cl)(i := hdr)\<rparr> in
     if \<not> is_vxlan v udp_dst_port_be (deref hdr w) then Ret cl w
     else
       obind (if ld16 (deref hdr w) (ip_hdr_size v + 6) \<noteq> 0 then
                obind (check_udp_checksum x v (f i) (l2_len m) w) (\<lambda>ok w.
                obind (Ret () (if ok then upd_mbuf (f i) (\<lambda>m. m\<lparr>ol_flags := ol_flags m OR
                    PKT_TX_UDP_CKSUM (x_eth x) OR PKT_TX_TCP_CKSUM (x_eth x)\<rparr>) w else w)) (\<lambda>_ w.
                Ret ok w))
              else Ret True w) (\<lambda>ok w.
       if \<not> ok then Ret cl w
       else
         Ret (cl\<lparr>cl_multicast := (if pg_is_multicast_ip v (bytes_at (deref hdr w) (ip_dst_off v) (ip_size v))
                                  then cl_multicast cl OR push_bit i 1 else cl_multicast cl),
                 cl_computed := cl_computed cl OR push_bit i 1\<rparr>) w)))"

definition classify_pkts ::
    "ext \<Rightarrow> ip_version \<Rightarrow> u16 \<Rightarrow> arr \<Rightarrow> u64 \<Rightarrow> world \<Rightarrow> (classified, world) out" where
  "classify_pkts x v udp_dst_port_be pkts pkts_mask w =
     oacc (classify_pkt x v udp_dst_port_be pkts) (pg_foreach_bit pkts_mask)
       \<lparr>cl_eths = (\<lambda>_. (0, 0)), cl_hdrs = (\<lambda>_. (0, 0)), cl_multicast = 0, cl_computed = 0\<rparr> w"

definition vtep_adj :: "ext \<Rightarrow> ip_version \<Rightarrow> nat \<Rightarrow> world \<Rightarrow> (bool, world) out" where
  "vtep_adj x v p w =
     obind (get_mbuf p w) (\<lambda>m w.
       let (ok, ms) = x_adj x p (l2_len m + headers_size v) (mst w) in Ret ok (w\<lparr>mst := ms\<rparr>))"

text \<open>The loop of \<open>check_and_clone_vni_pkts\<close>; \<open>return 0\<close> in its body gives the mask 0.\<close>

primrec clone_vni_loop ::
    "ext \<Rightarrow> ip_version \<Rightarrow> nat \<Rightarrow> u32 \<Rightarrow> arr \<Rightarrow> (nat \<Rightarrow> ptr) \<Rightarrow> nat list \<Rightarrow> u64 \<Rightarrow> world \<Rightarrow> (u64, world) out" where
  "clone_vni_loop x v b vni pkts hdrs [] vni_mask w = Ret vni_mask w"
| "clone_vni_loop x v b vni pkts hdrs (j # js) vni_mask w =
     (if vx_vni v (deref (hdrs j) w) \<noteq> vni then clone_vni_loop x v b vni pkts hdrs js vni_mask w
      else
        obind (get_state st_vtep b w) (\<lambda>st w.
        obind (get_pkts pkts w) (\<lambda>f w.
        obind (if vt_flags st AND PG_VTEP_NO_COPY = 0
               then let (r, ms) = x_clone x (f j) (mst w) in Ret r (w\<lparr>mst := ms\<rparr>)
               else Ret (Some (f j)) w) (\<lambda>tmp w.
        case tmp of None \<Rightarrow> Ret 0 w
        | Some tmp \<Rightarrow>
            obind (set_pkt (vtep_pkts b) j tmp w) (\<lambda>_ w.
            obind (vtep_adj x v tmp w) (\<lambda>ok w.
            if \<not> ok then Ret 0 w
            else clone_vni_loop x v b vni pkts hdrs js (vni_mask OR push_bit j 1) w))))))"

definition check_and_clone_vni_pkts ::
    "ext \<Rightarrow> ip_version \<Rightarrow> nat \<Rightarrow> u32 \<Rightarrow> arr \<Rightarrow> (nat \<Rightarrow> ptr) \<Rightarrow> u64 \<Rightarrow> world \<Rightarrow> (u64, world) out" where
  "check_and_clone_vni_pkts x v b vni pkts hdrs pkts_mask w =
     clone_vni_loop x v b vni pkts hdrs (pg_foreach_bit pkts_mask) 0 w"

definition restore_packet :: "ext \<Rightarrow> arr \<Rightarrow> nat \<Rightarrow> world \<Rightarrow> (unit, world) out" where
  "restore_packet x pkts i w =
     obind (get_pkts pkts w) (\<lambda>f w.
     obind (pg_utils_guess_l2 x (f i) w) (\<lambda>_ w.
     obind (pg_utils_get_ether_type (f i) w) (\<lambda>eth_type w.
     if eth_type = PG_BE_ETHER_TYPE_IPv4 then Ret () (upd_mbuf (f i) (\<lambda>m. m\<lparr>l3_len := 20\<rparr>) w)
     else if eth_type = PG_BE_ETHER_TYPE_IPv6 then
       obind (pg_utils_get_ipv6_l3_len (f i) w) (\<lambda>len w.
       Ret () (upd_mbuf (f i) (\<lambda>m. m\<lparr>l3_len := nat len mod 512\<rparr>) w))
     else Ret () w)))"

definition restore_metadata :: "ext \<Rightarrow> arr \<Rightarrow> u64 \<Rightarrow> world \<Rightarrow> (unit, world) out" where
  "restore_metadata x pkts vni_mask w = ofold (restore_packet x pkts) (pg_foreach_bit vni_mask) w"

text \<open>The packets of a port whose inner destination is a known address of the port.\<close>

definition vtep_hit :: "nat \<Rightarrow> nat \<Rightarrow> nat \<Rightarrow> u64 \<Rightarrow> world \<Rightarrow> (u64, world) out" where
  "vtep_hit b port i hitted_mask w =
     obind (get_pkts (vtep_pkts b) w) (\<lambda>f w.
     obind (mtod (f i) w) (\<lambda>eth w.
     obind (get_port b port w) (\<lambda>p w.
     obind (mac_mem_get (vp_known_mac p) (ld48 eth 0) w) (\<lambda>entry w.
     Ret (if entry \<noteq> None then hitted_mask OR push_bit i 1 else hitted_mask) w))))"

text \<open>
  Sending to port \<open>i\<close>, which both variants of the decapsulation do: the edge index they pass is
  the index of their own port.
\<close>

definition vtep_to_port :: "burster \<Rightarrow> nat \<Rightarrow> pg_side \<Rightarrow> nat \<Rightarrow> arr \<Rightarrow> u64 \<Rightarrow> world \<Rightarrow> (int, world) out" where
  "vtep_to_port brst b from i pkts pkts_mask w =
     obind (get_brick b w) (\<lambda>br w.
       if length (edges (sides br (pg_flip_side from))) \<le> i then Abort ''edge out of range''
       else brst (link (edges (sides br (pg_flip_side from)) ! i)) from i pkts pkts_mask w)"

text \<open>The loops over the ports; \<open>None\<close> is the jump.\<close>

primrec decap_loop ::
    "ext \<Rightarrow> ip_version \<Rightarrow> burster \<Rightarrow> nat \<Rightarrow> pg_side \<Rightarrow> arr \<Rightarrow> classified \<Rightarrow> nat list \<Rightarrow> u64 \<Rightarrow> world \<Rightarrow>
     (int option, world) out" where
  "decap_loop x v brst b from pkts cl [] pkts_mask w = Ret (Some 0) w"
| "decap_loop x v brst b from pkts cl (i # is) pkts_mask w =
     (if pkts_mask = 0 then Ret (Some 0) w
      else
        obind (fix_dead_tables x b i w) (\<lambda>r w.
        if r < 0 then Ret (Some (-1)) w
        else
          obind (get_port b i w) (\<lambda>port w.
          obind (check_and_clone_vni_pkts x v b (vp_vni port) pkts (cl_hdrs cl) pkts_mask w) (\<lambda>vni_mask w.
          if vni_mask = 0 then decap_loop x v brst b from pkts cl is pkts_mask w
          else
            obind (get_state st_vtep b w) (\<lambda>st w.
            obind (if vt_flags st AND PG_VTEP_NO_INNERMAC_CHECK \<noteq> 0 then Ret vni_mask w
                   else oacc (vtep_hit b i) (pg_foreach_bit vni_mask) 0 w) (\<lambda>hitted_mask w.
            obind (if hitted_mask = 0 then Ret (Some 0) w
                   else
                     obind (add_dst_iner_macs x v b i (vtep_pkts b) (cl_eths cl) (cl_hdrs cl) hitted_mask w) (\<lambda>ok w.
                     if \<not> ok then Ret None w
                     else
                       obind (restore_metadata x (vtep_pkts b) hitted_mask w) (\<lambda>_ w.
                       obind (vtep_to_port brst b from i (vtep_pkts b) hitted_mask w) (\<lambda>r w. Ret (Some r) w)))) (\<lambda>r w.
            case r of
              None \<Rightarrow> Ret None w
            | Some r \<Rightarrow>
                obind (vtep_free_copies x b vni_mask w) (\<lambda>_ w.
                if r < 0 then Ret (Some (-1)) w
                else decap_loop x v brst b from pkts cl is (pkts_mask XOR vni_mask) w))))))))"

definition decapsulate ::
    "ext \<Rightarrow> ip_version \<Rightarrow> burster \<Rightarrow> nat \<Rightarrow> pg_side \<Rightarrow> arr \<Rightarrow> u64 \<Rightarrow> world \<Rightarrow> (int option, world) out" where
  "decapsulate x v brst b from pkts pkts_mask w =
     obind (get_state st_vtep b w) (\<lambda>st w.
     obind (classify_pkts x v (vt_udp_dst_port_be st) pkts pkts_mask w) (\<lambda>cl w.
     obind (get_brick b w) (\<lambda>br w.
     decap_loop x v brst b from pkts cl [0..<side_nb (sides br (pg_flip_side from))] (cl_computed cl) w)))"

definition check_vni_round ::
    "ext \<Rightarrow> ip_version \<Rightarrow> u32 \<Rightarrow> arr \<Rightarrow> (nat \<Rightarrow> ptr) \<Rightarrow> nat \<Rightarrow> u64 \<Rightarrow> world \<Rightarrow> (u64, world) out" where
  "check_vni_round x v vni pkts hdrs j vni_mask w =
     (if vx_vni v (deref (hdrs j) w) \<noteq> vni then Ret vni_mask w
      else
        obind (get_pkts pkts w) (\<lambda>f w.
        obind (vtep_adj x v (f j) w) (\<lambda>_ w. Ret (vni_mask OR push_bit j 1) w)))"

definition check_vni_pkts ::
    "ext \<Rightarrow> ip_version \<Rightarrow> u32 \<Rightarrow> arr \<Rightarrow> (nat \<Rightarrow> ptr) \<Rightarrow> u64 \<Rightarrow> world \<Rightarrow> (u64, world) out" where
  "check_vni_pkts x v vni pkts hdrs pkts_mask w =
     oacc (check_vni_round x v vni pkts hdrs) (pg_foreach_bit pkts_mask) 0 w"

primrec decap_simple_loop ::
    "ext \<Rightarrow> ip_version \<Rightarrow> burster \<Rightarrow> nat \<Rightarrow> pg_side \<Rightarrow> arr \<Rightarrow> classified \<Rightarrow> nat list \<Rightarrow> u64 \<Rightarrow> world \<Rightarrow>
     (int option, world) out" where
  "decap_simple_loop x v brst b from pkts cl [] pkts_mask w = Ret (Some 0) w"
| "decap_simple_loop x v brst b from pkts cl (i # is) pkts_mask w =
     (if pkts_mask = 0 then Ret (Some 0) w
      else
        obind (fix_dead_tables x b i w) (\<lambda>r w.
        if r < 0 then Ret (Some (-1)) w
        else
          obind (get_port b i w) (\<lambda>port w.
          obind (check_vni_pkts x v (vp_vni port) pkts (cl_hdrs cl) pkts_mask w) (\<lambda>vni_mask w.
          if vni_mask = 0 then decap_simple_loop x v brst b from pkts cl is pkts_mask w
          else
            obind (add_dst_iner_macs x v b i pkts (cl_eths cl) (cl_hdrs cl) vni_mask w) (\<lambda>ok w.
            if \<not> ok then Ret None w
            else
              obind (restore_metadata x pkts vni_mask w) (\<lambda>_ w.
              obind (vtep_to_port brst b from i pkts vni_mask w) (\<lambda>r w.
              if r < 0 then Ret (Some (-1)) w
              else decap_simple_loop x v brst b from pkts cl is (pkts_mask XOR vni_mask) w)))))))"

definition decapsulate_simple ::
    "ext \<Rightarrow> ip_version \<Rightarrow> burster \<Rightarrow> nat \<Rightarrow> pg_side \<Rightarrow> arr \<Rightarrow> u64 \<Rightarrow> world \<Rightarrow> (int option, world) out" where
  "decapsulate_simple x v brst b from pkts pkts_mask w =
     obind (get_state st_vtep b w) (\<lambda>st w.
     obind (classify_pkts x v (vt_udp_dst_port_be st) pkts pkts_mask w) (\<lambda>cl w.
     obind (get_brick b w) (\<lambda>br w.
     decap_simple_loop x v brst b from pkts cl [0..<side_nb (sides br (pg_flip_side from))] (cl_computed cl) w)))"

text \<open>Where a jump out of \<open>from_vtep\<close> goes: the destinations of all linked ports are given up.\<close>

definition from_vtep_exception :: "nat \<Rightarrow> pg_side \<Rightarrow> world \<Rightarrow> (int, world) out" where
  "from_vtep_exception b from w =
     obind (get_brick b w) (\<lambda>br w.
     obind (ofold (\<lambda>i w.
         obind (upd_port b i (\<lambda>p. p\<lparr>vp_dead_tables := IS_MAC_TO_DST_DEAD OR HAS_BEEN_BROKEN\<rparr>) w) (\<lambda>_ w.
         free_mac_to_dst b i w)) [0..<side_nb (sides br (pg_flip_side from))] w) (\<lambda>_ w.
     Ret (-1) (set_err (pg_error_new_errno ENOMEM ''not enouth space to add mac'' []) w)))"

definition from_vtep ::
    "ext \<Rightarrow> ip_version \<Rightarrow> burster \<Rightarrow> nat \<Rightarrow> pg_side \<Rightarrow> nat \<Rightarrow> arr \<Rightarrow> u64 \<Rightarrow> world \<Rightarrow> (int, world) out" where
  "from_vtep x v brst b from edge_index pkts pkts_mask w =
     obind (get_state st_vtep b w) (\<lambda>st w.
     obind (if vt_flags st = PG_VTEP_ALL_OPTI then decapsulate_simple x v brst b from pkts pkts_mask w
            else decapsulate x v brst b from pkts pkts_mask w) (\<lambda>r w.
     case r of None \<Rightarrow> from_vtep_exception b from w | Some r \<Rightarrow> Ret r w))"

definition vtep_burst ::
    "ip_version \<Rightarrow> ext \<Rightarrow> burster \<Rightarrow> nat \<Rightarrow> pg_side \<Rightarrow> nat \<Rightarrow> arr \<Rightarrow> u64 \<Rightarrow> world \<Rightarrow> (int, world) out" where
  "vtep_burst v x brst b from edge_index pkts pkts_mask w =
     obind (upd_vtep b (\<lambda>st. st\<lparr>vt_tick := vt_tick st + 1\<rparr>) w) (\<lambda>_ w.
     obind (get_state st_vtep b w) (\<lambda>st w.
     if from = vt_output st then from_vtep x v brst b from edge_index pkts pkts_mask w
     else to_vtep x v brst b from edge_index pkts pkts_mask w))"

section \<open>Multicast groups\<close>

definition IGMP_PROTOCOL_NUMBER :: u8 where "IGMP_PROTOCOL_NUMBER = 2"
definition ICMPV6_PROTOCOL_NUMBER :: u8 where "ICMPV6_PROTOCOL_NUMBER = 58"

datatype operation = MLD_SUBSCRIBE | MLD_UNSUBSCRIBE | IGMP_SUBSCRIBE | IGMP_UNSUBSCRIBE

fun operation_code :: "operation \<Rightarrow> u8" where
  "operation_code MLD_SUBSCRIBE = 131"
| "operation_code MLD_UNSUBSCRIBE = 132"
| "operation_code IGMP_SUBSCRIBE = 0x16"
| "operation_code IGMP_UNSUBSCRIBE = 0x17"

definition rte_raw_cksum :: "ext \<Rightarrow> u8 list \<Rightarrow> u16" where
  "rte_raw_cksum x bs = x_raw_cksum_reduce x (x_raw_cksum x bs 0)"

definition igmp_checksum :: "ext \<Rightarrow> u8 list \<Rightarrow> u16" where
  "igmp_checksum x msg = NOT (rte_raw_cksum x msg)"

text \<open>The IPv4 header with its router alert option, and the IGMP message, for a checksum.\<close>

definition igmp_ip_bytes :: "u8 list \<Rightarrow> u8 list \<Rightarrow> u16 \<Rightarrow> u8 list" where
  "igmp_ip_bytes src dst cksum =
     [0x46, 0] @ be16 (20 + 4 + 8) @ [0, 0, 0, 0, 1, IGMP_PROTOCOL_NUMBER] @ le16 cksum @ src @ dst @
     [0x94, 4, 0, 0]"

definition igmp_bytes :: "operation \<Rightarrow> u8 list \<Rightarrow> u16 \<Rightarrow> u8 list" where
  "igmp_bytes action group_addr cksum = [operation_code action, 0] @ le16 cksum @ group_addr"

definition igmp_pkt :: "ext \<Rightarrow> vtep_state \<Rightarrow> u8 list \<Rightarrow> operation \<Rightarrow> u8 list \<Rightarrow> u8 list" where
  "igmp_pkt x st multicast_ip action dst_ip =
     pg_multicast_get_dst_addr IPV4 multicast_ip @ vt_mac st @ le16 PG_BE_ETHER_TYPE_IPv4 @
     igmp_ip_bytes (vt_ip st) dst_ip (NOT (rte_raw_cksum x (igmp_ip_bytes (vt_ip st) dst_ip 0))) @
     igmp_bytes action multicast_ip (igmp_checksum x (igmp_bytes action multicast_ip 0))"

definition send_report ::
    "ext \<Rightarrow> burster \<Rightarrow> nat \<Rightarrow> pg_side \<Rightarrow> nat \<Rightarrow> world \<Rightarrow> (unit, world) out" where
  "send_report x brst b output pkt w =
     obind (new_array w) (\<lambda>pkts w.
     obind (set_pkt pkts 0 pkt w) (\<lambda>_ w.
     obind (pg_brick_side_forward brst b output (pg_flip_side output) pkts 1 w) (\<lambda>_ w.
     obind (get_pkts pkts w) (\<lambda>f w.
     Ret () (w\<lparr>mst := x_free x (f 0) (mst w)\<rparr>)))))"

definition multicast4_internal ::
    "ext \<Rightarrow> burster \<Rightarrow> nat \<Rightarrow> u8 list \<Rightarrow> operation \<Rightarrow> world \<Rightarrow> (unit, world) out" where
  "multicast4_internal x brst b multicast_ip action w =
     obind (get_state st_vtep b w) (\<lambda>st w.
     if \<not> pg_is_multicast_ip IPV4 multicast_ip then
       Ret () (set_err (pg_error_new ''invalid multicast address %s'' [x_inet_ntop (x_os x) multicast_ip]) w)
     else
       obind (let (r, ms) = x_alloc x (mst w) in Ret r (w\<lparr>mst := ms\<rparr>)) (\<lambda>r w.
       case r of
         None \<Rightarrow> Ret () (set_err (pg_error_new ''packet allocation failed'' []) w)
       | Some pkt \<Rightarrow>
           obind (let (r, ms) = x_append x pkt 46 (mst w) in Ret r (w\<lparr>mst := ms\<rparr>)) (\<lambda>off w.
           case off of
             None \<Rightarrow> Ret () (set_err (pg_error_new ''rte_pktmbuf_append fail'' []) w)
           | Some off \<Rightarrow>
               (case action of
                  IGMP_SUBSCRIBE \<Rightarrow>
                    obind (write_bytes pkt off (igmp_pkt x st multicast_ip action multicast_ip) w) (\<lambda>_ w.
                    send_report x brst b (vt_output st) pkt w)
                | IGMP_UNSUBSCRIBE \<Rightarrow>
                    obind (write_bytes pkt off (igmp_pkt x st multicast_ip action [224, 0, 0, 2]) w) (\<lambda>_ w.
                    send_report x brst b (vt_output st) pkt w)
                | _ \<Rightarrow> 
                    obind (Ret () (set_err (pg_error_new ''action not handle'' []) w)) (\<lambda>_ w.
                    Ret () (w\<lparr>mst := x_free x pkt (mst w)\<rparr>))))))"

text \<open>
  The report of IPv6. The destination of the header is what \<open>inet_pton\<close> makes of the literal;
  where that fails the field keeps what was in the buffer.
\<close>

definition mld_dst :: "ext \<Rightarrow> operation \<Rightarrow> (u8 list option) option" where
  "mld_dst x action =
     (case action of
        MLD_SUBSCRIBE \<Rightarrow> Some (x_inet_pton6 (x_os x) ''ff02::2'')
      | MLD_UNSUBSCRIBE \<Rightarrow> Some (x_inet_pton6 (x_os x) ''ff02::1'')
      | _ \<Rightarrow> None)"

definition multicast6_internal ::
    "ext \<Rightarrow> burster \<Rightarrow> nat \<Rightarrow> u8 list \<Rightarrow> operation \<Rightarrow> world \<Rightarrow> (unit, world) out" where
  "multicast6_internal x brst b multicast_ip action w =
     obind (get_state st_vtep b w) (\<lambda>st w.
     if \<not> pg_is_multicast_ip IPV6 multicast_ip then
       Ret () (set_err (pg_error_new ''invalid multicast address %s'' [x_inet_ntop (x_os x) multicast_ip]) w)
     else
       obind (let (r, ms) = x_alloc x (mst w) in Ret r (w\<lparr>mst := ms\<rparr>)) (\<lambda>r w.
       case r of
         None \<Rightarrow> Ret () (set_err (pg_error_new ''packet allocation failed'' []) w)
       | Some pkt \<Rightarrow>
           obind (let (r, ms) = x_append x pkt 82 (mst w) in Ret r (w\<lparr>mst := ms\<rparr>)) (\<lambda>off w.
           case off of
             None \<Rightarrow> Abort ''null pointer''
           | Some off \<Rightarrow>
               obind (write_bytes pkt off (pg_multicast_get_dst_addr IPV6 multicast_ip @ vt_mac st @
                 be16 ETHER_TYPE_IPv6 @ le32 (PG_CPU_TO_BE_32 0x60000000) @ be16 68 @
                 [ICMPV6_PROTOCOL_NUMBER, 0xff] @ vt_ip st) w) (\<lambda>_ w.
               case mld_dst x action of
                 None \<Rightarrow> 
                   obind (Ret () (set_err (pg_error_new ''action not handle'' []) w)) (\<lambda>_ w.
                   Ret () (w\<lparr>mst := x_free x pkt (mst w)\<rparr>))
               | Some dst \<Rightarrow>
                   obind (case dst of None \<Rightarrow> Ret () w | Some ip \<Rightarrow> write_bytes pkt (off + 38) ip w) (\<lambda>_ w.
                   obind (write_bytes pkt (off + 54)
                     ([operation_code action, 0, 0, 0] @ replicate 8 0 @ multicast_ip) w) (\<lambda>_ w.
                   send_report x brst b (vt_output st) pkt w))))))"

fun multicast_subscribe ::
    "ip_version \<Rightarrow> ext \<Rightarrow> burster \<Rightarrow> nat \<Rightarrow> u8 list \<Rightarrow> world \<Rightarrow> (unit, world) out" where
  "multicast_subscribe IPV4 x brst b ip w = multicast4_internal x brst b ip IGMP_SUBSCRIBE w"
| "multicast_subscribe IPV6 x brst b ip w = multicast6_internal x brst b ip MLD_SUBSCRIBE w"

fun multicast_unsubscribe ::
    "ip_version \<Rightarrow> ext \<Rightarrow> burster \<Rightarrow> nat \<Rightarrow> u8 list \<Rightarrow> world \<Rightarrow> (unit, world) out" where
  "multicast_unsubscribe IPV4 x brst b ip w = multicast4_internal x brst b ip IGMP_UNSUBSCRIBE w"
| "multicast_unsubscribe IPV6 x brst b ip w = multicast6_internal x brst b ip MLD_UNSUBSCRIBE w"

section \<open>Ports, set-up and the brick\<close>

definition zero_port :: "ip_version \<Rightarrow> vtep_port" where
  "zero_port v = \<lparr>vp_vni = 0, vp_multicast_ip = replicate (ip_size v) 0, vp_mac_to_dst = Zeroed,
     vp_known_mac = Zeroed, vp_dead_tables = 0\<rparr>"

definition is_vni_valid :: "u32 \<Rightarrow> bool" where
  "is_vni_valid vni \<longleftrightarrow> vni < 16777216"

text \<open>A failed allocation fails the assertion around \<open>pg_mac_table_init\<close>.\<close>

definition assert_init :: "ext \<Rightarrow> world \<Rightarrow> ('v mac_mem, world) out" where
  "assert_init x w =
     obind (mac_mem_init x w) (\<lambda>t w. case t of None \<Rightarrow> Abort ''assertion failed'' | Some t \<Rightarrow> Ret t w)"

definition do_add_vni ::
    "ip_version \<Rightarrow> ext \<Rightarrow> burster \<Rightarrow> nat \<Rightarrow> nat \<Rightarrow> u32 \<Rightarrow> u8 list \<Rightarrow> world \<Rightarrow> (int, world) out" where
  "do_add_vni v x brst b edge_index vni multicast_ip w =
     obind (get_port b edge_index w) (\<lambda>port w.
     if vp_vni port \<noteq> 0 then Ret (-1) (set_err (pg_error_new ''port already attached to a vni'' []) w)
     else if pg_is_multicast_ip v (vp_multicast_ip port) then
       Ret (-1) (set_err (pg_error_new ''port alread have a mutlicast IP'' []) w)
     else
       obind (upd_port b edge_index (\<lambda>p. p\<lparr>vp_vni := PG_CPU_TO_BE_32 (push_bit 8 vni),
         vp_multicast_ip := multicast_ip\<rparr>) w) (\<lambda>_ w.
       obind (assert_init x w) (\<lambda>t w.
       obind (upd_port b edge_index (\<lambda>p. p\<lparr>vp_mac_to_dst := t\<rparr>) w) (\<lambda>_ w.
       obind (assert_init x w) (\<lambda>t w.
       obind (upd_port b edge_index (\<lambda>p. p\<lparr>vp_known_mac := t\<rparr>) w) (\<lambda>_ w.
       obind (multicast_subscribe v x brst b multicast_ip w) (\<lambda>_ w.
       Ret 0 w)))))))"

definition do_remove_vni ::
    "ip_version \<Rightarrow> ext \<Rightarrow> burster \<Rightarrow> nat \<Rightarrow> nat \<Rightarrow> world \<Rightarrow> (unit, world) out" where
  "do_remove_vni v x brst b edge_index w =
     obind (get_port b edge_index w) (\<lambda>port w.
     if \<not> pg_is_multicast_ip v (vp_multicast_ip port) then Ret () w
     else
       obind (multicast_unsubscribe v x brst b (vp_multicast_ip port) w) (\<lambda>_ w.
       if pg_error_is_set w then Ret () w
       else
         obind (get_port b edge_index w) (\<lambda>port w.
         obind (if vp_dead_tables port AND IS_KNOWN_MAC_DEAD = 0 then free_known_mac b edge_index w else Ret () w) (\<lambda>_ w.
         obind (if vp_dead_tables port AND IS_MAC_TO_DST_DEAD = 0 then free_mac_to_dst b edge_index w else Ret () w) (\<lambda>_ w.
         upd_port b edge_index (\<lambda>_. zero_port v) w)))))"

definition vtep_unlink_notify ::
    "ip_version \<Rightarrow> ext \<Rightarrow> burster \<Rightarrow> nat \<Rightarrow> pg_side \<Rightarrow> nat \<Rightarrow> world \<Rightarrow> (unit, world) out" where
  "vtep_unlink_notify v x brst b side edge_index w =
     obind (get_state st_vtep b w) (\<lambda>st w.
       if side = vt_output st then Ret () w else do_remove_vni v x brst b edge_index w)"

definition vtep_destroy :: "nat \<Rightarrow> world \<Rightarrow> (unit, world) out" where
  "vtep_destroy b w =
     obind (get_state st_vtep b w) (\<lambda>st w.
     obind (get_brick b w) (\<lambda>br w.
     obind (ofold (\<lambda>i w.
         obind (get_port b i w) (\<lambda>port w.
         obind (if vp_dead_tables port AND IS_MAC_TO_DST_DEAD = 0 then free_mac_to_dst b i w else Ret () w) (\<lambda>_ w.
         if vp_dead_tables port AND IS_KNOWN_MAC_DEAD = 0 then free_known_mac b i w else Ret () w)))
       [0..<side_nb (sides br (pg_flip_side (vt_output st)))] w) (\<lambda>_ w.
     upd_vtep b (\<lambda>st. st\<lparr>vt_ports := []\<rparr>) w)))"

definition vtep_config_new ::
    "string \<Rightarrow> nat \<Rightarrow> nat \<Rightarrow> pg_side \<Rightarrow> u8 list \<Rightarrow> u8 list \<Rightarrow> u16 \<Rightarrow> u32 \<Rightarrow> pg_brick_config" where
  "vtep_config_new nm west_m east_m output ip mac udp_port flags =
     pg_brick_config_init (Some (C_vtep output mac ip udp_port flags)) nm west_m east_m PG_MULTIPOLE"

fun vtep_burst_id :: "ip_version \<Rightarrow> burst_fn" where
  "vtep_burst_id IPV4 = vtep4_burst_fn" | "vtep_burst_id IPV6 = vtep6_burst_fn"

definition vtep_init :: "ip_version \<Rightarrow> ext \<Rightarrow> nat \<Rightarrow> pg_brick_config \<Rightarrow> world \<Rightarrow> (int, world) out" where
  "vtep_init v x b config w =
     (case brick_config config of
        Some (C_vtep output mac ip udp_port flags) \<Rightarrow>
          obind (get_brick b w) (\<lambda>br w.
          obind (upd_vtep b (\<lambda>st.
            (if v = IPV4 then st\<lparr>vt_sum := pg_ipv4_init_cksum x (ip_word ip), vt_packet_id := 0\<rparr> else st)
              \<lparr>vt_output := output, vt_ip := ip, vt_mac := mac, vt_flags := flags,
               vt_udp_dst_port_be := PG_CPU_TO_BE_16 udp_port, vt_max_lifetime := DEFAULT_MAX_LIFETIME,
               vt_ports := replicate (pg_side_get_max br (pg_flip_side output)) (zero_port v)\<rparr>) w) (\<lambda>_ w.
          Ret 0 (set_burst b (vtep_burst_id v) w)))
      | _ \<Rightarrow> Abort ''config of another brick'')"

fun BRICK_NAME :: "ip_version \<Rightarrow> string" where
  "BRICK_NAME IPV4 = ''vtep4''" | "BRICK_NAME IPV6 = ''vtep6''"

definition vtep_ops :: "ip_version \<Rightarrow> ext \<Rightarrow> burster \<Rightarrow> brick_ops" where
  "vtep_ops v x brst = base_ops\<lparr>op_name := BRICK_NAME v,
     op_zero := P_vtep \<lparr>vt_mac = replicate 6 0, vt_output = PG_WEST_SIDE, vt_udp_dst_port_be = 0, vt_ports = [],
       vt_packet_id = 0, vt_sum = 0, vt_flags = 0, vt_ip = replicate (ip_size v) 0, vt_max_lifetime = 0, vt_tick = 0\<rparr>,
     op_init := vtep_init v x, op_destroy := Some vtep_destroy, op_unlink := True,
     op_unlink_notify := Some (vtep_unlink_notify v x brst)\<rparr>"

definition pg_vtep_new ::
    "ip_version \<Rightarrow> brick_ops list \<Rightarrow> string \<Rightarrow> nat \<Rightarrow> pg_side \<Rightarrow> u8 list \<Rightarrow> u8 list \<Rightarrow> u16 \<Rightarrow> u32 \<Rightarrow> world \<Rightarrow>
     (nat option, world) out" where
  "pg_vtep_new v reg nm mx output ip mac udp_port flags w =
     (let (west_m, east_m) = (if output = PG_WEST_SIDE then (1, mx) else (mx, 1)) in
      pg_brick_new reg (Some (BRICK_NAME v))
        (Some (vtep_config_new nm west_m east_m output ip mac udp_port flags)) w)"

definition pg_vtep_new_by_string ::
    "ext \<Rightarrow> brick_ops list \<Rightarrow> string \<Rightarrow> nat \<Rightarrow> pg_side \<Rightarrow> string \<Rightarrow> u8 list \<Rightarrow> u16 \<Rightarrow> u32 \<Rightarrow> world \<Rightarrow>
     (nat option, world) out" where
  "pg_vtep_new_by_string x reg nm mx output ip mac udp_port flag w =
     (case x_inet_pton4 (x_os x) ip of
        Some ip4 \<Rightarrow> pg_vtep_new IPV4 reg nm mx output ip4 mac udp_port flag w
      | None \<Rightarrow>
          (case x_inet_pton6 (x_os x) ip of
             None \<Rightarrow> Ret None (set_err (pg_error_new (CHR 0x27 # ''%s' is not a valid ip'') [ip]) w)
           | Some ip6 \<Rightarrow> pg_vtep_new IPV6 reg nm mx output ip6 mac udp_port flag w))"

definition pg_vtep_get_mac :: "nat option \<Rightarrow> world \<Rightarrow> (u8 list option, world) out" where
  "pg_vtep_get_mac brick w =
     (case brick of None \<Rightarrow> Ret None w
      | Some b \<Rightarrow> obind (get_state st_vtep b w) (\<lambda>st w. Ret (Some (vt_mac st)) w))"

section \<open>Configuration of a running endpoint\<close>

definition int_str :: "int \<Rightarrow> string" where
  "int_str n = (if n < 0 then CHR 0x2D # nat_str (nat (- n)) else nat_str (nat n))"

definition pg_vtep_add_mac :: "ext \<Rightarrow> nat \<Rightarrow> u32 \<Rightarrow> u8 list \<Rightarrow> world \<Rightarrow> (int, world) out" where
  "pg_vtep_add_mac x b vni_host mac w =
     obind (get_state st_vtep b w) (\<lambda>st w.
     obind (get_brick b w) (\<lambda>br w.
     let nb = side_nb (sides br (pg_flip_side (vt_output st))); vni = PG_CPU_TO_BE_32 (push_bit 8 vni_host) in
     obind (oloop (\<lambda>i w. obind (get_port b i w) (\<lambda>port w.
       Ret (if vp_vni port = vni then Some i else None) w)) [0..<nb] w) (\<lambda>r w.
     case r of
       None \<Rightarrow> Ret (-1) (set_err (pg_error_new (''vni '%d' not found in brick '%s'' @ [CHR 0x27])
         [int_str (sint vni), brick_name br]) w)
     | Some i \<Rightarrow>
         obind (do_add_mac x b i (ld48 (\<lambda>k. mac ! k) 0) w) (\<lambda>ok w.
         if ok then Ret 0 w
         else
           obind (upd_port b i (\<lambda>p. p\<lparr>vp_dead_tables := IS_KNOWN_MAC_DEAD\<rparr>) w) (\<lambda>_ w.
           obind (free_mac_to_dst b i w) (\<lambda>_ w.
           Ret (-1) (set_err (pg_error_new_errno ENOMEM ''not enouth space to add mac'' []) w)))))))"

definition pg_vtep_add_vni ::
    "ip_version \<Rightarrow> ext \<Rightarrow> burster \<Rightarrow> nat option \<Rightarrow> nat option \<Rightarrow> u32 \<Rightarrow> u8 list \<Rightarrow> world \<Rightarrow> (int, world) out" where
  "pg_vtep_add_vni v x brst brick neighbor vni multicast_ip w =
     (case brick of None \<Rightarrow> Abort ''null pointer''
      | Some b \<Rightarrow>
     obind (get_state st_vtep b w) (\<lambda>st w.
     case neighbor of None \<Rightarrow> Ret (-1) (set_err (pg_error_new ''VTEP brick is NULL'' []) w)
     | Some n \<Rightarrow>
         if \<not> is_vni_valid vni then Ret (-1) (set_err (pg_error_new ''Invalid VNI'' []) w)
         else if \<not> pg_is_multicast_ip v multicast_ip then
           Ret (-1) (set_err (pg_error_new ''Provided IP is not in the multicast range'' []) w)
         else
           obind (get_brick b w) (\<lambda>br w.
           case find (\<lambda>i. link (edges (sides br (pg_flip_side (vt_output st))) ! i) = Some n)
                  [0..<side_max (sides br (pg_flip_side (vt_output st)))] of
             None \<Rightarrow> Ret (-1) (set_err (pg_error_new ''VTEP brick index not found'' []) w)
           | Some i \<Rightarrow>
               obind (do_add_vni v x brst b i vni multicast_ip w) (\<lambda>r w.
               if r < 0 then Ret (-1) w
               else
                 obind (do_add_mac x b i 0xffffffffffff w) (\<lambda>ok w.
                 if ok then Ret 0 w else Abort ''longjmp to a function that returned'')))))"

text \<open>
  The port of an index: the remainder of a division by the number of links, with the sign of
  the dividend, as in C.
\<close>

definition port_of :: "int \<Rightarrow> nat \<Rightarrow> nat option" where
  "port_of port_id nb =
     (if 0 \<le> port_id then Some (nat port_id mod nb)
      else if nat (- port_id) mod nb = 0 then Some 0 else None)"

definition mac_to_dst_apply ::
    "nat \<Rightarrow> int \<Rightarrow> (vtep_state \<Rightarrow> dest_addresses pg_mac_table \<Rightarrow> dest_addresses pg_mac_table) \<Rightarrow> world \<Rightarrow> (unit, world) out" where
  "mac_to_dst_apply b port_id f w =
     obind (get_state st_vtep b w) (\<lambda>st w.
     obind (get_brick b w) (\<lambda>br w.
     let nb = side_nb (sides br (pg_flip_side (vt_output st))) in
     if nb = 0 then Abort ''division by zero''
     else if int nb \<le> port_id then Ret () w
     else case port_of port_id nb of
       None \<Rightarrow> Abort ''port out of range''
     | Some i \<Rightarrow>
         obind (get_port b i w) (\<lambda>port w.
         obind (mac_mem_walk (f st) (vp_mac_to_dst port) w) (\<lambda>t w.
         upd_port b i (\<lambda>p. p\<lparr>vp_mac_to_dst := t\<rparr>) w))))"

definition pg_vtep_clean_all_mac :: "nat \<Rightarrow> int \<Rightarrow> world \<Rightarrow> (unit, world) out" where
  "pg_vtep_clean_all_mac b port_id w = mac_to_dst_apply b port_id (\<lambda>_. pg_mac_table_clear) w"

text \<open>The loop of \<open>pg_vtep_cleanup_mac\<close>: the iterator walks over the table it shrinks.\<close>

function expire_macs ::
    "u64 \<Rightarrow> u64 \<Rightarrow> dest_addresses pg_mac_table \<Rightarrow> dest_addresses pg_mac_table_iterator \<Rightarrow>
     dest_addresses pg_mac_table" where
  "expire_macs tick max_life ma it =
     (if pg_mac_table_iterator_is_end it then ma
      else
        let ma' = (case pg_mac_table_iterator_get it of None \<Rightarrow> ma
              | Some da \<Rightarrow>
                  if tick - da_lifetime da > max_life
                  then snd (pg_mac_table_elem_unset ma (pg_mac_table_iterator_mk_key it)) else ma)
        in expire_macs tick max_life ma' (pg_mac_table_iterator_next ma' it))"
  by pat_completeness auto
termination
  by (relation "measures
       [\<lambda>(t, l, ma, it). if it_i it = 0xffffffff then 0 else Suc (PG_MAC_TABLE_MASK_SIZE - it_i it),
        \<lambda>(t, l, ma, it). pg_mask_count (it_m0 it),
        \<lambda>(t, l, ma, it). PG_MAC_TABLE_MASK_SIZE - it_j it,
        \<lambda>(t, l, ma, it). pg_mask_count (it_m1 it)]")
     (auto simp: pg_mac_table_iterator_is_end_def pg_mac_table_iterator_next_def
       split: option.splits dest!: it_outer_progress)

declare expire_macs.simps [simp del]

definition pg_vtep_cleanup_mac :: "nat \<Rightarrow> int \<Rightarrow> world \<Rightarrow> (unit, world) out" where
  "pg_vtep_cleanup_mac b port_id w =
     mac_to_dst_apply b port_id
       (\<lambda>st ma. expire_macs (vt_tick st) (vt_max_lifetime st) ma (pg_mac_table_iterator_init ma)) w"

definition pg_vtep_mac_to_dst :: "nat \<Rightarrow> int \<Rightarrow> world \<Rightarrow> (dest_addresses mac_mem, world) out" where
  "pg_vtep_mac_to_dst b port_id w =
     obind (get_state st_vtep b w) (\<lambda>st w.
     obind (get_brick b w) (\<lambda>br w.
     let nb = side_nb (sides br (pg_flip_side (vt_output st))) in
     if nb = 0 then Abort ''division by zero''
     else case port_of port_id nb of
       None \<Rightarrow> Abort ''port out of range''
     | Some i \<Rightarrow> obind (get_port b i w) (\<lambda>port w. Ret (vp_mac_to_dst port) w)))"

text \<open>Every round reads the port at the index \<open>vni\<close>.\<close>

definition pg_vtep_unset_mac :: "nat \<Rightarrow> u32 \<Rightarrow> u8 list \<Rightarrow> world \<Rightarrow> (int, world) out" where
  "pg_vtep_unset_mac b vni mac w =
     obind (get_state st_vtep b w) (\<lambda>st w.
     obind (get_brick b w) (\<lambda>br w.
     obind (oloop (\<lambda>_ w.
       obind (get_port b (unat vni) w) (\<lambda>port w.
       if vp_vni port = vni then
         obind (mac_mem_unset (vp_mac_to_dst port) (ld48 (\<lambda>k. mac ! k) 0) w) (\<lambda>(r, t) w.
         obind (upd_port b (unat vni) (\<lambda>p. p\<lparr>vp_mac_to_dst := t\<rparr>) w) (\<lambda>_ w. Ret (Some r) w))
       else Ret None w)) [0..<side_nb (sides br (pg_flip_side (vt_output st)))] w) (\<lambda>r w.
     Ret (case r of None \<Rightarrow> -1 | Some r \<Rightarrow> r) w)))"

section \<open>The links stay\<close>

lemma safe_step_vtep [simp]: "safe_step w (upd_priv b (on_vtep f) w)"
proof (rule safe_step_priv)
  fix br show "priv_step (priv_state br) (on_vtep f (priv_state br))"
    by (cases "priv_state br") (simp_all add: priv_step_def)
qed

lemma safe_upd_vtep [simp, safe_intros]: "safe w (upd_vtep b f w)"
  unfolding upd_vtep_def by (intro safe_intros; simp)

lemma safe_get_port [simp, safe_intros]: "safe w (get_port b i w)"
  unfolding get_port_def by (intro safe_intros; simp)

lemma safe_upd_port [simp, safe_intros]: "safe w (upd_port b i f w)"
  unfolding upd_port_def by (intro safe_intros)

lemma safe_mac_mem [simp, safe_intros]:
  "safe w (mac_mem_get t mac w)" "safe w (mac_mem_set x t mac e w)" "safe w (mac_mem_unset t mac w)"
  "safe w (mac_mem_free t w)" "safe w (mac_mem_walk f t w)" "safe w (mac_mem_init x w)"
  by (simp_all add: mac_mem_get_def mac_mem_set_def mac_mem_unset_def mac_mem_free_def mac_mem_walk_def
      mac_mem_init_def Let_def split: mac_mem.splits out.splits prod.splits)

lemma safe_port_tables [simp, safe_intros]:
  "safe w (set_known_mac x b i mac w)" "safe w (set_mac_to_dst x b i mac dst w)"
  "safe w (free_known_mac b i w)" "safe w (free_mac_to_dst b i w)" "safe w (do_add_mac x b i mac w)"
  unfolding set_known_mac_def set_mac_to_dst_def free_known_mac_def free_mac_to_dst_def do_add_mac_def
  by (intro safe_intros; simp)+

lemma safe_ip_build [simp, safe_intros]: "safe w (ip_build v x b p off s d len w)"
  by (cases v; simp only: ip_build.simps ip4_build_def ip6_build_def; intro safe_intros)

lemma safe_headers [simp, safe_intros]:
  "safe w (vxlan_build p off vni w)" "safe w (ethernet_build v p off s d w)"
  "safe w (udp_build p off port len seed w)" "safe w (udp_build_cksum v x p ip_off off port len seed w)"
  unfolding vxlan_build_def ethernet_build_def udp_build_cksum_def udp_build_def
  by (intro safe_intros; simp)+

lemma safe_encap [simp, safe_intros]:
  "safe w (vtep_dst x v b i entry eth w)" "safe w (vtep_lookup x b i e w)"
  "safe w (try_fix_tables x b i w)" "safe w (vtep_free_copies x b m w)"
  unfolding vtep_dst_def vtep_lookup_def try_fix_tables_def vtep_free_copies_def
  by (intro safe_intros; simp)+

lemma safe_header_prepend [simp, safe_intros]: "safe w (vtep_header_prepend x v b i pkt entry w)"
  unfolding vtep_header_prepend_def by (intro safe_intros; simp)

lemma safe_encapsulate [simp, safe_intros]:
  "safe w (vtep_encapsulate x v b i a m w)" "safe w (fix_dead_tables x b i w)"
  "safe w (to_vtep_exception x b i m w)"
  unfolding vtep_encapsulate_def vtep_encap_round_def fix_dead_tables_def to_vtep_exception_def
  by (intro safe_intros; simp)+

lemma safe_decap [simp, safe_intros]:
  "safe w (add_dst_iner_macs x v b i a eths hdrs m w)" "safe w (check_udp_checksum x v p off w)"
  "safe w (vtep_adj x v p w)" "safe w (vtep_hit b p i m w)" "safe w (from_vtep_exception b from w)"
  unfolding add_dst_iner_macs_def learn_dst_def check_udp_checksum_def vtep_adj_def
    vtep_hit_def from_vtep_exception_def
  by (intro safe_intros; simp)+

lemma safe_restore_packet [simp, safe_intros]: "safe w (restore_packet x a i w)"
  unfolding restore_packet_def by (intro safe_intros; simp)

lemma safe_classify [simp, safe_intros]: "safe w (classify_pkts x v port a m w)"
  unfolding classify_pkts_def classify_pkt_def by (intro safe_intros; simp)

lemma safe_clone_vni_loop [simp, safe_intros]: "safe w (clone_vni_loop x v b vni a hdrs js m w)"
proof (induction js arbitrary: m w)
  case (Cons j js)
  then show ?case unfolding clone_vni_loop.simps by (intro safe_intros Cons; simp)
qed simp

lemma safe_check_vni [simp, safe_intros]:
  "safe w (check_and_clone_vni_pkts x v b vni a hdrs m w)" "safe w (check_vni_pkts x v vni a hdrs m w)"
  "safe w (restore_metadata x a m w)"
  unfolding check_and_clone_vni_pkts_def check_vni_pkts_def check_vni_round_def restore_metadata_def
  by (intro safe_intros; simp)+

lemma vtep_destroy_safe: "safe w (vtep_destroy b w)"
  unfolding vtep_destroy_def by (intro safe_intros; simp)

lemma vtep_init_safe: "safe w (vtep_init v x b c w)"
proof (cases "brick_config c")
  case (Some bc)
  show ?thesis
  proof (cases bc)
    case (C_vtep os mac ip port fl)
    show ?thesis
      unfolding vtep_init_def Some C_vtep option.case bconf.case by (intro safe_intros; simp)
  qed (simp_all add: vtep_init_def Some)
qed (simp add: vtep_init_def)

context bursts
begin

lemma vtep_to_port_safe: "safe w (vtep_to_port brst b from i a m w)"
  unfolding vtep_to_port_def by (intro safe_intros burst_safe)

lemma decap_loop_safe: "safe w (decap_loop x v brst b from a cl is m w)"
proof (induction "is" arbitrary: m w)
  case (Cons i js)
  show ?case unfolding decap_loop.simps by (intro safe_intros vtep_to_port_safe Cons; simp)
qed simp

lemma decap_simple_loop_safe: "safe w (decap_simple_loop x v brst b from a cl is m w)"
proof (induction "is" arbitrary: m w)
  case (Cons i js)
  show ?case unfolding decap_simple_loop.simps by (intro safe_intros vtep_to_port_safe Cons; simp)
qed simp

lemma vtep_burst_safe: "safe w (vtep_burst v x brst b from i a m w)"
  unfolding vtep_burst_def from_vtep_def to_vtep_def decapsulate_def decapsulate_simple_def
  by (intro safe_intros decap_loop_safe decap_simple_loop_safe side_forward_safe; simp)

lemma send_report_safe: "safe w (send_report x brst b output p w)"
  unfolding send_report_def by (intro safe_intros side_forward_safe; simp)

lemma multicast_internal_safe:
  "safe w (multicast4_internal x brst b ip action w)" "safe w (multicast6_internal x brst b ip action w)"
proof -
  show "safe w (multicast4_internal x brst b ip action w)"
    unfolding multicast4_internal_def
    by (cases action; simp only: operation.case; intro safe_intros send_report_safe; simp)
  show "safe w (multicast6_internal x brst b ip action w)"
    unfolding multicast6_internal_def by (intro safe_intros send_report_safe; simp)
qed

lemma vtep_unlink_notify_safe: "safe w (vtep_unlink_notify v x brst b s i w)"
  unfolding vtep_unlink_notify_def do_remove_vni_def
  by (cases v; simp only: multicast_unsubscribe.simps; intro safe_intros multicast_internal_safe; simp)

end

section \<open>The tunnel header\<close>

text \<open>
  \<open>rte_pktmbuf_prepend\<close> as DPDK documents it: with enough headroom the data starts earlier in
  the same buffer, and the bytes of the buffer stay.
\<close>

definition dpdk_prepend :: "ext \<Rightarrow> bool" where
  "dpdk_prepend x \<longleftrightarrow>
     (\<forall>p n ms m. mbufs ms p = Some m \<longrightarrow> n \<le> data_off m \<longrightarrow>
        x_prepend x p n ms = (Some (data_off m - n), ms\<lparr>mbufs := (mbufs ms)(p \<mapsto>
          m\<lparr>data_off := data_off m - n, data_len := data_len m + n, pkt_len := pkt_len m + n\<rparr>)\<rparr>))"

text \<open>The packet \<open>p\<close> is \<open>m\<close> with the data \<open>f\<close>, and the endpoint \<open>b\<close> has the state \<open>st\<close>.\<close>

definition tunnel :: "nat \<Rightarrow> nat \<Rightarrow> mbuf \<Rightarrow> vtep_state \<Rightarrow> (nat \<Rightarrow> u8) \<Rightarrow> world \<Rightarrow> bool" where
  "tunnel b p m st f w \<longleftrightarrow>
     mbufs (mst w) p = Some m \<and> pkt_bytes 0 m (mst w) = f \<and> state_at st_vtep w b = Some st"

lemma st_on_vtep [simp]: "st_vtep (on_vtep f p) = map_option f (st_vtep p)"
  by (cases p) simp_all

lemma tunnel_get:
  assumes "tunnel b p m st f w"
  shows "get_state st_vtep b w = Ret st w" "get_mbuf p w = Ret m w" "mtod p w = Ret f w"
    "i < length (vt_ports st) \<Longrightarrow> get_port b i w = Ret (vt_ports st ! i) w"
  using assms by (auto simp: tunnel_def get_mbuf_def mtod_def get_port_def pkt_bytes_def)

lemma tunnel_put: "tunnel b p m st f w \<Longrightarrow> oret (put_bytes p off bs w) (\<lambda>_. tunnel b p m st (set_bytes off bs f))"
  by (auto simp: tunnel_def put_bytes_def write_bytes_def get_mbuf_def pkt_bytes_def state_at_def poke_shift
      simp del: poke.simps)

lemma tunnel_put_ex:
  assumes "tunnel b p m st f w" and "P (set_bytes off bs f)"
  shows "oret (put_bytes p off bs w) (\<lambda>_ w'. \<exists>st' g. tunnel b p m st' g w' \<and> P g)"
  by (rule oret_mono [OF tunnel_put [OF assms(1)]]) (use assms(2) in blast)

lemma tunnel_upd: "tunnel b p m st f w \<Longrightarrow> oret (upd_vtep b g w) (\<lambda>_. tunnel b p m (g st) f)"
  by (auto simp: tunnel_def upd_vtep_def state_at_upd_priv [where g = g])

lemma tunnel_upd_port:
  "tunnel b p m st f w \<Longrightarrow> i < length (vt_ports st) \<Longrightarrow>
   oret (upd_port b i g w) (\<lambda>_. tunnel b p m (st\<lparr>vt_ports := (vt_ports st)[i := g (vt_ports st ! i)]\<rparr>) f)"
  using tunnel_upd [of b p m st f w "\<lambda>st'. st'\<lparr>vt_ports := (vt_ports st')[i := g (vt_ports st ! i)]\<rparr>"]
  by (simp add: upd_port_def tunnel_get)

text \<open>\<open>g\<close> has the bytes of \<open>f\<close>, but for \<open>n\<close> bytes from \<open>off\<close> on.\<close>

definition same_outside :: "nat \<Rightarrow> nat \<Rightarrow> (nat \<Rightarrow> u8) \<Rightarrow> (nat \<Rightarrow> u8) \<Rightarrow> bool" where
  "same_outside off n f g \<longleftrightarrow> (\<forall>k. k < off \<or> off + n \<le> k \<longrightarrow> g k = f k)"

lemma same_outside_bytes:
  "same_outside off n f g \<Longrightarrow> j + len \<le> off \<or> off + n \<le> j \<Longrightarrow> bytes_at g j len = bytes_at f j len"
  by (auto simp: same_outside_def bytes_at_def)

lemma same_outside_set_bytes: "n = length bs \<Longrightarrow> same_outside off n f (set_bytes off bs f)"
  by (simp add: same_outside_def set_bytes_def)

lemma le32_ip_word: "length ip = 4 \<Longrightarrow> le32 (ip_word ip) = ip"
  using le32_ld32 [of "ip_word ip" "\<lambda>i. ip ! i" 0] map_nth [of ip]
  by (simp add: ip_word_def bytes_at_def)

lemma ip_build_ok:
  assumes "tunnel b p m st f w" and "length src = ip_size v" and "length dst = ip_size v"
  shows "oret (ip_build v x b p off src dst len w) (\<lambda>_ w'. \<exists>st' g. tunnel b p m st' g w' \<and>
    same_outside off (ip_hdr_size v) f g \<and> g (off + ip_proto_off v) = PG_UDP_PROTOCOL_NUMBER \<and>
    bytes_at g (off + ip_src_off v) (ip_size v) = src \<and> bytes_at g (off + ip_dst_off v) (ip_size v) = dst)"
proof -
  define good where "good g \<longleftrightarrow> same_outside off (ip_hdr_size v) f g \<and>
    g (off + ip_proto_off v) = PG_UDP_PROTOCOL_NUMBER \<and>
    bytes_at g (off + ip_src_off v) (ip_size v) = src \<and> bytes_at g (off + ip_dst_off v) (ip_size v) = dst" for g
  have "oret (ip_build v x b p off src dst len w) (\<lambda>_ w'. \<exists>st' g. tunnel b p m st' g w' \<and> good g)"
  proof (cases v)
    case IPV4
    have good4: "good (set_bytes off (ipv4_bytes l i fo t PG_UDP_PROTOCOL_NUMBER c (ip_word src) (ip_word dst)) f)"
      for l i fo t c
      using assms(2,3)
      by (simp add: good_def IPV4 same_outside_set_bytes bytes_at_within ipv4_bytes_def le32_ip_word)
         (simp add: set_bytes_def le16_def)
    show ?thesis
      unfolding IPV4 ip_build.simps ip4_build_def
      by (rule oret_obind, rule oret_mono [OF tunnel_upd [OF assms(1)]])
         (auto simp: tunnel_get Let_def intro!: tunnel_put_ex good4)
  next
    case IPV6
    have good6: "good (set_bytes off (le32 (PG_CPU_TO_BE_32 0x60000000) @ be16 len @
        [PG_UDP_PROTOCOL_NUMBER, 0xff] @ src @ dst) f)"
      using assms(2,3)
      by (simp add: good_def IPV6 same_outside_set_bytes bytes_at_within)
         (simp add: set_bytes_def le32_def be16_def)
    show ?thesis
      unfolding IPV6 ip_build.simps ip6_build_def
      by (rule tunnel_put_ex [where P = good, OF assms(1)]) (rule good6)
  qed
  then show ?thesis by (simp add: good_def)
qed

text \<open>
  The UDP checksum of the header at \<open>off\<close>: that of the bytes with a zero in its place, if it is
  asked for and the version is IPv6, and zero otherwise.
\<close>

definition cksum_ok :: "bool \<Rightarrow> ext \<Rightarrow> ip_version \<Rightarrow> nat \<Rightarrow> nat \<Rightarrow> (nat \<Rightarrow> u8) \<Rightarrow> bool" where
  "cksum_ok c x v ip_off off g \<longleftrightarrow>
     ld16 g (off + 6) = (if v = IPV6 \<and> c then x_udptcp6_cksum (x_eth x) (set_bytes (off + 6) [0, 0] g) ip_off off else 0)"

lemma set_bytes_over: "length bs = length cs \<Longrightarrow> set_bytes off bs (set_bytes off cs f) = set_bytes off bs f"
  by (simp add: set_bytes_def fun_eq_iff)

lemma udp_build_ok:
  assumes "tunnel b p m st f w"
  shows "oret (if c then udp_build_cksum v x p ip_off off port len seed w else udp_build p off port len seed w)
    (\<lambda>_ w'. \<exists>st' g. tunnel b p m st' g w' \<and> same_outside off 8 f g \<and> bytes_at g (off + 2) 2 = le16 port \<and>
      cksum_ok c x v ip_off off g)"
proof -
  define bs where "bs = be16 (src_port_compute seed) @ le16 port @ be16 len @ [0, 0]"
  define g where "g = set_bytes off bs f"
  have g: "same_outside off 8 f g" "bytes_at g (off + 2) 2 = le16 port" "ld16 g (off + 6) = 0"
    "set_bytes (off + 6) [0, 0] g = g"
    by (simp_all add: g_def same_outside_set_bytes bs_def bytes_at_within)
       (auto simp: ld16_def set_bytes_def nth_append nth_Cons fun_eq_iff be16_def le16_def split: nat.splits)
  have put: "oret (udp_build p off port len seed w) (\<lambda>_. tunnel b p m st g)"
    unfolding udp_build_def g_def bs_def by (rule tunnel_put [OF assms])
  define good where "good c g \<longleftrightarrow> same_outside off 8 f g \<and> bytes_at g (off + 2) 2 = le16 port \<and> cksum_ok c x v ip_off off g"
    for c g
  have plain: "good c g" if "\<not> (v = IPV6 \<and> c)" for c using g that by (auto simp: good_def cksum_ok_def)
  have "ld16 (set_bytes (off + 6) (le16 y) g) (off + 6) = y" for y
    by (simp add: le16_ld16 [symmetric] bytes_at_within)
  then have "good True (set_bytes (off + 6) (le16 (x_udptcp6_cksum (x_eth x) g ip_off off)) g)" if "v = IPV6"
    using g that
    by (auto simp: good_def same_outside_def set_bytes_def [of _ "le16 y" for y] bytes_at_set_bytes cksum_ok_def set_bytes_over)
  then have "oret (udp_build_cksum v x p ip_off off port len seed w) (\<lambda>_ w'. \<exists>st' g. tunnel b p m st' g w' \<and> good True g)"
    unfolding udp_build_cksum_def
    by (intro oret_obind oret_mono [OF put])
       (auto simp: tunnel_get intro!: tunnel_put_ex [where P = "good True"] intro: plain)
  moreover have "oret (udp_build p off port len seed w) (\<lambda>_ w'. \<exists>st' g. tunnel b p m st' g w' \<and> good False g)"
    using plain [of False] by (intro oret_mono [OF put]) auto
  ultimately show ?thesis by (cases c) (simp_all add: good_def)
qed

text \<open>The destination of a packet and its state: what the table says, or the multicast group of the port.\<close>

fun vtep_target :: "ip_version \<Rightarrow> vtep_port \<Rightarrow> (u64 \<times> dest_addresses) option \<Rightarrow> u8 list \<times> u8 list" where
  "vtep_target v port (Some (mac, da)) = (da_mac da, da_ip da)"
| "vtep_target v port None = (pg_multicast_get_dst_addr v (vp_multicast_ip port), vp_multicast_ip port)"

definition can_learn :: "vtep_state \<Rightarrow> vtep_port \<Rightarrow> bool" where
  "can_learn st port \<longleftrightarrow> vt_flags st AND PG_VTEP_NO_INNERMAC_CHECK \<noteq> 0 \<or>
     (\<exists>ma. vp_known_mac port = Live ma \<and> mac_table_inv ma)"

lemma tunnel_data [simp]: "tunnel b p m st f (w\<lparr>malloc_cnt := n\<rparr>) = tunnel b p m st f w"
  by (simp add: tunnel_def state_at_def)

lemma do_add_mac_ok:
  assumes "tunnel b p m st f w" and "i < length (vt_ports st)" and "\<And>n. x_malloc_ok x n"
    and "vp_known_mac (vt_ports st ! i) = Live ma" and "mac_table_inv ma"
  shows "oret (do_add_mac x b i mac w) (\<lambda>ok w'. ok \<and> (\<exists>st'. tunnel b p m st' f w'))"
proof -
  obtain ma' where ma': "pg_mac_table_ptr_set True True ma mac () = Ret True ma'"
    using ptr_set_ok [OF assms(5)] by blast
  have "oret (upd_port b i g (w\<lparr>malloc_cnt := n\<rparr>)) (\<lambda>_ s. \<exists>st'. tunnel b p m st' f s)" for g n
    by (rule oret_mono [OF tunnel_upd_port [of b p m st f]]) (use assms(1,2) in auto)
  then show ?thesis
    unfolding do_add_mac_def set_known_mac_def
    using assms(1-4) ma' by (simp add: tunnel_get mac_mem_set_def Let_def oret_obind)
qed

lemma vtep_dst_ok:
  assumes "tunnel b p m st f w" and "i < length (vt_ports st)" and "\<And>n. x_malloc_ok x n"
    and "entry = None \<Longrightarrow> can_learn st (vt_ports st ! i)"
  shows "oret (vtep_dst x v b i entry eth w) (\<lambda>r w'. r = Some (vtep_target v (vt_ports st ! i) entry) \<and>
    (\<exists>st'. tunnel b p m st' f w'))"
proof (cases entry)
  case None
  then have add: "oret (if vt_flags st AND PG_VTEP_NO_INNERMAC_CHECK = 0 then do_add_mac x b i mac w else Ret True w)
      (\<lambda>ok w'. ok \<and> (\<exists>st'. tunnel b p m st' f w'))" for mac
    using assms do_add_mac_ok [OF assms(1-3)] by (auto simp: can_learn_def)
  show ?thesis
    unfolding vtep_dst_def None
    by (simp only: tunnel_get [OF assms(1)] tunnel_get(4) [OF assms(1,2)] obind.simps option.case)
       (rule oret_obind, rule oret_mono [OF add], auto)
next
  case (Some e)
  obtain mac da where e: "e = (mac, da)" by (cases e)
  show ?thesis
    unfolding vtep_dst_def Some e
    by (simp add: tunnel_get [OF assms(1)] assms(2))
       (rule oret_obind, rule oret_mono [OF tunnel_upd_port [OF assms(1,2)]], auto)
qed

text \<open>The last steps of \<open>vtep_header_prepend\<close>, and what the bytes in front of the packet are then.\<close>

definition header_ok ::
    "ip_version \<Rightarrow> u16 \<Rightarrow> u32 \<Rightarrow> u8 list \<Rightarrow> u8 list \<Rightarrow> u8 list \<Rightarrow> (nat \<Rightarrow> u8) \<Rightarrow> (nat \<Rightarrow> u8) \<Rightarrow> bool" where
  "header_ok v port vni src_ip dst_ip dst_mac f g \<longleftrightarrow>
     g (14 + ip_proto_off v) = 17 \<and> bytes_at g (14 + ip_hdr_size v + 2) 2 = le16 port \<and>
     bytes_at g (14 + ip_hdr_size v + 8) 4 = le32 PG_VTEP_BE_I_FLAG \<and>
     bytes_at g (14 + ip_hdr_size v + 12) 4 = le32 vni \<and>
     bytes_at g (14 + ip_src_off v) (ip_size v) = src_ip \<and>
     bytes_at g (14 + ip_dst_off v) (ip_size v) = dst_ip \<and> bytes_at g 0 6 = dst_mac \<and>
     (\<forall>k. HEADER_LENGTH v \<le> k \<longrightarrow> g k = f k)"

lemma header_steps:
  assumes "same_outside 14 (ip_hdr_size v) (set_bytes 0 (dst_mac @ src_mac @ le16 ty)
      (set_bytes (14 + ip_hdr_size v + 8) (le32 PG_VTEP_BE_I_FLAG @ le32 vni) f)) g1"
    and "g1 (14 + ip_proto_off v) = PG_UDP_PROTOCOL_NUMBER"
    and "bytes_at g1 (14 + ip_src_off v) (ip_size v) = src_ip"
    and "bytes_at g1 (14 + ip_dst_off v) (ip_size v) = dst_ip"
    and "same_outside (14 + ip_hdr_size v) 8 g1 g" and "bytes_at g (14 + ip_hdr_size v + 2) 2 = le16 port"
    and "length dst_mac = 6" and "length src_mac = 6"
  shows "header_ok v port vni src_ip dst_ip dst_mac f g"
proof -
  define f1 where "f1 = set_bytes (14 + ip_hdr_size v + 8) (le32 PG_VTEP_BE_I_FLAG @ le32 vni) f"
  define f2 where "f2 = set_bytes 0 (dst_mac @ src_mac @ le16 ty) f1"
  note fs = assms(1) [folded f1_def, folded f2_def]
  have f2: "bytes_at f2 (14 + ip_hdr_size v + 8) 4 = le32 PG_VTEP_BE_I_FLAG"
      "bytes_at f2 (14 + ip_hdr_size v + 12) 4 = le32 vni" "bytes_at f2 0 6 = dst_mac"
    using assms(7,8) by (simp_all add: f2_def f1_def bytes_at_set_bytes bytes_at_within)
  have "bytes_at g j n = bytes_at f2 j n" if "j + n \<le> 14 \<or> 14 + ip_hdr_size v + 8 \<le> j" for j n
  proof -
    have "bytes_at g j n = bytes_at g1 j n" using that by (intro same_outside_bytes [OF assms(5)]) auto
    also have "\<dots> = bytes_at f2 j n" using that by (intro same_outside_bytes [OF fs]) auto
    finally show ?thesis .
  qed
  moreover have "bytes_at g (14 + ip_src_off v) (ip_size v) = src_ip"
      "bytes_at g (14 + ip_dst_off v) (ip_size v) = dst_ip" "g (14 + ip_proto_off v) = 17"
    using assms(2-5) by (cases v; simp add: same_outside_bytes; simp add: same_outside_def PG_UDP_PROTOCOL_NUMBER_def)+
  moreover have "g k = f k" if "HEADER_LENGTH v \<le> k" for k
    using that assms(5,7,8) fs
    by (simp add: same_outside_def HEADER_LENGTH_def headers_size_def f2_def f1_def set_bytes_def)
  ultimately show ?thesis
    using assms(6) f2 by (simp add: header_ok_def)
qed

lemma foreach_one: "j < 64 \<Longrightarrow> pg_foreach_bit (push_bit j 1) = [j]"
proof -
  assume "j < 64"
  then have "set (pg_foreach_bit (ONE64_shl j)) = {j}" by (auto simp: mask_simps)
  with distinct_pg_foreach_bit [of "ONE64_shl j"] have "pg_foreach_bit (ONE64_shl j) = [j]"
    by (cases "pg_foreach_bit (ONE64_shl j)") (auto simp: subset_singleton_iff)
  then show ?thesis by (simp add: ONE64_shl_def)
qed

text \<open>
  A receiving endpoint takes a packet for its own that has the bytes \<open>bs\<close> at the places \<open>S\<close>
  and whose outer IP header is behind an Ethernet header.
\<close>

definition accepted :: "ext \<Rightarrow> ip_version \<Rightarrow> u16 \<Rightarrow> nat set \<Rightarrow> (nat \<Rightarrow> u8) \<Rightarrow> bool" where
  "accepted x v port S bs \<longleftrightarrow>
     (\<forall>w a f j m. arrays w a = Some f \<and> j < 64 \<and> mbufs (mst w) (f j) = Some m \<and> l2_len m = 14 \<and>
        (\<forall>k \<in> S. pkt_bytes 0 m (mst w) k = bs k) \<longrightarrow>
        oret (classify_pkts x v port a (push_bit j 1) w) (\<lambda>cl _. cl_computed cl = push_bit j 1))"

lemma check_udp_checksum_6:
  assumes "mbufs (mst w) p = Some m" and "g = pkt_bytes 0 m (mst w)"
    and "ld16 g (off + 46) = x_udptcp6_cksum (x_eth x) (set_bytes (off + 46) [0, 0] g) off (off + 40)"
  shows "oret (check_udp_checksum x IPV6 p off w) (\<lambda>ok _. ok)"
proof -
  have "(\<lambda>i. poke (bufs (mst w) (buf_addr m)) (data_off m + (off + 46)) [0, 0] (data_off m + i)) =
      set_bytes (off + 46) [0, 0] g"
    unfolding poke_shift by (simp add: assms(2) pkt_bytes_def)
  then show ?thesis
    using assms
    by (simp add: check_udp_checksum_def mtod_def get_mbuf_def put_bytes_def write_bytes_def pkt_bytes_def Let_def add.assoc
        del: poke.simps)
qed

lemma header_accepted:
  assumes "is_vxlan v port (\<lambda>k. g (14 + k))" and "cksum_ok c x v 14 (14 + ip_hdr_size v) g"
  shows "accepted x v port (if v = IPV6 \<and> c then UNIV else {..<HEADER_LENGTH v}) g"
  unfolding accepted_def
proof (intro allI impI, elim conjE)
  fix w :: world and a f j and m :: mbuf
  assume w: "arrays w a = Some f" "j < 64" "mbufs (mst w) (f j) = Some m" "l2_len m = 14"
    and S: "\<forall>k \<in> (if v = IPV6 \<and> c then UNIV else {..<HEADER_LENGTH v}). pkt_bytes 0 m (mst w) k = g k"
  define h where "h = pkt_bytes 0 m (mst w)"
  have h: "h k = g k" if "k < HEADER_LENGTH v" for k using S that by (auto simp: h_def split: if_splits)
  have d: "deref (buf_addr m, data_off m + l2_len m) w = (\<lambda>k. h (14 + k))"
    by (simp add: deref_def h_def pkt_bytes_def w(4) fun_eq_iff add.assoc)
  have vx: "is_vxlan v port (\<lambda>k. h (14 + k))" and ck: "ld16 (\<lambda>k. h (14 + k)) (ip_hdr_size v + 6) = ld16 g (14 + ip_hdr_size v + 6)"
    using assms(1) h by (cases v; simp add: is_vxlan_def ld16_def ld32_def HEADER_LENGTH_def headers_size_def)+
  have "oret (if ld16 (\<lambda>k. h (14 + k)) (ip_hdr_size v + 6) \<noteq> 0 then check_udp_checksum x v (f j) 14 w else Ret True w) (\<lambda>ok _. ok)"
  proof (cases "v = IPV6 \<and> c")
    case True
    then have "h = g" using S by (auto simp: h_def)
    then show ?thesis
      using check_udp_checksum_6 [OF w(3) h_def, of 14 x] assms(2) True by (simp add: cksum_ok_def add.assoc)
  next
    case False
    then show ?thesis using assms(2) ck by (auto simp: cksum_ok_def)
  qed
  then show "oret (classify_pkts x v port a (push_bit j 1) w) (\<lambda>cl _. cl_computed cl = push_bit j 1)"
    using w vx foreach_one [OF w(2)] d
    by (cases "ld16 (\<lambda>k. h (14 + k)) (ip_hdr_size v + 6) = 0"; cases "check_udp_checksum x v (f j) 14 w")
       (simp_all add: classify_pkts_def classify_pkt_def get_pkts_def get_mbuf_def Let_def)
qed

text \<open>What the receiver reads in a packet with a header in order, whose metadata are set.\<close>

lemma header_ok_read:
  fixes v :: ip_version and x :: ext
  assumes "tunnel b p m st g w" and ok: "header_ok v port vni src dst_ip dst_mac f g"
    and inner: "\<And>k. f (HEADER_LENGTH v + k) = pkt k"
    and ck: "cksum_ok c x v 14 (14 + ip_hdr_size v) g"
  defines "m' \<equiv> vtep_meta x v m" and "w' \<equiv> upd_mbuf p (vtep_meta x v) w"
  defines "hdr \<equiv> pkt_bytes 14 m' (mst w')"
  shows "mbufs (mst w') p = Some m' \<and> data_off m' = data_off m \<and> is_vxlan v port hdr \<and> vx_vni v hdr = vni \<and>
    bytes_at hdr (ip_src_off v) (ip_size v) = src \<and> bytes_at hdr (ip_dst_off v) (ip_size v) = dst_ip \<and>
    bytes_at (pkt_bytes 0 m' (mst w')) 0 6 = dst_mac \<and> pkt_bytes (HEADER_LENGTH v) m' (mst w') = pkt \<and>
    accepted x v port (if v = IPV6 \<and> c then UNIV else {..<HEADER_LENGTH v}) (pkt_bytes 0 m' (mst w'))"
proof -
  have m: "mbufs (mst w') p = Some m'" "data_off m' = data_off m" "buf_addr m' = buf_addr m"
    using assms(1) by (simp_all add: tunnel_def upd_mbuf_def vtep_meta_def m'_def w'_def Let_def)
  have g: "pkt_bytes off m' (mst w') = (\<lambda>k. g (off + k))" for off
    using assms(1) m by (auto simp: tunnel_def pkt_bytes_def upd_mbuf_def w'_def fun_eq_iff add.assoc split: option.splits)
  have "pkt_bytes (HEADER_LENGTH v) m' (mst w') = pkt"
    using ok inner by (simp add: g header_ok_def fun_eq_iff)
  moreover have at: "bytes_at (\<lambda>k. g (14 + k)) j n = bytes_at g (14 + j) n" for j n
    by (simp add: bytes_at_def add.assoc)
  moreover have "ld16 (\<lambda>k. g (14 + k)) (ip_hdr_size v + 2) = port"
      "ld32 (\<lambda>k. g (14 + k)) (ip_hdr_size v + 8) = PG_VTEP_BE_I_FLAG"
      "ld32 (\<lambda>k. g (14 + k)) (ip_hdr_size v + 12) = vni"
    using ok by (simp_all add: le16_ld16 [symmetric] le32_ld32 [symmetric] at header_ok_def add.assoc)
  moreover from this have vx: "is_vxlan v port (\<lambda>k. g (14 + k))"
    using ok by (simp add: is_vxlan_def header_ok_def)
  ultimately show ?thesis
    using m(1,2) ok header_accepted [OF vx ck] by (simp add: g hdr_def vx_vni_def header_ok_def)
qed

text \<open>
  C35. A packet that gets a tunnel header is one that an endpoint with the same UDP port takes
  for its own: \<open>classify_pkts\<close> selects every packet that has these bytes behind its Ethernet
  header, the check of the UDP checksum included. When the checksum of an IPv6 tunnel is forced,
  the receiver has to have all the bytes the sender had, also those behind the packet, which the
  length in the IPv6 header covers too; otherwise the bytes of the header are enough. The header
  has the network identifier of the port, the address of the endpoint as source and the chosen
  destination; the packet itself follows the header unchanged. This needs a packet with enough
  headroom, and memory for the table of known addresses when the destination is not known.
\<close>

theorem vtep_header_recognised:
  fixes v :: ip_version and m :: mbuf
  assumes "dpdk_prepend x" and mem: "\<And>n. x_malloc_ok x n" and "mbufs (mst w) p = Some m"
    and "HEADER_LENGTH v \<le> data_off m" and "state_at st_vtep w b = Some st"
    and i: "i < length (vt_ports st)" and learn: "entry = None \<Longrightarrow> can_learn st (vt_ports st ! i)"
    and mac: "length (vt_mac st) = 6" and ip: "length (vt_ip st) = ip_size v"
    and tgt: "vtep_target v (vt_ports st ! i) entry = (dst_mac, dst_ip)"
    and dst: "length dst_mac = 6" "length dst_ip = ip_size v"
  shows "oret (vtep_header_prepend x v b i p entry w) (\<lambda>r w'. r = Some 0 \<and>
    (\<exists>m'. mbufs (mst w') p = Some m' \<and> data_off m' = data_off m - HEADER_LENGTH v \<and>
      accepted x v (vt_udp_dst_port_be st) (if v = IPV6 \<and> vt_flags st AND PG_VTEP_FORCE_UPD_IPV6_CHECKSUM \<noteq> 0
        then UNIV else {..<HEADER_LENGTH v}) (pkt_bytes 0 m' (mst w')) \<and>
      (let hdr = pkt_bytes 14 m' (mst w') in
        is_vxlan v (vt_udp_dst_port_be st) hdr \<and> vx_vni v hdr = vp_vni (vt_ports st ! i) \<and>
        bytes_at hdr (ip_src_off v) (ip_size v) = vt_ip st \<and>
        bytes_at hdr (ip_dst_off v) (ip_size v) = dst_ip \<and>
        bytes_at (pkt_bytes 0 m' (mst w')) 0 6 = dst_mac \<and>
        pkt_bytes (HEADER_LENGTH v) m' (mst w') = pkt_bytes 0 m (mst w))))"
    (is "oret _ ?Q")
proof -
  let ?n = "HEADER_LENGTH v" and ?port = "vt_ports st ! i"
  let ?c = "vt_flags st AND PG_VTEP_FORCE_UPD_IPV6_CHECKSUM \<noteq> 0"
  define m1 where "m1 = m\<lparr>data_off := data_off m - ?n, data_len := data_len m + ?n, pkt_len := pkt_len m + ?n\<rparr>"
  define w1 where "w1 = w\<lparr>mst := (mst w)\<lparr>mbufs := (mbufs (mst w))(p \<mapsto> m1)\<rparr>\<rparr>"
  define f where "f = pkt_bytes 0 m1 (mst w1)"
  have w1: "tunnel b p m1 st f w1"
    using assms(5) by (simp add: tunnel_def w1_def f_def state_at_def)
  have pre: "x_prepend x p ?n (mst w) = (Some (data_off m - ?n), mst w1)"
    using assms(1,3,4) by (simp add: dpdk_prepend_def w1_def m1_def)
  have final: "?Q (Some 0) (upd_mbuf p (vtep_meta x v) w')"
    if "tunnel b p m1 st' g w'"
      and ok: "header_ok v (vt_udp_dst_port_be st) (vp_vni ?port) (vt_ip st) dst_ip dst_mac f g"
      and ck: "cksum_ok ?c x v 14 (14 + ip_hdr_size v) g" for st' g w'
  proof -
    have "f (?n + k) = pkt_bytes 0 m (mst w) k" for k
      using assms(4) by (simp add: f_def pkt_bytes_def w1_def m1_def)
    from header_ok_read [OF that(1) ok this ck] show ?thesis by (simp add: Let_def m1_def)
  qed
  define f1 where "f1 = set_bytes (14 + ip_hdr_size v + 8) (le32 PG_VTEP_BE_I_FLAG @ le32 (vp_vni ?port)) f"
  define f2 where "f2 = set_bytes 0 (dst_mac @ vt_mac st @ le16 (PG_BE_ETHER_TYPE_IP v)) f1"
  have udp: "oret (obind (if ?c then udp_build_cksum v x p 14 (14 + ip_hdr_size v) (vt_udp_dst_port_be st) len seed w2
                          else udp_build p (14 + ip_hdr_size v) (vt_udp_dst_port_be st) len seed w2)
      (\<lambda>_ w. Ret (Some 0) (upd_mbuf p (vtep_meta x v) w))) ?Q"
    if "tunnel b p m1 st2 g1 w2" "same_outside 14 (ip_hdr_size v) f2 g1"
      "g1 (14 + ip_proto_off v) = PG_UDP_PROTOCOL_NUMBER" "bytes_at g1 (14 + ip_src_off v) (ip_size v) = vt_ip st"
      "bytes_at g1 (14 + ip_dst_off v) (ip_size v) = dst_ip" for len seed st2 g1 w2
    by (rule oret_obind, rule oret_mono [OF udp_build_ok [OF that(1)]], elim exE conjE, simp only: oret_simps,
        rule final, assumption, rule header_steps [OF that(2-5) [unfolded f2_def f1_def] _ _ dst(1) mac]; assumption)
  have eth: "oret (ethernet_build v p 0 (vt_mac st) dst_mac w2) (\<lambda>_. tunnel b p m1 st2 f2)"
    if "tunnel b p m1 st2 f1 w2" for st2 w2
    unfolding ethernet_build_def f2_def by (rule tunnel_put [OF that])
  have vx: "oret (vxlan_build p (14 + ip_hdr_size v + 8) (vp_vni ?port) w1) (\<lambda>_. tunnel b p m1 st f1)"
    unfolding vxlan_build_def f1_def by (rule tunnel_put [OF w1])
  have w1': "w\<lparr>mst := mst w1\<rparr> = w1" by (simp add: w1_def)
  have get: "get_mbuf p w = Ret m w" using assms(3) by (simp add: get_mbuf_def)
  show ?thesis
    unfolding vtep_header_prepend_def get pre Let_def obind.simps prod.case w1' option.case tunnel_get [OF w1]
      tunnel_get(4) [OF w1 i]
    by (rule oret_obind, rule oret_mono [OF vx],
        rule oret_obind, rule oret_mono [OF vtep_dst_ok [OF _ i mem learn]], assumption, assumption,
        elim conjE exE, simp only: tgt option.case prod.case,
        rule oret_obind, rule oret_mono [OF eth], assumption,
        rule oret_obind, rule oret_mono [OF ip_build_ok [OF _ ip dst(2)]], assumption,
        elim conjE exE, simp only: tunnel_get obind.simps, rule udp [unfolded Let_def]; assumption)
qed

definition prepend_ext :: ext where
  "prepend_ext = demo_ext\<lparr>x_prepend := (\<lambda>p n ms. case mbufs ms p of None \<Rightarrow> (None, ms)
     | Some m \<Rightarrow> if n \<le> data_off m
         then (Some (data_off m - n), ms\<lparr>mbufs := (mbufs ms)(p \<mapsto>
           m\<lparr>data_off := data_off m - n, data_len := data_len m + n, pkt_len := pkt_len m + n\<rparr>)\<rparr>)
         else (None, ms))\<rparr>"

definition demo_vtep :: vtep_state where
  "demo_vtep = \<lparr>vt_mac = [2, 0, 0, 0, 0, 1], vt_output = PG_EAST_SIDE, vt_udp_dst_port_be = 0xb512,
     vt_ports = [(zero_port IPV4)\<lparr>vp_vni := 0x100, vp_multicast_ip := [224, 0, 0, 5]\<rparr>],
     vt_packet_id = 0, vt_sum = 0, vt_flags = PG_VTEP_ALL_OPTI, vt_ip = [10, 0, 0, 1],
     vt_max_lifetime = DEFAULT_MAX_LIFETIME, vt_tick = 0\<rparr>"

text \<open>An endpoint of an IPv6 tunnel that has to compute checksums.\<close>

definition cksum_ext :: ext where
  "cksum_ext = prepend_ext\<lparr>x_eth := (x_eth prepend_ext)\<lparr>x_udptcp6_cksum := (\<lambda>f i j. ld16 f j + ld16 f (i + 22))\<rparr>\<rparr>"

definition demo_vtep6 :: vtep_state where
  "demo_vtep6 = demo_vtep\<lparr>vt_ports := [(zero_port IPV6)\<lparr>vp_vni := 0x100, vp_multicast_ip := 0xff # replicate 15 5\<rparr>],
     vt_flags := PG_VTEP_ALL_OPTI OR PG_VTEP_FORCE_UPD_IPV6_CHECKSUM, vt_ip := 0xfe # replicate 15 1\<rparr>"

theorem vtep_header_recognised_witness:
  "oret (vtep_header_prepend cksum_ext IPV6 0 0 1 None (place 0 (P_vtep demo_vtep6) demo_world)) (\<lambda>r w'.
     r = Some 0 \<and> (\<exists>m'. mbufs (mst w') 1 = Some m' \<and> data_off m' = 58 \<and>
       accepted cksum_ext IPV6 0xb512 UNIV (pkt_bytes 0 m' (mst w')) \<and> vx_vni IPV6 (pkt_bytes 14 m' (mst w')) = 0x100))"
proof -
  let ?w = "place 0 (P_vtep demo_vtep6) demo_world" and ?m = "demo_mbuf\<lparr>buf_addr := 1\<rparr>"
  have "dpdk_prepend cksum_ext" by (auto simp: dpdk_prepend_def cksum_ext_def prepend_ext_def)
  moreover have "mbufs (mst ?w) 1 = Some ?m" by (simp add: demo_world_def)
  moreover have flags: "vt_flags demo_vtep6 AND PG_VTEP_FORCE_UPD_IPV6_CHECKSUM \<noteq> 0"
      "can_learn demo_vtep6 (vt_ports demo_vtep6 ! 0)"
    by (simp_all add: can_learn_def demo_vtep6_def PG_VTEP_ALL_OPTI_def PG_VTEP_NO_COPY_def PG_VTEP_NO_INNERMAC_CHECK_def
        PG_VTEP_FORCE_UPD_IPV6_CHECKSUM_def)
  moreover have "HEADER_LENGTH IPV6 \<le> data_off ?m" "data_off ?m - HEADER_LENGTH IPV6 = 58" "x_malloc_ok cksum_ext n" for n
    by (simp_all add: HEADER_LENGTH_def headers_size_def demo_mbuf_def cksum_ext_def prepend_ext_def demo_ext_def)
  moreover have st: "vt_udp_dst_port_be demo_vtep6 = 0xb512" "vp_vni (vt_ports demo_vtep6 ! 0) = 0x100"
      "length (vt_mac demo_vtep6) = 6" "length (vt_ip demo_vtep6) = ip_size IPV6" "0 < length (vt_ports demo_vtep6)"
      "vtep_target IPV6 (vt_ports demo_vtep6 ! 0) None = ([0x33, 0x33, 5, 5, 5, 5], 0xff # replicate 15 5)"
    by (simp_all add: demo_vtep6_def demo_vtep_def pg_multicast_get_dst_addr6_def numeral_eq_Suc)
  ultimately show ?thesis
    by (intro oret_mono [OF vtep_header_recognised [where st = demo_vtep6 and m = ?m
          and dst_mac = "[0x33, 0x33, 5, 5, 5, 5]" and dst_ip = "0xff # replicate 15 5"]])
       (auto simp: Let_def)
qed

section \<open>A port without a network identifier\<close>

text \<open>The first port is linked but has no VNI; one packet of VNI 0 comes from outside.\<close>

definition stray_packet :: "ip_version \<Rightarrow> vtep_state \<Rightarrow> (nat \<Rightarrow> u8) \<Rightarrow> bool" where
  "stray_packet v st hdr \<longleftrightarrow>
     is_vxlan v (vt_udp_dst_port_be st) hdr \<and> ld16 hdr (ip_hdr_size v + 6) = 0 \<and> vx_vni v hdr = 0"

text \<open>\<open>rte_pktmbuf_adj\<close>: it removes bytes at the start of a packet that has enough of them.\<close>

definition dpdk_adj :: "ext \<Rightarrow> bool" where
  "dpdk_adj x \<longleftrightarrow>
     (\<forall>p n ms m. mbufs ms p = Some m \<longrightarrow>
        x_adj x p n ms =
          (if n \<le> data_len m
           then (True, ms\<lparr>mbufs := (mbufs ms)(p \<mapsto>
             m\<lparr>data_off := data_off m + n, data_len := data_len m - n, pkt_len := pkt_len m - n\<rparr>)\<rparr>)
           else (False, ms)))"

text \<open>
  C36. A single VXLAN packet of network 0 with the UDP port of the endpoint and a zero UDP
  checksum, which comes in on the tunnel side, brings a process down that has an endpoint with
  all optimisations on whose first port is linked but not yet given a network: the identifier of
  such a port is 0, so the packet is taken to be for it, and learning its sender stores through
  the null pointer of a table that was never initialised. \<open>''null table''\<close> is the end of the model
  that only this store has.
\<close>

theorem vtep_stray_packet_crashes:
  fixes v :: ip_version
  assumes "bricks w b = Some br" and "priv_state br = P_vtep st" and "vt_flags st = PG_VTEP_ALL_OPTI"
    and "vt_ports st \<noteq> []" and "hd (vt_ports st) = zero_port v"
    and "0 < side_nb (sides br (pg_flip_side (vt_output st)))"
    and "arrays w a = Some f" and "j < 64" and "mbufs (mst w) (f j) = Some m"
    and "stray_packet v st (pkt_bytes (l2_len m) m (mst w))" and "dpdk_adj x"
  shows "vtep_burst v x brst b (vt_output st) i a (push_bit j 1) w = Abort ''null table''"
proof -
  define st1 where "st1 = st\<lparr>vt_tick := vt_tick st + 1\<rparr>"
  define w1 where "w1 = upd_priv b (on_vtep (\<lambda>st. st\<lparr>vt_tick := vt_tick st + 1\<rparr>)) w"
  define hdr where "hdr = (buf_addr m, data_off m + l2_len m)"
  define nb where "nb = side_nb (sides br (pg_flip_side (vt_output st)))"
  have tick: "upd_vtep b (\<lambda>st. st\<lparr>vt_tick := vt_tick st + 1\<rparr>) w = Ret () w1"
    using assms(1,2) by (simp add: upd_vtep_def w1_def state_at_def)
  have st1: "state_at st_vtep w1 b = Some st1"
    unfolding w1_def st1_def
    by (subst state_at_upd_priv [where g = "\<lambda>st. st\<lparr>vt_tick := vt_tick st + 1\<rparr>"])
       (use assms(1,2) in \<open>simp_all add: state_at_def\<close>)
  obtain br1 where br1: "get_brick b w1 = Ret br1 w1" "sides br1 = sides br"
    using assms(1) by (simp add: get_brick_def w1_def upd_priv_def bricks_upd_brick)
  have w1: "arrays w1 a = Some f" "mbufs (mst w1) (f j) = Some m"
      "deref hdr w1 = pkt_bytes (l2_len m) m (mst w)"
    using assms(7,9) by (simp_all add: w1_def deref_def hdr_def pkt_bytes_def fun_eq_iff)
  let ?hdr = "pkt_bytes (l2_len m) m (mst w)"
  have vx: "is_vxlan v (vt_udp_dst_port_be st) ?hdr" "ld16 ?hdr (ip_hdr_size v + 6) = 0" "vx_vni v ?hdr = 0"
    using assms(10) by (simp_all add: stray_packet_def)
  define M where "M = (push_bit j 1 :: u64)"
  have M: "2 ^ j = M" "pg_foreach_bit M = [j]" "M \<noteq> 0"
    using assms(8) foreach_one by (auto simp: M_def)
  obtain cl where cl: "classify_pkts x v (vt_udp_dst_port_be st) a M w1 = Ret cl w1"
      "cl_computed cl = M" "cl_hdrs cl j = hdr"
    using w1 vx by (simp add: classify_pkts_def M classify_pkt_def get_pkts_def get_mbuf_def Let_def flip: hdr_def)
  have port: "get_port b 0 w2 = Ret (zero_port v) w2" if "bricks w2 = bricks w1" for w2
    using st1 assms(4,5) by (simp add: get_port_def state_at_data [OF that] st1_def hd_conv_nth)
  have fix0: "fix_dead_tables x b 0 w1 = Ret 0 w1"
    by (simp add: fix_dead_tables_def port are_mac_tables_dead_def zero_port_def)
  obtain ok ms m1 where adj: "x_adj x (f j) (l2_len m + headers_size v) (mst w1) = (ok, ms)" "mbufs ms (f j) = Some m1"
    using assms(11) w1(2) by (cases "l2_len m + headers_size v \<le> data_len m") (auto simp: dpdk_adj_def)
  have vni: "check_vni_pkts x v 0 a (cl_hdrs cl) M w1 = Ret M (w1\<lparr>mst := ms\<rparr>)"
    using w1 vx cl by (simp add: check_vni_pkts_def M check_vni_round_def vtep_adj_def get_pkts_def get_mbuf_def adj)
  have "add_dst_iner_macs x v b 0 a (cl_eths cl) (cl_hdrs cl) M (w1\<lparr>mst := ms\<rparr>) = Abort ''null table''"
    using w1 st1 adj(2) port [of "w1\<lparr>mst := ms\<rparr>"] state_at_data [of "w1\<lparr>mst := ms\<rparr>" w1 st_vtep]
    by (simp add: add_dst_iner_macs_def M learn_dst_def get_pkts_def set_mac_to_dst_def mac_mem_set_def
         zero_port_def Let_def mtod_def get_mbuf_def)
  moreover have "[0..<nb] = 0 # [1..<nb]" using assms(6) by (simp add: nb_def upt_rec)
  ultimately show ?thesis
    unfolding vtep_burst_def tick
    using st1 br1 cl fix0 vni port [of w1] assms(3) M(3)
    by (auto simp: st1_def from_vtep_def decapsulate_simple_def M nb_def zero_port_def)
qed

definition stray_brick :: pg_brick where
  "stray_brick = \<lparr>burst = Some vtep4_burst_fn, poll = None, ops = 0, refcount = 2, brick_name = ''demo'',
     brick_type = PG_MULTIPOLE, sides = (\<lambda>_. zero_side\<lparr>side_nb := 1\<rparr>),
     priv_state = P_vtep (demo_vtep\<lparr>vt_ports := [zero_port IPV4]\<rparr>)\<rparr>"

definition stray_world :: world where
  "stray_world = demo_world\<lparr>bricks := [0 \<mapsto> stray_brick], mst := (mst demo_world)\<lparr>bufs := (\<lambda>_ k.
     if k = 151 then 17 else if k = 164 then 0x12 else if k = 165 then 0xb5 else if k = 170 then 8 else 0)\<rparr>\<rparr>"

definition adj_ext :: ext where
  "adj_ext = demo_ext\<lparr>x_adj := (\<lambda>p n ms. case mbufs ms p of None \<Rightarrow> (False, ms)
     | Some m \<Rightarrow> if n \<le> data_len m
         then (True, ms\<lparr>mbufs := (mbufs ms)(p \<mapsto>
           m\<lparr>data_off := data_off m + n, data_len := data_len m - n, pkt_len := pkt_len m - n\<rparr>)\<rparr>)
         else (False, ms))\<rparr>"

theorem vtep_stray_packet_crashes_witness:
  "vtep_burst IPV4 adj_ext (\<lambda>_ _ _ _ _ w. Ret 0 w) 0 PG_EAST_SIDE 0 (Arr 0) 1 stray_world = Abort ''null table''"
proof -
  let ?st = "demo_vtep\<lparr>vt_ports := [zero_port IPV4]\<rparr>" and ?m = "demo_mbuf\<lparr>buf_addr := 1\<rparr>"
  have "stray_packet IPV4 ?st (pkt_bytes (l2_len ?m) ?m (mst stray_world))"
    by (simp add: stray_packet_def is_vxlan_def vx_vni_def pkt_bytes_def stray_world_def demo_mbuf_def demo_vtep_def
        ld16_def ld32_def PG_VTEP_BE_I_FLAG_def PG_CPU_TO_BE_32_def PG_CPU_TO_BE_16_def)
  moreover have "dpdk_adj adj_ext" by (auto simp: dpdk_adj_def adj_ext_def)
  ultimately show ?thesis
    using vtep_stray_packet_crashes [of stray_world 0 stray_brick ?st IPV4 "Arr 0" Suc 0 ?m adj_ext
        "\<lambda>_ _ _ _ _ w. Ret 0 w" 0]
    by (simp add: stray_world_def stray_brick_def demo_vtep_def) (simp add: demo_world_def)
qed

end
