(* ===== verification/PG_Printer.thy ===== *)
theory PG_Printer
  imports PG_Net
begin

text \<open>
  The text of a packet, \<open>src/printer.c\<close>. Each \<open>print_proto_...\<close> gives the text it writes to the
  file; \<open>data\<close> is the memory from a pointer on and \<open>sz\<close> the \<open>size_t\<close> with its wrap-around. The
  headers of IPv6 extensions call \<open>print_l4\<close> again and VLAN tags call \<open>print_l3\<close>, with nothing
  that bounds either recursion, so both take fuel and \<open>None\<close> says that it ran out.
\<close>

section \<open>Formats\<close>

definition hex_digit :: "nat \<Rightarrow> char" where
  "hex_digit n = (if n < 10 then char_of (48 + n) else char_of (87 + n))"

definition hex2 :: "u8 \<Rightarrow> string" where
  "hex2 b = [hex_digit (unat b div 16), hex_digit (unat b mod 16)]"

definition hex4 :: "u16 \<Rightarrow> string" where
  "hex4 v = hex2 (ucast (drop_bit 8 v)) @ hex2 (ucast v)"

definition be16toh :: "u16 \<Rightarrow> u16" where
  "be16toh v = PG_CPU_TO_BE_16 v"

fun mac_str :: "u8 list \<Rightarrow> string" where
  "mac_str [] = []"
| "mac_str [b] = hex2 b"
| "mac_str (b # bs) = hex2 b @ '':'' @ mac_str bs"

definition port_str :: "(nat \<Rightarrow> u8) \<Rightarrow> string" where
  "port_str data = ''sport='' @ nat_str (unat (be16toh (ld16 data 0))) @ '' dport='' @
     nat_str (unat (be16toh (ld16 data 2))) @ '']''"

section \<open>Layer 4\<close>

type_synonym printer = "u8 \<Rightarrow> (nat \<Rightarrow> u8) \<Rightarrow> u64 \<Rightarrow> string option"

definition print_proto_tcp :: "(nat \<Rightarrow> u8) \<Rightarrow> u64 \<Rightarrow> string" where
  "print_proto_tcp data sz = (if sz < 20 then [] else '' [tcp '' @ port_str data)"

definition print_proto_udp :: "(nat \<Rightarrow> u8) \<Rightarrow> u64 \<Rightarrow> string" where
  "print_proto_udp data sz = (if sz < 8 then [] else '' [udp '' @ port_str data)"

text \<open>\<open>header_size\<close> of an extension header: a product kept in 8 bits.\<close>

definition ext_header_size :: "(nat \<Rightarrow> u8) \<Rightarrow> u8" where
  "ext_header_size data = (data 1 + 1) * 8"

text \<open>The call of \<open>print_l4\<close> behind a header of \<open>header_size\<close> bytes.\<close>

definition print_next :: "printer \<Rightarrow> string \<Rightarrow> (nat \<Rightarrow> u8) \<Rightarrow> u64 \<Rightarrow> u8 \<Rightarrow> string option" where
  "print_next l4 txt data sz header_size =
     map_option (append txt) (l4 (data 0) (\<lambda>i. data (unat header_size + i)) (sz - ucast header_size))"

definition print_proto_ipv6_ext_hbh :: "printer \<Rightarrow> (nat \<Rightarrow> u8) \<Rightarrow> u64 \<Rightarrow> string option" where
  "print_proto_ipv6_ext_hbh l4 data sz =
     (if sz < ucast (ext_header_size data) then Some []
      else print_next l4 '' [ext Hop-by-Hop]'' data sz (ext_header_size data))"

definition print_proto_ipv6_ext_routing :: "printer \<Rightarrow> (nat \<Rightarrow> u8) \<Rightarrow> u64 \<Rightarrow> string option" where
  "print_proto_ipv6_ext_routing l4 data sz =
     (if sz < 16 then Some [] else print_next l4 '' [ext Routing]'' data sz (ext_header_size data))"

definition print_proto_ipv6_ext_fragment :: "printer \<Rightarrow> (nat \<Rightarrow> u8) \<Rightarrow> u64 \<Rightarrow> string option" where
  "print_proto_ipv6_ext_fragment l4 data sz =
     (if sz < 8 then Some [] else print_next l4 '' [ext Fragment]'' data sz 8)"

definition print_proto_ipv6_ext_destination :: "printer \<Rightarrow> (nat \<Rightarrow> u8) \<Rightarrow> u64 \<Rightarrow> string option" where
  "print_proto_ipv6_ext_destination l4 data sz =
     (if sz < ucast (ext_header_size data) then Some []
      else print_next l4 '' [ext Destination]'' data sz (ext_header_size data))"

definition print_proto_ipv6_ext_mobility :: "printer \<Rightarrow> (nat \<Rightarrow> u8) \<Rightarrow> u64 \<Rightarrow> string option" where
  "print_proto_ipv6_ext_mobility l4 data sz =
     (if sz < 8 then Some [] else print_next l4 '' [ext Fragment]'' data sz 8)"

primrec print_l4 :: "nat \<Rightarrow> u8 \<Rightarrow> (nat \<Rightarrow> u8) \<Rightarrow> u64 \<Rightarrow> string option" where
  "print_l4 0 type data sz = None"
| "print_l4 (Suc n) type data sz =
     (if type = 6 then Some (print_proto_tcp data sz)
      else if type = 17 then Some (print_proto_udp data sz)
      else if type = 1 then Some '' [icmp]''
      else if type = 58 then Some '' [icmpv6]''
      else if type = 2 then Some '' [igmp]''
      else if type = 0x00 then print_proto_ipv6_ext_hbh (print_l4 n) data sz
      else if type = 0x2b then print_proto_ipv6_ext_routing (print_l4 n) data sz
      else if type = 0x2c then print_proto_ipv6_ext_fragment (print_l4 n) data sz
      else if type = 0x32 then Some '' [ext ESP]''
      else if type = 0x33 then Some '' [ext AH]''
      else if type = 0x3c then print_proto_ipv6_ext_destination (print_l4 n) data sz
      else if type = 0x87 then print_proto_ipv6_ext_mobility (print_l4 n) data sz
      else if type = 0x70 then Some '' [vrrp]''
      else Some ('' [type=0x'' @ hex2 type @ '']''))"

section \<open>Layer 3\<close>

definition print_proto_ip :: "ext \<Rightarrow> nat \<Rightarrow> (nat \<Rightarrow> u8) \<Rightarrow> u64 \<Rightarrow> string option" where
  "print_proto_ip x n data sz =
     map_option (append ('' [ip src='' @ x_inet_ntop (x_os x) (bytes_at data 12 4) @ '' dst='' @
       x_inet_ntop (x_os x) (bytes_at data 16 4) @ '']''))
       (print_l4 n (data 9) (\<lambda>i. data (20 + i)) (sz - 20))"

definition print_proto_ipv6 :: "ext \<Rightarrow> nat \<Rightarrow> (nat \<Rightarrow> u8) \<Rightarrow> u64 \<Rightarrow> string option" where
  "print_proto_ipv6 x n data sz =
     map_option (append ('' [ipv6 src='' @ x_inet_ntop (x_os x) (bytes_at data 8 16) @ '' dst='' @
       x_inet_ntop (x_os x) (bytes_at data 24 16) @ '']''))
       (print_l4 n (data 6) (\<lambda>i. data (40 + i)) (sz - 40))"

text \<open>The bit fields of \<open>vlan_802_1q\<close>: 3, 1 and 12 bits from the lowest on.\<close>

definition vlan_pcp :: "(nat \<Rightarrow> u8) \<Rightarrow> nat" where
  "vlan_pcp data = unat (ld16 data 0) mod 8"

definition vlan_cfi :: "(nat \<Rightarrow> u8) \<Rightarrow> nat" where
  "vlan_cfi data = unat (ld16 data 0) div 8 mod 2"

definition vlan_vid :: "(nat \<Rightarrow> u8) \<Rightarrow> nat" where
  "vlan_vid data = unat (ld16 data 0) div 16"

definition prio_names :: "string list" where
  "prio_names = [''best effort'', ''background'', ''excellent effort'', ''critical application'', ''video'',
     ''voice'', ''internetwork control'', ''network control'']"

definition vlan_text :: "(nat \<Rightarrow> u8) \<Rightarrow> string" where
  "vlan_text data = '' [vlan prio='' @ [CHR 0x27] @ prio_names ! vlan_pcp data @ [CHR 0x27] @ '' drop='' @
     nat_str (vlan_cfi data) @ '' id='' @ nat_str (vlan_vid data) @ '']''"

primrec print_l3 :: "nat \<Rightarrow> ext \<Rightarrow> u16 \<Rightarrow> (nat \<Rightarrow> u8) \<Rightarrow> u64 \<Rightarrow> string option" where
  "print_l3 0 x type data sz = None"
| "print_l3 (Suc n) x type data sz =
     (let t = be16toh type in
      if t = 0x0800 then print_proto_ip x n data sz
      else if t = 0x86DD then print_proto_ipv6 x n data sz
      else if t = 0x0806 then Some '' [arp]''
      else if t = 0x8100 then
        map_option (append (vlan_text data)) (print_l3 n x (ld16 data 2) (\<lambda>i. data (4 + i)) (sz - 4))
      else Some ('' [ethertype='' @ hex4 t @ '']''))"

definition print_proto_eth :: "ext \<Rightarrow> nat \<Rightarrow> (nat \<Rightarrow> u8) \<Rightarrow> u64 \<Rightarrow> string option" where
  "print_proto_eth x n data sz =
     map_option (append ('' [eth src='' @ mac_str (ether_src data) @ '' dst='' @ mac_str (ether_dst data) @ '']''))
       (print_l3 n x (ld16 data 12) (\<lambda>i. data (14 + i)) (sz - 14))"

definition print_summary :: "ext \<Rightarrow> nat \<Rightarrow> (nat \<Rightarrow> u8) \<Rightarrow> u64 \<Rightarrow> string option" where
  "print_summary x n data sz = map_option (\<lambda>t. t @ [CHR 0x0A]) (print_proto_eth x n data sz)"

section \<open>Raw data\<close>

definition raw_char :: "u8 \<Rightarrow> char" where
  "raw_char c = (if c < 0x20 \<or> c > 0x7d then CHR 0x2E else char_of (unat c))"

definition raw_gap :: "nat \<Rightarrow> string" where
  "raw_gap i = (if i mod 2 = 1 then '' '' else [])"

text \<open>One line: the bytes from \<open>start\<close> up to \<open>fin\<close>, of \<open>sz\<close> in all.\<close>

definition raw_line :: "(nat \<Rightarrow> u8) \<Rightarrow> nat \<Rightarrow> nat \<Rightarrow> nat \<Rightarrow> string" where
  "raw_line data sz start fin =
     hex4 (word_of_nat start) @ ''.  '' @
     concat (map (\<lambda>i. hex2 (data i) @ raw_gap i) [start..<fin]) @
     (if fin = sz then concat (map (\<lambda>i. ''  '' @ raw_gap i) [0..<16 - sz mod 16]) @ raw_gap sz else []) @
     ''  '' @ map (\<lambda>i. raw_char (data i)) [start..<fin] @ [CHR 0x0A]"

function print_raw_from :: "(nat \<Rightarrow> u8) \<Rightarrow> nat \<Rightarrow> nat \<Rightarrow> string" where
  "print_raw_from data sz start =
     (if start < sz then
        let fin = (if sz \<le> start + 16 then sz else start + 16) in
        raw_line data sz start fin @ print_raw_from data sz fin
      else [])"
  by pat_completeness auto
termination
  by (relation "measure (\<lambda>(data, sz, start). sz - start)") auto

declare print_raw_from.simps [simp del]

definition print_raw :: "(nat \<Rightarrow> u8) \<Rightarrow> nat \<Rightarrow> string" where
  "print_raw data sz = print_raw_from data sz 0"

section \<open>A packet whose text never ends\<close>

text \<open>
  C37. A hop-by-hop header whose length field is 31 is taken to be 0 bytes long, because 256 is
  kept in 8 bits. If its next header is again hop-by-hop, the printer comes back to the same
  header for ever: no amount of fuel is enough for the summary of such a packet.
\<close>

theorem print_summary_never_ends:
  assumes "ld16 data 12 = PG_BE_ETHER_TYPE_IPv6" and "data 20 = 0" and "data 54 = 0" and "data 55 = 31"
  shows "print_summary x n data sz = None"
proof -
  have l4: "print_l4 k 0 d s = None" if "d 0 = 0" "d 1 = 31" for k d s
    using that
  proof (induction k arbitrary: s)
    case (Suc k)
    then have "print_proto_ipv6_ext_hbh (print_l4 k) d s = None"
      by (simp add: print_proto_ipv6_ext_hbh_def print_next_def ext_header_size_def)
    then show ?case by simp
  qed simp
  have "print_l3 n x PG_BE_ETHER_TYPE_IPv6 (\<lambda>i. data (14 + i)) s = None" for s
  proof (cases n)
    case (Suc k)
    have "be16toh PG_BE_ETHER_TYPE_IPv6 = 0x86DD"
      by (simp add: be16toh_def PG_BE_ETHER_TYPE_IPv6_def ETHER_TYPE_IPv6_def PG_CPU_TO_BE_16_def)
    then show ?thesis
      using Suc assms l4 [of "\<lambda>i. data (54 + i)" k] by (simp add: print_proto_ipv6_def)
  qed simp
  then show ?thesis by (simp add: print_summary_def print_proto_eth_def assms(1))
qed

theorem print_summary_never_ends_witness:
  "\<forall>n. print_summary demo_ext n (\<lambda>i. if i = 12 then 0x86 else if i = 13 then 0xDD else if i = 55 then 31 else 0) 100 =
     None"
  by (intro allI, rule print_summary_never_ends)
     (simp_all add: ld16_def PG_BE_ETHER_TYPE_IPv6_def ETHER_TYPE_IPv6_def PG_CPU_TO_BE_16_def)

end
