(* ===== verification/PG_Print.thy ===== *)
theory PG_Print
  imports PG_Relay PG_Net PG_Printer
begin

text \<open>
  The print brick, \<open>src/print.c\<close>: it writes the packets it sees to a file, as text or in pcap
  format, and passes them on. Consecutive calls of \<open>fprintf\<close> are one call with all their text.
  \<open>n\<close> is the fuel of the summary of a packet and of the walk over its segments; one that does
  not end is \<open>Diverge\<close>.
\<close>

definition PCAP_SNAPSHOT_LEN :: nat where "PCAP_SNAPSHOT_LEN = 65535"

definition PG_PRINT_FLAG_SUMMARY :: u32 where "PG_PRINT_FLAG_SUMMARY = 1"
definition PG_PRINT_FLAG_TIMESTAMP :: u32 where "PG_PRINT_FLAG_TIMESTAMP = 2"
definition PG_PRINT_FLAG_SIZE :: u32 where "PG_PRINT_FLAG_SIZE = 4"
definition PG_PRINT_FLAG_BRICK :: u32 where "PG_PRINT_FLAG_BRICK = 8"
definition PG_PRINT_FLAG_RAW :: u32 where "PG_PRINT_FLAG_RAW = 16"
definition PG_PRINT_FLAG_PCAP :: u32 where "PG_PRINT_FLAG_PCAP = 32"
definition PG_PRINT_FLAG_CLOSE_FILE :: u32 where "PG_PRINT_FLAG_CLOSE_FILE = 64"

definition stdout_file :: nat where "stdout_file = 1"

fun st_print :: "priv \<Rightarrow> pg_print_state option" where
  "st_print (P_print st) = Some st"
| "st_print _ = None"

fun on_print :: "(pg_print_state \<Rightarrow> pg_print_state) \<Rightarrow> priv \<Rightarrow> priv" where
  "on_print f (P_print st) = P_print (f st)"
| "on_print f p = p"

definition pg_print_config_new :: "string \<Rightarrow> nat option \<Rightarrow> u32 \<Rightarrow> u16 list option \<Rightarrow> pg_brick_config" where
  "pg_print_config_new nm output flags type_filter =
     pg_brick_config_init (Some (C_print output flags type_filter)) nm 1 1 PG_DIPOLE"

text \<open>The filter ends with the first 0.\<close>

definition should_skip :: "u16 list option \<Rightarrow> (nat \<Rightarrow> u8) \<Rightarrow> bool" where
  "should_skip type_filter eth =
     (case type_filter of None \<Rightarrow> False | Some ts \<Rightarrow> ld16 eth 12 \<in> set (takeWhile (\<lambda>t. t \<noteq> 0) ts))"

text \<open>
  \<open>calculate_timestamp\<close>, with the quotient of the C \<open>double\<close>s rounded down; \<open>10e6\<close> is ten
  million. \<open>timeradd\<close> carries one second.
\<close>

definition timeradd :: "nat \<times> nat \<Rightarrow> nat \<times> nat \<Rightarrow> nat \<times> nat" where
  "timeradd a b =
     (let s = fst a + fst b; u = snd a + snd b in if 1000000 \<le> u then (s + 1, u - 1000000) else (s, u))"

definition calculate_timestamp :: "pg_print_state \<Rightarrow> u64 \<Rightarrow> nat \<times> nat" where
  "calculate_timestamp st now =
     (let cycles = unat (now - pr_start_cycles st); hz = unat (pr_hz st) in
      timeradd (pr_start_date st) (cycles div hz, (cycles mod hz) * 10000000 div hz))"

text \<open>
  The segments of a packet are copied one after the other into \<open>print_data\<close>, a buffer that keeps
  its contents from one packet to the next.
\<close>

definition copy_seg :: "nat \<Rightarrow> nat \<Rightarrow> (nat \<Rightarrow> u8) \<Rightarrow> (nat \<Rightarrow> u8) \<Rightarrow> nat \<Rightarrow> u8" where
  "copy_seg off len data buf = (\<lambda>k. if off \<le> k \<and> k < off + len then data (k - off) else buf k)"

primrec copy_segs :: "nat \<Rightarrow> nat option \<Rightarrow> nat \<Rightarrow> world \<Rightarrow> (unit, world) out" where
  "copy_segs 0 seg off w = Diverge"
| "copy_segs (Suc n) seg off w =
     (case seg of None \<Rightarrow> Ret () w
      | Some p \<Rightarrow>
          obind (get_mbuf p w) (\<lambda>m w.
          obind (mtod p w) (\<lambda>data w.
          if PCAP_SNAPSHOT_LEN < off + data_len m then Abort ''print_data + data_len''
          else
            obind (Ret () (w\<lparr>glob := (glob w)\<lparr>print_data := copy_seg off (data_len m) data (print_data (glob w))\<rparr>\<rparr>)) (\<lambda>_ w.
            copy_segs n (seg_next m) (off + data_len m) w))))"

definition print_pcap :: "nat \<Rightarrow> ext \<Rightarrow> nat \<Rightarrow> nat \<Rightarrow> world \<Rightarrow> (unit, world) out" where
  "print_pcap n x b p w =
     obind (get_state st_print b w) (\<lambda>st w.
     obind (get_mbuf p w) (\<lambda>m w.
     if pr_hz st = 0 then Abort ''division by zero''
     else
       let ts = calculate_timestamp st (x_timer_cycles (x_os x) (mst w)) in
       if PCAP_SNAPSHOT_LEN < pkt_len m then Ret () w
       else if nb_segs m = 1 then
         obind (mtod p w) (\<lambda>data w.
         call_out x (pcap_dump (pr_dumper st) ts (pkt_len m) (bytes_at data 0 (pkt_len m))) w)
       else
         obind (copy_segs n (Some p) 0 w) (\<lambda>_ w.
         call_out x (pcap_dump (pr_dumper st) ts (pkt_len m) (bytes_at (print_data (glob w)) 0 (pkt_len m))) w)))"

text \<open>The text in front of the summary of a packet.\<close>

definition print_prefix :: "u32 \<Rightarrow> pg_side \<Rightarrow> string \<Rightarrow> nat \<Rightarrow> nat \<Rightarrow> string" where
  "print_prefix flags from nm diff sz =
     (if flags AND PG_PRINT_FLAG_BRICK \<noteq> 0 then
        (if from = PG_WEST_SIDE then ''-->['' @ nm @ '']'' else ''['' @ nm @ '']<--'') else []) @
     (if flags AND PG_PRINT_FLAG_TIMESTAMP \<noteq> 0 then '' [time='' @ nat_str diff @ '']'' else []) @
     (if flags AND PG_PRINT_FLAG_SIZE \<noteq> 0 then '' [size='' @ nat_str sz @ '']'' else [])"

definition print_packet ::
    "nat \<Rightarrow> ext \<Rightarrow> nat \<Rightarrow> pg_side \<Rightarrow> nat \<Rightarrow> arr \<Rightarrow> nat \<Rightarrow> world \<Rightarrow> (unit, world) out" where
  "print_packet n x b from diff pkts i w =
     obind (get_state st_print b w) (\<lambda>st w.
     obind (get_brick b w) (\<lambda>br w.
     obind (get_pkts pkts w) (\<lambda>f w.
     if pr_flags st AND PG_PRINT_FLAG_PCAP \<noteq> 0 then print_pcap n x b (f i) w
     else
       obind (get_mbuf (f i) w) (\<lambda>m w.
       obind (mtod (f i) w) (\<lambda>data w.
       if should_skip (pr_type_filter st) data then Ret () w
       else
         obind (call_out x (fprintf (pr_output st) (print_prefix (pr_flags st) from (brick_name br) diff (data_len m))) w) (\<lambda>_ w.
         obind (if pr_flags st AND PG_PRINT_FLAG_SUMMARY \<noteq> 0 then
                  (case print_summary x n data (word_of_nat (data_len m)) of
                     None \<Rightarrow> Diverge
                   | Some txt \<Rightarrow> call_out x (fprintf (pr_output st) txt) w)
                else Ret () w) (\<lambda>_ w.
         obind (if pr_flags st AND PG_PRINT_FLAG_RAW \<noteq> 0
                then call_out x (fprintf (pr_output st) (print_raw data (data_len m))) w else Ret () w) (\<lambda>_ w.
         call_out x (fprintf (pr_output st) [CHR 0x0A]) w))))))))"

definition usec :: "nat \<times> nat \<Rightarrow> u64" where
  "usec t = word_of_nat (fst t * 1000000 + snd t)"

definition print_burst ::
    "nat \<Rightarrow> ext \<Rightarrow> burster \<Rightarrow> nat \<Rightarrow> pg_side \<Rightarrow> nat \<Rightarrow> arr \<Rightarrow> u64 \<Rightarrow> world \<Rightarrow> (int, world) out" where
  "print_burst n x brst b from edge_index pkts pkts_mask w =
     obind (get_state st_print b w) (\<lambda>st w.
       let diff = (if pr_flags st AND PG_PRINT_FLAG_TIMESTAMP \<noteq> 0
                   then unat (usec (x_gettimeofday (x_os x) (mst w)) - usec (pr_start_date st)) else 0) in
       obind (ofold (print_packet n x b from diff pkts) (pg_foreach_bit pkts_mask) w) (\<lambda>_ w.
       burst_edge brst b (pg_flip_side from) from pkts pkts_mask w))"

definition print_init :: "ext \<Rightarrow> nat \<Rightarrow> pg_brick_config \<Rightarrow> world \<Rightarrow> (int, world) out" where
  "print_init x b config w =
     (case brick_config config of
        Some (C_print output flags type_filter) \<Rightarrow>
          obind (Ret () (set_burst b print_burst_fn w)) (\<lambda>_ w.
          let out_file = (case output of None \<Rightarrow> stdout_file | Some f \<Rightarrow> f) in
          obind (Ret () (upd_priv b (on_print (\<lambda>st. st\<lparr>pr_output := out_file, pr_flags := flags, pr_dumper := None\<rparr>)) w)) (\<lambda>_ w.
          obind (if flags AND PG_PRINT_FLAG_PCAP = 0 then Ret None w
                 else
                   obind (let (r, ms) = x_pcap_open_dead (x_os x) (mst w) in Ret r (w\<lparr>mst := ms\<rparr>)) (\<lambda>pcap w.
                   obind (Ret () (upd_priv b (on_print (\<lambda>st. st\<lparr>pr_pcap := pcap\<rparr>)) w)) (\<lambda>_ w.
                   case pcap of None \<Rightarrow> Ret (Some ''error initializing pcap'') w
                   | Some pcap \<Rightarrow>
                       obind (let (r, ms) = x_pcap_dump_fopen (x_os x) pcap out_file (mst w) in Ret r (w\<lparr>mst := ms\<rparr>)) (\<lambda>dumper w.
                       obind (Ret () (upd_priv b (on_print (\<lambda>st. st\<lparr>pr_dumper := dumper\<rparr>)) w)) (\<lambda>_ w.
                       if dumper = None then Ret (Some ''error when opening pcap file'') w
                       else
                         obind (Ret () (upd_priv b (on_print (\<lambda>st. st\<lparr>pr_start_cycles := x_timer_cycles (x_os x) (mst w),
                           pr_hz := x_timer_hz (x_os x) (mst w)\<rparr>)) w)) (\<lambda>_ w. Ret None w))))) ) (\<lambda>e w.
          case e of
            Some msg \<Rightarrow> Ret (-1) (set_err (pg_error_new msg []) w)
          | None \<Rightarrow>
              obind (Ret () (upd_priv b (on_print (\<lambda>st. st\<lparr>pr_start_date := x_gettimeofday (x_os x) (mst w),
                pr_type_filter := map_option (\<lambda>ts. takeWhile (\<lambda>t. t \<noteq> 0) ts @ [0]) type_filter\<rparr>)) w)) (\<lambda>_ w.
              if pg_error_is_set w then Ret (-1) w else Ret 0 w))))
      | _ \<Rightarrow> Abort ''config of another brick'')"

definition pg_print_new ::
    "brick_ops list \<Rightarrow> string \<Rightarrow> nat option \<Rightarrow> u32 \<Rightarrow> u16 list option \<Rightarrow> world \<Rightarrow> (nat option, world) out" where
  "pg_print_new reg nm output flags type_filter w =
     pg_brick_new reg (Some ''print'') (Some (pg_print_config_new nm output flags type_filter)) w"

definition pg_print_set_flags :: "nat \<Rightarrow> u32 \<Rightarrow> world \<Rightarrow> (unit, world) out" where
  "pg_print_set_flags b flags w =
     obind (get_state st_print b w) (\<lambda>_ w. Ret () (upd_priv b (on_print (\<lambda>st. st\<lparr>pr_flags := flags\<rparr>)) w))"

definition print_destroy :: "ext \<Rightarrow> nat \<Rightarrow> world \<Rightarrow> (unit, world) out" where
  "print_destroy x b w =
     obind (get_state st_print b w) (\<lambda>st w.
       if pr_flags st AND PG_PRINT_FLAG_PCAP \<noteq> 0 then
         obind (call_out x (pcap_dump_close (pr_dumper st)) w) (\<lambda>_ w.
         call_out x (pcap_close (pr_pcap st)) w)
       else if pr_flags st AND PG_PRINT_FLAG_CLOSE_FILE \<noteq> 0 then call_out x (fclose (pr_output st)) w
       else Ret () w)"

definition print_ops :: "ext \<Rightarrow> brick_ops" where
  "print_ops x = base_ops\<lparr>op_name := ''print'',
     op_zero := P_print \<lparr>pr_output = 0, pr_pcap = None, pr_dumper = None, pr_type_filter = None, pr_flags = 0,
       pr_start_date = (0, 0), pr_start_cycles = 0, pr_hz = 0\<rparr>,
     op_init := print_init x, op_destroy := Some (print_destroy x), op_unlink := True\<rparr>"

section \<open>Lemmas\<close>

lemma safe_step_print [simp]: "safe_step w (upd_priv b (on_print f) w)"
proof (rule safe_step_priv)
  fix br show "priv_step (priv_state br) (on_print f (priv_state br))"
    by (cases "priv_state br") (simp_all add: priv_step_def)
qed

lemma copy_segs_safe: "safe w (copy_segs n seg off w)"
proof (induction n arbitrary: seg off w)
  case (Suc n)
  show ?case unfolding copy_segs.simps by (intro safe_intros Suc; simp)
qed simp

text \<open>
  A packet in two segments is written in one piece: the bytes of the first segment and then those
  of the second, whatever the buffer held.
\<close>

lemma copy_two_segs:
  assumes "mbufs (mst w) p = Some m" and "seg_next m = Some q" and "mbufs (mst w) q = Some m'" and "seg_next m' = None"
    and "data_len m + data_len m' \<le> PCAP_SNAPSHOT_LEN"
  shows "oret (copy_segs (Suc (Suc (Suc n))) (Some p) 0 w) (\<lambda>_ w'. mst w' = mst w \<and>
    bytes_at (print_data (glob w')) 0 (data_len m + data_len m') =
      bytes_at (pkt_bytes 0 m (mst w)) 0 (data_len m) @ bytes_at (pkt_bytes 0 m' (mst w)) 0 (data_len m'))"
  using assms
  by (auto simp: get_mbuf_def mtod_def copy_seg_def bytes_at_def pkt_bytes_def intro!: nth_equalityI)
     (auto simp: nth_append)

lemma print_packet_safe: "safe w (print_packet n x b from diff a i w)"
  unfolding print_packet_def print_pcap_def by (intro safe_intros copy_segs_safe; simp)

lemma print_init_safe: "safe w (print_init x b c w)"
proof (cases "brick_config c")
  case (Some bc)
  show ?thesis
  proof (cases bc)
    case (C_print out fl ts)
    show ?thesis
      unfolding print_init_def Some C_print option.case bconf.case by (intro safe_intros; simp)
  qed (simp_all add: print_init_def Some)
qed (simp add: print_init_def)

lemma print_destroy_safe: "safe w (print_destroy x b w)"
  unfolding print_destroy_def by (intro safe_intros; simp)

context bursts
begin

lemma print_burst_safe: "safe w (print_burst n x brst b from i a m w)"
  unfolding print_burst_def by (intro safe_intros print_packet_safe burst_edge_safe; simp)

end

text \<open>
  The microseconds of a pcap timestamp are ten times too many: the fraction of a second that
  has passed is multiplied with ten million, so that after \<open>t\<close> tenths of a second, \<open>t\<close> at least
  2, the timestamp has at least as many microseconds as a second has.
\<close>

lemma print_timestamp_tenfold:
  assumes "pr_start_date st = (s, 0)" and "unat (now - pr_start_cycles st) = t * k" and "unat (pr_hz st) = 10 * k"
    and "2 \<le> t" and "t < 10" and "0 < k"
  shows "calculate_timestamp st now = (s + 1, (t - 1) * 1000000)"
proof -
  have "t * k mod (10 * k) = t * k" and "t * k div (10 * k) = 0"
    using assms(5,6) by simp_all
  moreover have "t * k * 10000000 div (10 * k) = t * 1000000"
    using assms(6) by (simp add: mult.commute [of t k] mult.assoc)
  ultimately show ?thesis
    using assms by (simp add: calculate_timestamp_def timeradd_def Let_def diff_mult_distrib)
qed

end
