(* ===== verification/PG_Registry.thy ===== *)
theory PG_Registry
  imports PG_Hub PG_Collect PG_Udp_Filter PG_Accumulator PG_Queue PG_Rxtx PG_Packetsgen PG_Switch
    PG_Antispoof PG_Firewall PG_Pmtud PG_Nic PG_Tap PG_Vhost PG_Vtep PG_Print
begin

text \<open>
  The library as a whole: \<open>pg_brick_burst\<close> and \<open>pg_brick_poll\<close> call the handlers of all the
  bricks, and \<open>pg_all_bricks\<close> is the list of registered operations. A burst runs through the
  graph by recursion, which does not end in a graph with a loop, so \<open>pg_brick_burst\<close> takes fuel:
  the number of bricks a burst may pass. Every handler keeps the links and the private states in
  order, so both locales of the library, \<open>bursts\<close> and \<open>brick_contract\<close>, hold of the real bricks.
\<close>

section \<open>Calling the handlers\<close>

definition run_burst ::
    "nat \<Rightarrow> ext \<Rightarrow> burster \<Rightarrow> burst_fn \<Rightarrow> nat \<Rightarrow> pg_side \<Rightarrow> nat \<Rightarrow> arr \<Rightarrow> u64 \<Rightarrow> world \<Rightarrow> (int, world) out" where
  "run_burst n x brst f b from i a m w =
     (case f of
        nop_burst_fn \<Rightarrow> nop_burst brst b from i a m w
      | diode_burst_fn \<Rightarrow> diode_burst brst b from i a m w
      | hub_burst_fn \<Rightarrow> hub_burst brst b from i a m w
      | hub_burst_one_side_fn \<Rightarrow> hub_burst_one_side brst b from i a m w
      | fail_burst_fn \<Rightarrow> fail_burst b from i a m w
      | user_dipole_burst_fn \<Rightarrow> user_dipole_burst x brst b from i a m w
      | collect_burst_fn \<Rightarrow> collect_burst x b from i a m w
      | udp_filter_burst_fn \<Rightarrow> udp_filter_burst brst b from i a m w
      | accumulator_burst_fn \<Rightarrow> accumulator_burst x brst b from i a m w
      | queue_burst_fn \<Rightarrow> queue_burst x b from i a m w
      | rxtx_burst_fn \<Rightarrow> rxtx_burst x b from i a m w
      | packetsgen_burst_fn \<Rightarrow> packetsgen_burst brst b from i a m w
      | switch_burst_fn \<Rightarrow> switch_burst n x brst b from i a m w
      | antispoof_burst_fn \<Rightarrow> antispoof_burst brst b from i a m w
      | pmtud_burst_fn \<Rightarrow> pmtud_burst x brst b from i a m w
      | firewall_burst_fn \<Rightarrow> firewall_burst x brst b from i a m w
      | nic_burst_fn \<Rightarrow> nic_burst x b from i a m w
      | nic_burst_no_offload_fn \<Rightarrow> nic_burst_no_offload x b from i a m w
      | tap_burst_fn \<Rightarrow> tap_burst x b from i a m w
      | vhost_burst_fn \<Rightarrow> vhost_burst x b from i a m w
      | vtep4_burst_fn \<Rightarrow> vtep_burst IPV4 x brst b from i a m w
      | vtep6_burst_fn \<Rightarrow> vtep_burst IPV6 x brst b from i a m w
      | print_burst_fn \<Rightarrow> print_burst n x brst b from i a m w)"

primrec pg_brick_burst :: "nat \<Rightarrow> ext \<Rightarrow> burster" where
  "pg_brick_burst 0 x brick from edge_index pkts pkts_mask w = Diverge"
| "pg_brick_burst (Suc n) x brick from edge_index pkts pkts_mask w =
     (case brick of None \<Rightarrow> Ret 0 w
      | Some b \<Rightarrow>
          obind (get_brick b w) (\<lambda>_ w.
          obind (Ret () (count_pkts b from pkts_mask w)) (\<lambda>_ w.
          obind (get_brick b w) (\<lambda>br w.
          case burst br of None \<Rightarrow> Abort ''null pointer''
          | Some f \<Rightarrow> run_burst n x (pg_brick_burst n x) f b from edge_index pkts pkts_mask w))))"

definition run_poll :: "nat \<Rightarrow> ext \<Rightarrow> burster \<Rightarrow> poll_fn \<Rightarrow> nat \<Rightarrow> nat \<Rightarrow> world \<Rightarrow> (int \<times> nat, world) out" where
  "run_poll n x brst f b c w =
     (case f of
        accumulator_poll_fn \<Rightarrow> accumulator_poll x brst b c w
      | queue_poll_fn \<Rightarrow> queue_poll x brst b c w
      | rxtx_poll_fn \<Rightarrow> rxtx_poll x brst b c w
      | packetsgen_poll_fn \<Rightarrow> packetsgen_poll x brst b c w
      | nic_poll_fn \<Rightarrow> nic_poll x brst b c w
      | tap_poll_fn \<Rightarrow> tap_poll n x brst b c w
      | vhost_poll_fn \<Rightarrow> vhost_poll x brst b c w)"

definition pg_brick_poll :: "nat \<Rightarrow> ext \<Rightarrow> nat option \<Rightarrow> nat \<Rightarrow> world \<Rightarrow> (int \<times> nat, world) out" where
  "pg_brick_poll n x brick c w =
     (case brick of None \<Rightarrow> Ret (-1, c) (set_err (pg_error_new ''Brick is NULL'' []) w)
      | Some b \<Rightarrow>
          obind (get_brick b w) (\<lambda>br w.
          case poll br of None \<Rightarrow> Ret (-1, c) (set_err (pg_error_new ''No poll callback'' []) w)
          | Some f \<Rightarrow> run_poll n x (pg_brick_burst n x) f b c w))"

definition pg_all_bricks :: "ext \<Rightarrow> burster \<Rightarrow> brick_ops list" where
  "pg_all_bricks x brst =
     [tap_ops x, rxtx_ops x, packetsgen_ops, udp_filter_ops, nop_ops, firewall_ops x, nic_ops x, hub_ops,
      user_dipole_ops, vtep_ops IPV4 x brst, diode_ops, queue_ops x, accumulator_ops, pmtud_ops x, fail_ops,
      collect_ops x, switch_ops x, antispoof_ops, vhost_ops x, vtep_ops IPV6 x brst, print_ops x]"

section \<open>All handlers keep the links\<close>

lemma run_burst_safe:
  assumes "bursts brst"
  shows "safe w (run_burst n x brst f b from i a m w)"
proof -
  note h = bursts.nop_burst_safe bursts.diode_burst_safe bursts.hub_burst_safe bursts.hub_burst_one_side_safe
    bursts.user_dipole_burst_safe bursts.udp_filter_burst_safe bursts.accumulator_burst_safe
    bursts.packetsgen_burst_safe bursts.switch_burst_safe bursts.antispoof_burst_safe bursts.pmtud_burst_safe
    bursts.firewall_burst_safe bursts.vtep_burst_safe bursts.print_burst_safe
  show ?thesis
    by (cases f)
       (simp_all add: run_burst_def h [OF assms] fail_burst_safe collect_burst_safe queue_burst_safe
         rxtx_burst_safe nic_burst_safe nic_burst_no_offload_safe tap_burst_safe vhost_burst_safe)
qed

lemma bursts_pg_brick_burst: "bursts (pg_brick_burst n x)"
proof (induction n)
  case 0
  show ?case by unfold_locales simp
next
  case (Suc n)
  show ?case
  proof
    fix w b "from" i a m
    show "safe w (pg_brick_burst (Suc n) x b from i a m w)"
      unfolding pg_brick_burst.simps by (intro safe_intros run_burst_safe Suc; simp)
  qed
qed

interpretation flow: bursts "pg_brick_burst n x" for n x
  by (rule bursts_pg_brick_burst)

lemma run_poll_safe: "safe w (run_poll n x (pg_brick_burst k x) f b c w)"
  by (cases f)
     (simp_all add: run_poll_def flow.accumulator_poll_safe flow.queue_poll_safe flow.rxtx_poll_safe
       flow.packetsgen_poll_safe flow.nic_poll_safe flow.tap_poll_safe flow.vhost_poll_safe)

lemma pg_brick_poll_safe: "safe w (pg_brick_poll n x b c w)"
  unfolding pg_brick_poll_def by (intro safe_intros run_poll_safe; simp)

section \<open>The registered operations keep the contract\<close>

text \<open>The private state a brick of the operations \<open>k\<close> has, and the bricks whose \<open>unlink_notify\<close> sends nothing.\<close>

definition binv :: "brick_ops list \<Rightarrow> nat \<Rightarrow> priv \<Rightarrow> bool" where
  "binv reg k p \<longleftrightarrow> k < length reg \<and> kind p = kind (op_zero (reg ! k)) \<and> priv_ok p"

definition bquiet :: "brick_ops list \<Rightarrow> nat \<Rightarrow> bool" where
  "bquiet reg k \<longleftrightarrow> kind (op_zero (reg ! k)) \<noteq> 18"

lemmas ops_defs = tap_ops_def rxtx_ops_def packetsgen_ops_def udp_filter_ops_def nop_ops_def firewall_ops_def
  nic_ops_def hub_ops_def user_dipole_ops_def vtep_ops_def diode_ops_def queue_ops_def accumulator_ops_def
  pmtud_ops_def fail_ops_def collect_ops_def switch_ops_def antispoof_ops_def vhost_ops_def print_ops_def base_ops_def

lemma kind_iff:
  "kind p = 3 \<longleftrightarrow> (\<exists>st. p = P_fail st)" "kind p = 5 \<longleftrightarrow> (\<exists>st. p = P_collect st)"
  "kind p = 8 \<longleftrightarrow> (\<exists>st. p = P_queue st)" "kind p = 9 \<longleftrightarrow> (\<exists>st. p = P_rxtx st)"
  "kind p = 11 \<longleftrightarrow> (\<exists>st. p = P_switch st)" "kind p = 15 \<longleftrightarrow> (\<exists>st. p = P_nic st)"
  "kind p = 16 \<longleftrightarrow> (\<exists>st. p = P_tap st)" "kind p = 17 \<longleftrightarrow> (\<exists>st. p = P_vhost st)"
  by (cases p; simp)+

lemma ops_get_side [simp]:
  "op_get_side (tap_ops x) = Some tap_get_side"
  "op_get_side (rxtx_ops x) = Some rxtx_get_side"
  "op_get_side packetsgen_ops = None"
  "op_get_side udp_filter_ops = None"
  "op_get_side nop_ops = None"
  "op_get_side (firewall_ops x) = None"
  "op_get_side (nic_ops x) = Some nic_get_side"
  "op_get_side hub_ops = None"
  "op_get_side user_dipole_ops = None"
  "op_get_side (vtep_ops v x brst) = None"
  "op_get_side diode_ops = None"
  "op_get_side (queue_ops x) = Some queue_get_side"
  "op_get_side accumulator_ops = None"
  "op_get_side (pmtud_ops x) = None"
  "op_get_side fail_ops = Some fail_get_side"
  "op_get_side (collect_ops x) = Some collect_get_side"
  "op_get_side (switch_ops x) = None"
  "op_get_side antispoof_ops = None"
  "op_get_side (vhost_ops x) = Some vhost_get_side"
  "op_get_side (print_ops x) = None"
  by (simp_all add: ops_defs zero_vhost_def)

lemma ops_link_notify [simp]:
  "op_link_notify (tap_ops x) = Some tap_link"
  "op_link_notify (rxtx_ops x) = Some rxtx_link"
  "op_link_notify packetsgen_ops = None"
  "op_link_notify udp_filter_ops = None"
  "op_link_notify nop_ops = None"
  "op_link_notify (firewall_ops x) = None"
  "op_link_notify (nic_ops x) = Some nic_link"
  "op_link_notify hub_ops = None"
  "op_link_notify user_dipole_ops = None"
  "op_link_notify (vtep_ops v x brst) = None"
  "op_link_notify diode_ops = None"
  "op_link_notify (queue_ops x) = Some queue_link"
  "op_link_notify accumulator_ops = None"
  "op_link_notify (pmtud_ops x) = None"
  "op_link_notify fail_ops = Some fail_link"
  "op_link_notify (collect_ops x) = Some collect_link"
  "op_link_notify (switch_ops x) = None"
  "op_link_notify antispoof_ops = None"
  "op_link_notify (vhost_ops x) = Some vhost_link"
  "op_link_notify (print_ops x) = None"
  by (simp_all add: ops_defs zero_vhost_def)

lemma ops_zero [simp]:
  "kind (op_zero (tap_ops x)) = 16"
  "kind (op_zero (rxtx_ops x)) = 9"
  "kind (op_zero packetsgen_ops) = 10"
  "kind (op_zero udp_filter_ops) = 6"
  "kind (op_zero nop_ops) = 0"
  "kind (op_zero (firewall_ops x)) = 14"
  "kind (op_zero (nic_ops x)) = 15"
  "kind (op_zero hub_ops) = 1"
  "kind (op_zero user_dipole_ops) = 4"
  "kind (op_zero (vtep_ops v x brst)) = 18"
  "kind (op_zero diode_ops) = 2"
  "kind (op_zero (queue_ops x)) = 8"
  "kind (op_zero accumulator_ops) = 7"
  "kind (op_zero (pmtud_ops x)) = 13"
  "kind (op_zero fail_ops) = 3"
  "kind (op_zero (collect_ops x)) = 5"
  "kind (op_zero (switch_ops x)) = 11"
  "kind (op_zero antispoof_ops) = 12"
  "kind (op_zero (vhost_ops x)) = 17"
  "kind (op_zero (print_ops x)) = 19"
  by (simp_all add: ops_defs zero_vhost_def)

lemma ops_unlink_notify [simp]:
  "op_unlink_notify (tap_ops x) = None"
  "op_unlink_notify (rxtx_ops x) = None"
  "op_unlink_notify packetsgen_ops = None"
  "op_unlink_notify udp_filter_ops = None"
  "op_unlink_notify nop_ops = None"
  "op_unlink_notify (firewall_ops x) = None"
  "op_unlink_notify (nic_ops x) = None"
  "op_unlink_notify hub_ops = None"
  "op_unlink_notify user_dipole_ops = None"
  "op_unlink_notify (vtep_ops v x brst) = Some (vtep_unlink_notify v x brst)"
  "op_unlink_notify diode_ops = None"
  "op_unlink_notify (queue_ops x) = None"
  "op_unlink_notify accumulator_ops = None"
  "op_unlink_notify (pmtud_ops x) = None"
  "op_unlink_notify fail_ops = None"
  "op_unlink_notify (collect_ops x) = None"
  "op_unlink_notify (switch_ops x) = Some switch_unlink_notify"
  "op_unlink_notify antispoof_ops = None"
  "op_unlink_notify (vhost_ops x) = None"
  "op_unlink_notify (print_ops x) = None"
  by (simp_all add: ops_defs zero_vhost_def)

lemma ops_destroy [simp]:
  "op_destroy (tap_ops x) = Some (tap_destroy x)"
  "op_destroy (rxtx_ops x) = Some (rxtx_destroy x)"
  "op_destroy packetsgen_ops = None"
  "op_destroy udp_filter_ops = Some udp_filter_destroy"
  "op_destroy nop_ops = None"
  "op_destroy (firewall_ops x) = Some (firewall_destroy x)"
  "op_destroy (nic_ops x) = Some (nic_destroy x)"
  "op_destroy hub_ops = None"
  "op_destroy user_dipole_ops = None"
  "op_destroy (vtep_ops v x brst) = Some vtep_destroy"
  "op_destroy diode_ops = None"
  "op_destroy (queue_ops x) = Some (queue_destroy x)"
  "op_destroy accumulator_ops = None"
  "op_destroy (pmtud_ops x) = Some (pmtud_destroy x)"
  "op_destroy fail_ops = None"
  "op_destroy (collect_ops x) = Some (collect_destroy x)"
  "op_destroy (switch_ops x) = Some switch_destroy"
  "op_destroy antispoof_ops = None"
  "op_destroy (vhost_ops x) = Some (vhost_destroy x)"
  "op_destroy (print_ops x) = Some (print_destroy x)"
  by (simp_all add: ops_defs zero_vhost_def)

lemma ops_init [simp]:
  "op_init (tap_ops x) = tap_init x"
  "op_init (rxtx_ops x) = rxtx_init x"
  "op_init packetsgen_ops = packetsgen_init"
  "op_init udp_filter_ops = udp_filter_init"
  "op_init nop_ops = nop_init"
  "op_init (firewall_ops x) = firewall_init x"
  "op_init (nic_ops x) = nic_init x"
  "op_init hub_ops = hub_init"
  "op_init user_dipole_ops = user_dipole_init"
  "op_init (vtep_ops v x brst) = vtep_init v x"
  "op_init diode_ops = diode_init"
  "op_init (queue_ops x) = queue_init"
  "op_init accumulator_ops = accumulator_init"
  "op_init (pmtud_ops x) = pmtud_init x"
  "op_init fail_ops = fail_init"
  "op_init (collect_ops x) = collect_init"
  "op_init (switch_ops x) = switch_init x"
  "op_init antispoof_ops = antispoof_init"
  "op_init (vhost_ops x) = vhost_init x"
  "op_init (print_ops x) = print_init x"
  by (simp_all add: ops_defs zero_vhost_def)

lemma monopole_cases:
  assumes "bo \<in> set (pg_all_bricks x brst)" and "op_get_side bo = Some g"
  shows "(g, op_link_notify bo, kind (op_zero bo)) \<in>
    {(fail_get_side, Some fail_link, 3), (collect_get_side, Some collect_link, 5), (queue_get_side, Some queue_link, 8),
     (rxtx_get_side, Some rxtx_link, 9), (nic_get_side, Some nic_link, 15), (tap_get_side, Some tap_link, 16),
     (vhost_get_side, Some vhost_link, 17)}"
  using assms unfolding pg_all_bricks_def set_simps by (elim insertE emptyE) simp_all

lemmas link_defs = collect_link_def queue_link_def rxtx_link_def nic_link_def tap_link_def vhost_link_def

lemma monopole_side:
  assumes "bo \<in> set (pg_all_bricks x brst)" and "op_get_side bo = Some g" and "kind p = kind (op_zero bo)"
  shows "\<exists>f. op_link_notify bo = Some f \<and> g (f p s i) = s"
    and "kind q = kind p \<Longrightarrow> out_side q = out_side p \<Longrightarrow> g q = g p"
  using monopole_cases [OF assms(1,2)] assms(3)
  by (elim insertE emptyE; auto simp: kind_iff link_defs)+

lemma link_notify_inv:
  assumes "bo \<in> set (pg_all_bricks x brst)" and "op_link_notify bo = Some f" and "kind p = kind (op_zero bo)"
  shows "kind (f p s i) = kind p \<and> (priv_ok p \<longrightarrow> priv_ok (f p s i))"
proof -
  have "f \<in> {fail_link, collect_link, queue_link, rxtx_link, nic_link, tap_link, vhost_link}"
    using assms(1,2) unfolding pg_all_bricks_def set_simps by (elim insertE emptyE) simp_all
  then show ?thesis
    by (elim insertE emptyE; cases p; simp add: link_defs)
qed

lemma destroy_safe_all:
  assumes "bo \<in> set (pg_all_bricks x brst)" and "op_destroy bo = Some d"
  shows "safe w (d b w)"
  using assms unfolding pg_all_bricks_def set_simps
  by (elim insertE emptyE)
     (auto simp: tap_destroy_safe rxtx_destroy_safe udp_filter_destroy_safe firewall_destroy_safe nic_destroy_safe
       vtep_destroy_safe queue_destroy_safe pmtud_destroy_safe collect_destroy_safe switch_destroy_safe
       vhost_destroy_safe print_destroy_safe)

lemma unlink_notify_cases:
  assumes "bo \<in> set (pg_all_bricks x brst)" and "op_unlink_notify bo = Some u"
  shows "u = switch_unlink_notify \<and> kind (op_zero bo) = 11 \<or>
    (\<exists>v. u = vtep_unlink_notify v x brst) \<and> kind (op_zero bo) = 18"
  using assms unfolding pg_all_bricks_def set_simps by (elim insertE emptyE) auto

text \<open>A step that keeps the links keeps the topology and the private states.\<close>

lemma safe_step_topology:
  assumes "safe_step w w'" and "pinv_world (binv reg) w" and "reg = pg_all_bricks x brst"
  shows "same_topology reg w w' \<and> pinv_world (binv reg) w'"
proof -
  have step: "same_brick reg br br' \<and> binv reg (ops br') (priv_state br')"
    if "bricks w b = Some br" "brick_step br br'" for b br br'
  proof -
    let ?bo = "reg ! ops br"
    have inv: "kind (priv_state br) = kind (op_zero ?bo)" "priv_ok (priv_state br)" "ops br < length reg"
      using assms(2) that(1) by (auto simp: pinv_world_def binv_def)
    have bo: "?bo \<in> set (pg_all_bricks x brst)" using assms(3) inv(3) by simp
    have q: "kind (priv_state br') = kind (priv_state br)" "out_side (priv_state br') = out_side (priv_state br)"
        "priv_ok (priv_state br')" "ops br' = ops br"
      using that(2) inv by (simp_all add: brick_step_def priv_step_def)
    then have "gside reg br' = gside reg br"
      using monopole_side(2) [OF bo _ inv(1) q(1,2)] by (auto simp: gside_def split: option.splits)
    then show ?thesis
      using that(2) q inv by (simp add: same_brick_def brick_step_def binv_def)
  qed
  have "rel_option (same_brick reg) (bricks w b) (bricks w' b)" for b
  proof -
    have "rel_option brick_step (bricks w b) (bricks w' b)" using assms(1) by (simp add: safe_step_def)
    then show ?thesis using step [of b] by (cases "bricks w b"; cases "bricks w' b") auto
  qed
  moreover have "binv reg (ops br') (priv_state br')" if "bricks w' b = Some br'" for b br'
    using assms(1) that step [of b] unfolding safe_step_def by (metis option_rel_Some2)
  ultimately show ?thesis
    using assms(1) by (simp add: same_topology_def safe_step_def pinv_world_def)
qed

lemma call_topology:
  assumes "safe w m" and "pinv_world (binv reg) w" and "reg = pg_all_bricks x brst"
  shows "ores m (\<lambda>_ w'. same_topology reg w w' \<and> pinv_world (binv reg) w')"
  using assms(1) safe_step_topology [OF _ assms(2,3)] by (auto simp: safe_def elim!: ores_mono)

lemma state_of_kind:
  assumes "bricks w b = Some br" and "pinv_world (binv reg) w" and "kind (op_zero (reg ! ops br)) = 11"
  obtains st where "state_at st_switch w b = Some st"
proof -
  have "kind (priv_state br) = 11" using assms by (auto simp: pinv_world_def binv_def)
  then show thesis using that assms(1) by (auto simp: kind_iff state_at_def)
qed

lemma unlink_notify_safe_all:
  assumes "bursts brst" and "reg = pg_all_bricks x brst" and "op_unlink_notify (reg ! ops br) = Some u"
    and "ops br < length reg" and "bricks w b = Some br" and "pinv_world (binv reg) w"
  shows "safe w (u b s i w)"
    and "bquiet reg (ops br) \<Longrightarrow> oret (u b s i w) (\<lambda>_ w'. errp w' = errp w)"
proof -
  have bo: "reg ! ops br \<in> set (pg_all_bricks x brst)" using assms(2,4) by simp
  consider (switch) "u = switch_unlink_notify" "kind (op_zero (reg ! ops br)) = 11"
    | (vtep) v where "u = vtep_unlink_notify v x brst" "kind (op_zero (reg ! ops br)) = 18"
    using unlink_notify_cases [OF bo assms(3)] by blast
  then have "safe w (u b s i w) \<and> (bquiet reg (ops br) \<longrightarrow> oret (u b s i w) (\<lambda>_ w'. errp w' = errp w))"
  proof cases
    case switch
    obtain st where "state_at st_switch w b = Some st"
      using state_of_kind [OF assms(5,6) switch(2)] .
    then obtain w' where "u b s i w = Ret () w'" "safe_step w w'" "errp w' = errp w"
      using unlink_notify_result [of w b st s i] switch(1) by auto
    then show ?thesis by simp
  next
    case vtep
    then show ?thesis
      using bursts.vtep_unlink_notify_safe [OF assms(1)] by (simp add: bquiet_def)
  qed
  then show "safe w (u b s i w)" and "bquiet reg (ops br) \<Longrightarrow> oret (u b s i w) (\<lambda>_ w'. errp w' = errp w)"
    by blast+
qed

abbreviation registry :: "nat \<Rightarrow> ext \<Rightarrow> brick_ops list" where
  "registry n x \<equiv> pg_all_bricks x (pg_brick_burst n x)"

interpretation contract: brick_contract "registry n x" "binv (registry n x)" "bquiet (registry n x)" for n x
proof (unfold_locales, goal_cases)
  case (1 k g p s i)
  then show ?case
    by (intro monopole_side(1) [of _ x "pg_brick_burst n x"]) (auto simp: binv_def)
next
  case (2 k f p s i)
  then show ?case using link_notify_inv [of "registry n x ! k" x "pg_brick_burst n x"] by (auto simp: binv_def)
next
  case (3 k u w b br s i)
  then show ?case
    by (intro call_topology [OF unlink_notify_safe_all(1) [OF bursts_pg_brick_burst refl]]) auto
next
  case (4 k u w b br s i)
  then show ?case
    by (intro unlink_notify_safe_all(2) [OF bursts_pg_brick_burst refl]) auto
next
  case (5 k d w b br)
  then show ?case
    by (intro call_topology [OF destroy_safe_all [of _ x "pg_brick_burst n x"]]) auto
qed

section \<open>New bricks\<close>

text \<open>
  What creating bricks relies on beyond the contract: zeroed memory is a private state of the
  brick, and \<open>init\<close> with a configuration of the brick keeps what is there. Only bricks with
  \<open>get_side\<close> are configured as monopoles.
\<close>

locale brick_library = brick_contract +
  fixes cfg_ok :: "nat \<Rightarrow> pg_brick_config \<Rightarrow> bool"
  assumes zero_pinv: "k < length reg \<Longrightarrow> pinv k (op_zero (reg ! k))"
    and init_safe: "k < length reg \<Longrightarrow> cfg_ok k config \<Longrightarrow> bricks w b = Some br \<Longrightarrow> ops br = k \<Longrightarrow>
       priv_state br = op_zero (reg ! k) \<Longrightarrow> pinv_world pinv w \<Longrightarrow>
       ores (op_init (reg ! k) b config w) (\<lambda>_ w'. same_topology reg w w' \<and> pinv_world pinv w')"
    and cfg_side: "cfg_ok k config \<Longrightarrow> conf_type config = PG_MONOPOLE \<Longrightarrow> op_get_side (reg ! k) \<noteq> None"

lemma wf_world_add:
  assumes wf: "wf_world reg pinv w" and b: "bricks w b = None" "b < brick_next w"
    and w': "bricks w' = (bricks w)(b \<mapsto> br)" "brick_next w' = brick_next w"
    and br: "wf_brick reg br" "pinv (ops br) (priv_state br)" "1 + int (degree br) \<le> refcount br"
      "\<And>s i. plink reg br s i = None"
  shows "wf_world reg pinv w' \<and> graph reg w' = graph reg w"
proof -
  have "graph reg w' = graph reg w"
    using b br(4) by (auto simp: graph_def w' fun_eq_iff)
  moreover have "wf_world reg pinv w'"
    using wf b br calculation unfolding wf_world_def w' by auto
  ultimately show ?thesis by blast
qed

lemma wf_world_without:
  assumes wf: "wf_world reg pinv w" and top: "same_topology reg w2 w3" "pinv_world pinv w3"
    and w2: "bricks w2 = (bricks w)(brick_next w \<mapsto> br)" "brick_next w2 = Suc (brick_next w)"
    and R: "bricks R = (bricks w3)(brick_next w := None)" "brick_next R = brick_next w3"
  shows "wf_world reg pinv R" and "graph reg R = graph reg w"
proof -
  let ?w = "w\<lparr>brick_next := Suc (brick_next w)\<rparr>"
  have wf': "wf_world reg pinv ?w" and gr: "graph reg ?w = graph reg w"
    using wf by (auto simp: wf_world_def graph_def)
  have "bricks w (brick_next w) = None" using wf by (simp add: wf_world_def)
  then have "rel_option (same_brick reg) (bricks ?w b) (bricks R b)" for b
    using top(1) by (auto simp: same_topology_def w2 R split: if_splits)
  then have same: "same_topology reg ?w R" using top(1) by (simp add: same_topology_def R w2)
  have "pinv_world pinv R" using top(2) by (simp add: pinv_world_def R)
  then show "wf_world reg pinv R" by (rule wf_world_same_topology [OF wf' same])
  show "graph reg R = graph reg w" using same_topology_graph [OF same] gr by simp
qed

text \<open>The memory of a new brick when \<open>init\<close> is called.\<close>

definition fresh_brick :: "brick_ops list \<Rightarrow> nat \<Rightarrow> pg_brick_config \<Rightarrow> pg_brick" where
  "fresh_brick reg k config =
     \<lparr>burst = None, poll = None, ops = k, refcount = 1, brick_name = conf_name config,
      brick_type = conf_type config, sides = (\<lambda>s. zero_side\<lparr>side_max :=
        (case s of PG_WEST_SIDE \<Rightarrow> west_max config | PG_EAST_SIDE \<Rightarrow> east_max config) mod 65536\<rparr>),
      priv_state = op_zero (reg ! k)\<rparr>"

text \<open>What a new brick is: an unlinked one with one reference, as configured, that can take bursts.\<close>

definition new_brick :: "pg_brick_config \<Rightarrow> pg_brick \<Rightarrow> bool" where
  "new_brick config br \<longleftrightarrow>
     brick_name br = conf_name config \<and> brick_type br = conf_type config \<and> refcount br = 1 \<and> degree br = 0 \<and>
     side_max (sides br PG_WEST_SIDE) = west_max config \<and> side_max (sides br PG_EAST_SIDE) = east_max config \<and>
     burst br \<noteq> None"

definition new_post ::
    "brick_ops list \<Rightarrow> (nat \<Rightarrow> priv \<Rightarrow> bool) \<Rightarrow> pg_brick_config \<Rightarrow> world \<Rightarrow> nat option \<Rightarrow> world \<Rightarrow> bool" where
  "new_post reg pinv config w r w' \<longleftrightarrow>
     wf_world reg pinv w' \<and> graph reg w' = graph reg w \<and>
     (case r of None \<Rightarrow> bricks w' (brick_next w) = None
      | Some b \<Rightarrow> b = brick_next w \<and> (\<exists>br. bricks w' b = Some br \<and> new_brick config br))"

lemma find_ops_less: "find_ops reg nm = Some k \<Longrightarrow> k < length reg"
  by (induction reg arbitrary: k) (auto split: if_splits)

lemma check_side_max_cases:
  assumes "check_side_max config w = Ret r w'"
  obtains "r = -1" "bricks w' = bricks w" "brick_next w' = brick_next w"
  | "r = 0" "w' = w" "conf_type config = PG_MULTIPOLE \<longrightarrow> west_max config < 65535 \<and> east_max config < 65535"
    "conf_type config \<noteq> PG_MULTIPOLE \<longrightarrow> west_max config \<le> 1 \<and> east_max config \<le> 1"
  using assms
  by (cases "conf_type config") (auto simp: check_side_max_def Let_def set_err_def split: if_splits)

text \<open>The sides of a brick whose edges are allocated, and how such a brick is in order.\<close>

lemma alloc_side_links:
  assumes "same_brick reg (fresh_brick reg k config) br" and "burst br \<noteq> None" and "k < length reg"
    and "conf_type config = PG_MULTIPOLE \<longrightarrow> west_max config < 65535 \<and> east_max config < 65535"
    and "conf_type config \<noteq> PG_MULTIPOLE \<longrightarrow> west_max config \<le> 1 \<and> east_max config \<le> 1"
    and "conf_type config = PG_MONOPOLE \<Longrightarrow> op_get_side (reg ! k) \<noteq> None"
    and br': "br' = br\<lparr>sides := (\<lambda>s. alloc_side (brick_type br) (sides br s))\<rparr>"
  shows "wf_brick reg br'" and "degree br' = 0" and "plink reg br' s i = None" and "new_brick config br'"
proof -
  have f: "side_max (sides br t) = (case t of PG_WEST_SIDE \<Rightarrow> west_max config | PG_EAST_SIDE \<Rightarrow> east_max config)"
      "side_nb (sides br t) = 0" "edges (sides br t) = []" "edge (sides br t) = null_edge"
      "brick_type br = conf_type config" "ops br = k" "refcount br = 1" "brick_name br = conf_name config" for t
    using assms(1,4,5)
    by (cases "conf_type config = PG_MULTIPOLE"; cases t;
        auto simp: same_brick_def same_side_def fresh_brick_def zero_side_def)+
  have links: "side_links br' t = 0" for t
    by (auto simp: br' side_links_def alloc_side_def f null_edge_def filter_empty_conv)
  then show "degree br' = 0" by (simp add: degree_def)
  show "plink reg br' s i = None"
    by (auto simp: br' plink_def alloc_side_def f null_edge_def split: pg_brick_type.splits)
  have "wf_side br' t" for t
    using assms(4,5) by (auto simp: wf_side_def links) (auto simp: br' alloc_side_def f split: pg_side.splits)
  then show "wf_brick reg br'"
    using assms(3,6) by (simp add: wf_brick_def br' f)
  show "new_brick config br'"
    using \<open>degree br' = 0\<close> assms(2) by (simp add: new_brick_def br' f alloc_side_def)
qed

lemma new_post_error: "wf_world reg pinv w \<Longrightarrow> new_post reg pinv config w None (set_err e w)"
  by (simp add: new_post_def wf_world_def graph_def set_err_def)

lemma sides_eq: "f(PG_WEST_SIDE := u, PG_EAST_SIDE := v) = (\<lambda>s. case s of PG_WEST_SIDE \<Rightarrow> u | PG_EAST_SIDE \<Rightarrow> v)"
  by (rule ext) (simp split: pg_side.splits)

context brick_library
begin

lemma new_after_init:
  assumes wf: "wf_world reg pinv w" and k: "k < length reg" and cfg: "cfg_ok k config"
    and mx: "conf_type config = PG_MULTIPOLE \<longrightarrow> west_max config < 65535 \<and> east_max config < 65535"
      "conf_type config \<noteq> PG_MULTIPOLE \<longrightarrow> west_max config \<le> 1 \<and> east_max config \<le> 1"
    and w2: "bricks w2 = (bricks w)(brick_next w \<mapsto> fresh_brick reg k config)" "brick_next w2 = Suc (brick_next w)"
    and top: "same_topology reg w2 w3" "pinv_world pinv w3"
    and b: "b = brick_next w"
  shows "ores (obind (assert_brick_callback b w3) (\<lambda>_ w. obind (alloc_edges b w) (\<lambda>r w.
      if r < 0 then Ret None (free_brick b w) else Ret (Some b) w)))
    (new_post reg pinv config w)"
    and "bricks w4 = bricks w3 \<Longrightarrow> brick_next w4 = brick_next w3 \<Longrightarrow>
      new_post reg pinv config w None (free_brick b w4)"
proof -
  let ?b = "brick_next w"
  obtain br where br: "bricks w3 ?b = Some br" and same: "same_brick reg (fresh_brick reg k config) br"
    using same_topologyD [OF top(1), of ?b] w2(1) by auto
  have freed: "new_post reg pinv config w None R" if "bricks R = (bricks w3)(?b := None)" "brick_next R = brick_next w3" for R
    using wf_world_without [OF wf top w2 that] that by (simp add: new_post_def)
  show "new_post reg pinv config w None (free_brick b w4)" if "bricks w4 = bricks w3" "brick_next w4 = brick_next w3"
    using that by (intro freed) (simp_all add: free_brick_def b)
  define br' where "br' = br\<lparr>sides := (\<lambda>s. alloc_side (brick_type br) (sides br s))\<rparr>"
  have good: "new_post reg pinv config w (Some ?b) w'"
    if "burst br \<noteq> None" "bricks w' = (bricks w3)(?b \<mapsto> br')" "brick_next w' = brick_next w3" for w'
  proof -
    let ?R = "w3\<lparr>bricks := (bricks w3)(?b := None)\<rparr>"
    note al = alloc_side_links [OF same that(1) k mx cfg_side [OF cfg] br'_def]
    have "pinv (ops br') (priv_state br')" using top(2) br by (simp add: pinv_world_def br'_def)
    moreover have "refcount br' = 1" using al(4) by (simp add: new_brick_def)
    moreover have "brick_next w3 = Suc ?b" using top(1) w2(2) by (simp add: same_topology_def)
    moreover have "wf_world reg pinv ?R" "graph reg ?R = graph reg w"
      using wf_world_without [OF wf top w2, of ?R] by simp_all
    ultimately have "wf_world reg pinv w' \<and> graph reg w' = graph reg ?R"
      using wf_world_add [of reg pinv ?R ?b w' br'] al that by simp
    then show ?thesis
      using al(4) that(2) \<open>graph reg ?R = graph reg w\<close> by (simp add: new_post_def)
  qed
  show "ores (obind (assert_brick_callback b w3) (\<lambda>_ w. obind (alloc_edges b w) (\<lambda>r w.
      if r < 0 then Ret None (free_brick b w) else Ret (Some b) w)))
    (new_post reg pinv config w)"
    using br
    by (auto simp: assert_brick_callback_def get_brick_def alloc_edges_def Let_def b upd_brick_def br'_def [symmetric]
        set_err_def free_brick_def intro!: good freed)
qed

lemma pg_brick_new_wf:
  assumes wf: "wf_world reg pinv w" and cfg: "\<And>k. find_ops reg nm = Some k \<Longrightarrow> cfg_ok k config"
  shows "ores (pg_brick_new reg (Some nm) (Some config) w) (new_post reg pinv config w)"
proof (cases "find_ops reg nm")
  case None
  then show ?thesis by (simp add: pg_brick_new_def new_post_error [OF wf])
next
  case (Some k)
  note k = find_ops_less [OF Some]
  let ?b = "brick_next w"
  define w1 where "w1 = zero_brick_counters ?b (snd (malloc_brick k (reg ! k) (conf_type config) w))"
  define w2 where "w2 = upd_brick ?b (\<lambda>br. br\<lparr>brick_name := conf_name config\<rparr>)
    (pg_brick_set_max_edges ?b (west_max config) (east_max config) w1)"
  have w1: "bricks w1 = (bricks w)(?b \<mapsto> \<lparr>burst = None, poll = None, ops = k, refcount = 1, brick_name = [],
      brick_type = conf_type config, sides = (\<lambda>_. zero_side), priv_state = op_zero (reg ! k)\<rparr>)"
      "brick_next w1 = Suc ?b"
    by (simp_all add: w1_def malloc_brick_def zero_brick_counters_def upd_brick_def Let_def zero_side_def)
  have sd: "(\<lambda>s. zero_side\<lparr>side_max := (case s of PG_WEST_SIDE \<Rightarrow> m | PG_EAST_SIDE \<Rightarrow> n) mod 65536\<rparr>) =
      case_pg_side (zero_side\<lparr>side_max := m mod 65536\<rparr>) (zero_side\<lparr>side_max := n mod 65536\<rparr>)" for m n
    by (simp add: fun_eq_iff split: pg_side.splits)
  have w2: "bricks w2 = (bricks w)(?b \<mapsto> fresh_brick reg k config)" "brick_next w2 = Suc ?b"
    by (auto simp: w2_def pg_brick_set_max_edges_def upd_brick_def w1 fresh_brick_def upd_side_def sides_eq sd
        split: pg_side.splits)
  have pin: "pinv_world pinv w2"
    using wf_world_pinv [OF wf] zero_pinv [OF k] by (auto simp: pinv_world_def w2 fresh_brick_def)
  have nofail: "new_post reg pinv config w None (free_brick ?b w')" if "bricks w' = bricks w1" "brick_next w' = brick_next w1" for w'
  proof -
    have "bricks (free_brick ?b w') = bricks w"
      using that wf by (auto simp: free_brick_def w1 wf_world_def)
    then show ?thesis
      using wf that by (auto simp: new_post_def wf_world_def graph_def free_brick_def w1)
  qed
  have init: "ores (op_init (reg ! k) ?b config w2) (\<lambda>_ w3. same_topology reg w2 w3 \<and> pinv_world pinv w3)"
    using init_safe [OF k cfg [OF Some], of w2 ?b "fresh_brick reg k config"] pin by (simp add: w2 fresh_brick_def)
  obtain r w' where chk: "check_side_max config w1 = Ret r w'"
    by (cases "check_side_max config w1") (auto simp: check_side_max_def Let_def split: if_splits)
  have unfold: "pg_brick_new reg (Some nm) (Some config) w =
    (if op_state_size (reg ! k) \<le> 0 then Ret None (set_err (pg_error_new ''Brick state size is not positive'' []) w)
     else if r < 0 then Ret None (free_brick ?b w')
     else obind (op_init (reg ! k) ?b config (upd_brick ?b (\<lambda>br. br\<lparr>brick_name := conf_name config\<rparr>)
        (pg_brick_set_max_edges ?b (west_max config) (east_max config) w'))) (\<lambda>ret w.
       if ret < 0 then
         Ret None (free_brick ?b (if \<not> pg_error_is_set w
           then set_err (pg_error_new ''Failed to init '%s' brick'' [nm]) w else w))
       else
         obind (assert_brick_callback ?b w) (\<lambda>_ w. obind (alloc_edges ?b w) (\<lambda>r w.
           if r < 0 then Ret None (free_brick ?b w) else Ret (Some ?b) w))))"
    using chk unfolding pg_brick_new_def Let_def w1_def malloc_brick_def
    by (simp add: Some)
  show ?thesis
  proof (rule check_side_max_cases [OF chk])
    assume "r = -1" "bricks w' = bricks w1" "brick_next w' = brick_next w1"
    then show ?thesis using nofail by (simp add: unfold new_post_error [OF wf])
  next
    assume a: "r = 0" "w' = w1"
      and mx: "conf_type config = PG_MULTIPOLE \<longrightarrow> west_max config < 65535 \<and> east_max config < 65535"
        "conf_type config \<noteq> PG_MULTIPOLE \<longrightarrow> west_max config \<le> 1 \<and> east_max config \<le> 1"
    note after = new_after_init [OF wf k cfg [OF Some] mx w2 _ _ refl]
    have "ores (if ret < 0 then Ret None (free_brick ?b (if c then set_err e w3 else w3))
         else obind (assert_brick_callback ?b w3) (\<lambda>_ w. obind (alloc_edges ?b w) (\<lambda>r w.
           if r < 0 then Ret None (free_brick ?b w) else Ret (Some ?b) w))) (new_post reg pinv config w)"
      if "same_topology reg w2 w3" "pinv_world pinv w3" for ret w3 c e
      using after [OF that] by (simp add: set_err_def)
    then have "ores (obind (op_init (reg ! k) ?b config w2) (\<lambda>ret w.
       if ret < 0 then
         Ret None (free_brick ?b (if \<not> pg_error_is_set w
           then set_err (pg_error_new ''Failed to init '%s' brick'' [nm]) w else w))
       else
         obind (assert_brick_callback ?b w) (\<lambda>_ w. obind (alloc_edges ?b w) (\<lambda>r w.
           if r < 0 then Ret None (free_brick ?b w) else Ret (Some ?b) w)))) (new_post reg pinv config w)"
      by (intro ores_obind ores_mono [OF init]) blast
    then show ?thesis
      unfolding unfold a w2_def [symmetric] by (simp add: new_post_error [OF wf])
  qed
qed

end

text \<open>
  A configuration the code gives to a brick: a monopole is a brick that says on which side it
  is, and a vhost brick starts on the west side, as \<open>pg_vhost_new\<close> has it.
\<close>

definition bconfig :: "brick_ops list \<Rightarrow> nat \<Rightarrow> pg_brick_config \<Rightarrow> bool" where
  "bconfig reg k config \<longleftrightarrow>
     (conf_type config = PG_MONOPOLE \<longrightarrow> op_get_side (reg ! k) \<noteq> None) \<and>
     (case brick_config config of Some (C_vhost output _) \<Rightarrow> output = PG_WEST_SIDE | _ \<Rightarrow> True)"

lemma vhost_init_safe:
  assumes "bricks w b = Some br" and "priv_state br = P_vhost zero_vhost" and "bconfig reg k c"
  shows "safe w (vhost_init x b c w)"
proof (cases "\<exists>output flags. brick_config c = Some (C_vhost output flags)")
  case True
  then obtain flags where c: "brick_config c = Some (C_vhost PG_WEST_SIDE flags)"
    using assms(3) by (auto simp: bconfig_def)
  define w1 where "w1 = upd_priv b (on_vhost (\<lambda>st. st\<lparr>vh_output := PG_WEST_SIDE, vh_vid := -1, vh_rx_bytes := 0, vh_tx_bytes := 0\<rparr>)) w"
  have first: "safe_step w w1"
    unfolding w1_def
    by (rule safe_step_priv) (use assms(1,2) in \<open>auto simp: priv_step_def zero_vhost_def\<close>)
  have "safe w1 (obind (pg_vhost_enable x b (scast (enable_freacture_mask (glob w1))) w1) (\<lambda>_ w.
            obind (pg_vhost_disable x b (scast (disable_freacture_mask (glob w))) w) (\<lambda>_ w.
            obind (vhost_create_socket x b flags w) (\<lambda>_ w.
            if pg_error_is_set w then Ret (-1 :: int) w
            else
              obind (Ret () (set_burst b vhost_burst_fn w)) (\<lambda>_ w.
              obind (Ret () (set_poll b vhost_poll_fn w)) (\<lambda>_ w.
              Ret 0 (upd_priv b (on_vhost (\<lambda>st. st\<lparr>vh_allow_queuing := 1\<rparr>)) w)))))))"
    unfolding pg_vhost_enable_def pg_vhost_disable_def vhost_features_def pg_vhost_socket_path_def
      vhost_create_socket_def vhost_call_def
    by (intro safe_intros; simp)
  from safe_step_safe [OF first this] show ?thesis
    by (simp add: vhost_init_def c w1_def)
next
  case False
  then show ?thesis by (simp add: vhost_init_def split: option.splits bconf.splits)
qed

lemma init_safe_all:
  assumes "bo \<in> set (pg_all_bricks x brst)" and "bricks w b = Some br" and "priv_state br = op_zero bo"
    and "bconfig reg k c"
  shows "safe w (op_init bo b c w)"
proof (cases "bo = vhost_ops x")
  case True
  then show ?thesis
    using vhost_init_safe [OF assms(2) _ assms(4)] assms(3) by (simp add: vhost_ops_def)
next
  case False
  then show ?thesis
    using assms(1) unfolding pg_all_bricks_def set_simps
    by (elim insertE emptyE)
       (auto simp: tap_init_safe rxtx_init_safe packetsgen_init_safe udp_filter_init_safe firewall_init_safe nic_init_safe
         hub_init_safe vtep_init_safe queue_init_safe accumulator_init_safe pmtud_init_safe relay_init_safe
         collect_init_safe switch_init_safe antispoof_init_safe print_init_safe)
qed

lemma zero_ok: "bo \<in> set (pg_all_bricks x brst) \<Longrightarrow> priv_ok (op_zero bo)"
  unfolding pg_all_bricks_def set_simps
  by (elim insertE emptyE) (simp_all add: ops_defs mac_table_inv_def)

interpretation lib: brick_library "registry n x" "binv (registry n x)" "bquiet (registry n x)" "bconfig (registry n x)" for n x
proof (unfold_locales, goal_cases)
  case (1 k)
  then show ?case using zero_ok [of "registry n x ! k" x "pg_brick_burst n x"] by (simp add: binv_def)
next
  case (2 k c w b br)
  then show ?case
    by (intro call_topology [OF init_safe_all [of _ x "pg_brick_burst n x"]]) auto
next
  case (3 k c)
  then show ?case by (simp add: bconfig_def)
qed

section \<open>Unlinked and destroyed bricks\<close>

lemma degree_0:
  assumes "\<And>s i. plink reg br s i = None" shows "degree br = 0"
proof -
  have "side_links br s = 0" if "brick_type br \<noteq> PG_MONOPOLE \<or> s = PG_WEST_SIDE" for s
  proof (cases "brick_type br")
    case PG_MULTIPOLE
    have "link (edges (sides br s) ! i) = None" if "i < length (edges (sides br s))" for i
      using that assms [of s i] PG_MULTIPOLE by (simp add: plink_def)
    then have "link e = None" if "e \<in> set (edges (sides br s))" for e
      using that by (auto simp: in_set_conv_nth)
    then show ?thesis using PG_MULTIPOLE by (simp add: side_links_def filter_empty_conv)
  next
    case PG_DIPOLE
    then show ?thesis using assms [of s 0] by (simp add: plink_def side_links_def)
  next
    case PG_MONOPOLE
    then show ?thesis using assms [of "gside reg br" 0] that by (simp add: plink_def side_links_def)
  qed
  then show ?thesis by (simp add: degree_def)
qed

lemma refcount_shape:
  "wf_brick reg (br\<lparr>refcount := r\<rparr>) = wf_brick reg br"
  "plink reg (br\<lparr>refcount := r\<rparr>) = plink reg br" "degree (br\<lparr>refcount := r\<rparr>) = degree br"
proof -
  have "gside reg (br\<lparr>refcount := r\<rparr>) = gside reg br" by (simp add: gside_def cong: option.case_cong)
  then show "wf_brick reg (br\<lparr>refcount := r\<rparr>) = wf_brick reg br"
    "plink reg (br\<lparr>refcount := r\<rparr>) = plink reg br" "degree (br\<lparr>refcount := r\<rparr>) = degree br"
    by (cases "brick_type br"; simp add: wf_brick_def wf_side_def side_links_def plink_def degree_def fun_eq_iff)+
qed

lemma wf_world_errp [simp]: "wf_world reg pinv (w\<lparr>errp := e\<rparr>) = wf_world reg pinv w"
  by (simp add: wf_world_def graph_def)

lemma wf_world_set_err [simp]: "wf_world reg pinv (set_err e w) = wf_world reg pinv w"
  by (simp add: set_err_def)

lemma find_link_hit:
  "find_link br s c is = Some (Some i) \<Longrightarrow>
     (\<exists>e. pg_brick_get_edge br s i = Some e \<and> link e = Some c) \<and> (brick_type br \<noteq> PG_MULTIPOLE \<longrightarrow> i = hd is)"
proof (induction "is")
  case (Cons k ks)
  have "pg_brick_get_edge br s k = pg_brick_get_edge br s i" if "brick_type br \<noteq> PG_MULTIPOLE"
    using that by (cases "brick_type br") (simp_all add: pg_brick_get_edge_def)
  then show ?case using Cons by (auto split: option.splits if_splits)
qed simp

lemma find_link_linked:
  assumes "find_link br s c [0..<n] = Some (Some i)" shows "linked_port br s i"
proof -
  have "0 < n" using assms by (cases n) auto
  then show ?thesis using find_link_hit [OF assms] by (auto simp: linked_port_def edge_linked_def)
qed

context brick_contract
begin

lemma unlinked_all:
  assumes wf: "wf_world reg pinv w" and br: "bricks w b = Some br" and post: "loop_post (all_ports reg b br) w w1"
    and "errp w1 = None" and br1: "bricks w1 b = Some br1"
  shows "plink reg br1 s i = None" and "degree br1 = 0"
proof -
  have "graph reg w1 (b, s, i) = None" for s i
    using post assms(4) by (simp add: loop_post_def fold_all_ports [OF wf br] m_isolate_def)
  then have "plink reg br1 s i = None" for s i
    using br1 by (simp add: graph_def)
  then show "plink reg br1 s i = None" and "degree br1 = 0"
    using degree_0 by blast+
qed

text \<open>Giving up a reference to a brick without links: the brick stays with the other references, or goes.\<close>

lemma decref_wf:
  assumes wf: "wf_world reg pinv w" and br: "bricks w b = Some br" and un: "\<And>s i. plink reg br s i = None"
  shows "ores (pg_brick_decref reg (Some b) w) (\<lambda>r w'. wf_world reg pinv w' \<and> graph reg w' = graph reg w \<and>
    (refcount br \<le> 1 \<longrightarrow> bricks w' b = None))"
proof -
  let ?w = "upd_brick b (\<lambda>br. br\<lparr>refcount := refcount br - 1\<rparr>) w"
  have b: "b < brick_next w" using wf br by (metis linorder_not_less option.distinct(1) wf_world_def)
  have rm: "wf_world reg pinv R \<and> graph reg R = graph reg w"
    if "bricks R = (bricks w)(b := None)" "brick_next R = brick_next w" for R
  proof -
    have "graph reg R = graph reg w" using br un that by (auto simp: graph_def fun_eq_iff)
    then show ?thesis using wf that unfolding wf_world_def by auto
  qed
  show ?thesis
  proof (cases "0 < refcount br - 1")
    case True
    let ?br = "br\<lparr>refcount := refcount br - 1\<rparr>"
    have eq: "wf_brick reg ?br = wf_brick reg br" "plink reg ?br = plink reg br" "degree ?br = degree br"
      by (rule refcount_shape)+
    have "wf_world reg pinv ?w \<and> graph reg ?w = graph reg w"
      using wf_world_add [of reg pinv "w\<lparr>bricks := (bricks w)(b := None)\<rparr>" b ?w ?br]
        rm [of "w\<lparr>bricks := (bricks w)(b := None)\<rparr>"] wf_worldD [OF wf br] un eq b True degree_0 [of reg br]
      by (simp add: br upd_brick_def)
    then show ?thesis using True br by (simp add: pg_brick_decref_def get_brick_def Let_def)
  next
    case False
    have wf': "pinv_world pinv ?w" using wf_world_pinv [OF wf] by (auto simp: pinv_world_def upd_brick_def)
    have "wf_world reg pinv (free_brick b w2) \<and> graph reg (free_brick b w2) = graph reg w \<and>
        bricks (free_brick b w2) b = None"
      if "same_topology reg ?w w2" "pinv_world pinv w2" for w2
    proof -
      let ?R = "w\<lparr>bricks := (bricks w)(b := None)\<rparr>" and ?F = "free_brick b w2"
      have "rel_option (same_brick reg) (bricks ?R c) (bricks ?F c)" for c
        using that(1) by (auto simp: same_topology_def free_brick_def upd_brick_def split: if_splits)
      then have same: "same_topology reg ?R ?F"
        using that(1) by (simp add: same_topology_def free_brick_def)
      moreover have "pinv_world pinv ?F" using that(2) by (simp add: pinv_world_def free_brick_def)
      ultimately show ?thesis
        using wf_world_same_topology [of reg pinv ?R ?F] rm [of ?R] same_topology_graph [OF same]
        by (simp add: free_brick_def)
    qed
    moreover have "ores (case op_destroy (reg ! ops br) of None \<Rightarrow> Ret () ?w | Some d \<Rightarrow> d b ?w)
        (\<lambda>_ w2. same_topology reg ?w w2 \<and> pinv_world pinv w2)"
      using destroy_safe [of "ops br" _ ?w b] wf_worldD(1) [OF wf br] wf' br
      by (auto simp: wf_brick_def upd_brick_def split: option.splits)
    ultimately show ?thesis
      using False br
      by (auto simp: pg_brick_decref_def get_brick_def Let_def intro!: ores_obind elim!: ores_mono)
  qed
qed

lemma link_wf:
  assumes wf: "wf_world reg pinv w" shows "ores (pg_brick_link reg west east w) (\<lambda>_. wf_world reg pinv)"
proof (cases "\<exists>wb eb wbr ebr. west = Some wb \<and> east = Some eb \<and> bricks w wb = Some wbr \<and> bricks w eb = Some ebr \<and>
    wb \<noteq> eb \<and> is_place_available wbr PG_EAST_SIDE \<and> is_place_available ebr PG_WEST_SIDE")
  case True
  then obtain wb eb wbr ebr where "west = Some wb" "east = Some eb" "bricks w wb = Some wbr" "bricks w eb = Some ebr"
    "wb \<noteq> eb" "is_place_available wbr PG_EAST_SIDE" "is_place_available ebr PG_WEST_SIDE" by blast
  then show ?thesis using pg_brick_link_refines [OF wf, of wb wbr eb ebr] by (metis ores_simps(1))
next
  case False
  then show ?thesis using wf
    by (auto simp: pg_brick_link_def get_brick_def split: option.splits)
qed

lemma unlink_wf:
  assumes wf: "wf_world reg pinv w" and "errp w = None"
  shows "ores (pg_brick_unlink reg brick w) (\<lambda>_. wf_world reg pinv)"
proof -
  have "ores (pg_brick_generic_unlink reg b w) (\<lambda>_. wf_world reg pinv)" if "bricks w b = Some br" for b br
    using generic_unlink_refines(1) [OF wf that assms(2)] by (auto simp: loop_post_def elim!: ores_mono)
  then show ?thesis using wf by (auto simp: pg_brick_unlink_def get_brick_def split: option.splits)
qed

lemma unlink_edge_wf:
  assumes wf: "wf_world reg pinv w" and err: "errp w = None"
  shows "ores (pg_brick_unlink_edge reg west east w) (\<lambda>_. wf_world reg pinv)"
proof -
  have "ores (do_unlink reg b PG_EAST_SIDE i w) (\<lambda>_. wf_world reg pinv)"
    if br: "bricks w b = Some br" and i: "find_link br PG_EAST_SIDE c [0..<n] = Some (Some i)" for b br c i n
  proof -
    have "linked_port br PG_EAST_SIDE i" using find_link_linked [OF i] .
    then obtain d j where "graph reg w (b, lside reg br PG_EAST_SIDE, i) =
        Some (d, pg_flip_side (lside reg br PG_EAST_SIDE), j)"
      using linked_port_graph br by blast
    from do_unlink_refines(1) [OF wf br this refl err] show ?thesis
      by (auto simp: unlink_post_def unlinked_def elim!: ores_mono split: if_splits)
  qed
  then show ?thesis using wf
    by (auto simp: pg_brick_unlink_edge_def get_brick_def split: option.splits intro!: ores_obind elim!: ores_mono)
qed

text \<open>A brick that could be unlinked is destroyed.\<close>

lemma destroy_wf:
  assumes wf: "wf_world reg pinv w" and un: "oret (pg_brick_unlink reg brick (w\<lparr>errp := None\<rparr>)) (\<lambda>_ w1. errp w1 = None)"
  shows "ores (pg_brick_destroy reg brick w) (\<lambda>_. wf_world reg pinv)"
proof (cases brick)
  case None
  then show ?thesis using un by (simp add: pg_brick_unlink_def set_err_def)
next
  case (Some b)
  obtain w1 where w1: "pg_brick_unlink reg brick (w\<lparr>errp := None\<rparr>) = Ret () w1" "errp w1 = None"
    using un by (auto simp: oret_iff)
  then obtain br where br: "bricks w b = Some br"
    using Some by (auto simp: pg_brick_unlink_def get_brick_def split: option.splits)
  have wf0: "wf_world reg pinv (w\<lparr>errp := None\<rparr>)" using wf by simp
  have post: "loop_post (all_ports reg b br) (w\<lparr>errp := None\<rparr>) w1"
    using generic_unlink_refines(1) [OF wf0, of b br] w1 br Some
    by (cases "op_unlink (reg ! ops br)") (simp_all add: pg_brick_unlink_def get_brick_def set_err_def, auto)
  have wf1: "wf_world reg pinv w1" using post by (simp add: loop_post_def)
  obtain br1 where br1: "bricks w1 b = Some br1"
  proof -
    have "same_shape reg (w\<lparr>errp := None\<rparr>) w1" using post by (simp add: loop_post_def)
    then have "bricks w1 b \<noteq> None" using br by (auto simp: same_shape_def option_rel_Some1 dest!: spec [of _ b])
    then show ?thesis using that by blast
  qed
  have "ores (pg_brick_decref reg brick w1) (\<lambda>_. wf_world reg pinv)"
    unfolding Some
    by (rule ores_mono [OF decref_wf [OF wf1 br1 unlinked_all(1) [OF wf0 _ post w1(2) br1]]]) (simp_all add: br)
  then show ?thesis
    unfolding pg_brick_destroy_def w1 by (simp add: ores_obind ores_mono)
qed

end

end
