(* ===== verification/PG_Api.thy ===== *)
theory PG_Api
  imports PG_Registry
begin

text \<open>
  The calls a program makes on the bricks of the library (\<open>brick.h\<close>, \<open>brick-int.h\<close>), with the
  registered bricks: what linking and unlinking do to the graph, what a new brick is, and that
  every sequence of calls leaves links that both ends agree on.
\<close>

section \<open>Programs\<close>

lemma ops_unlink: "bo \<in> set (pg_all_bricks x brst) \<Longrightarrow> op_unlink bo"
  unfolding pg_all_bricks_def set_simps by (elim insertE emptyE) (simp_all add: ops_defs)

text \<open>The calls of a program, with any arguments.\<close>

datatype api_call =
    A_new string pg_brick_config
  | A_link "nat option" "nat option"
  | A_unlink "nat option"
  | A_unlink_edge "nat option" "nat option"
  | A_destroy "nat option"
  | A_burst "nat option" pg_side nat arr u64
  | A_poll "nat option" nat
  | A_error_free

inductive api_step :: "nat \<Rightarrow> ext \<Rightarrow> api_call \<Rightarrow> world \<Rightarrow> world \<Rightarrow> bool" for n x where
  api_new: "pg_brick_new (registry n x) (Some nm) (Some config) w = Ret r w' \<Longrightarrow> api_step n x (A_new nm config) w w'"
| api_link: "pg_brick_link (registry n x) west east w = Ret v w' \<Longrightarrow> api_step n x (A_link west east) w w'"
| api_unlink: "pg_brick_unlink (registry n x) brick w = Ret () w' \<Longrightarrow> api_step n x (A_unlink brick) w w'"
| api_unlink_edge: "pg_brick_unlink_edge (registry n x) west east w = Ret v w' \<Longrightarrow> api_step n x (A_unlink_edge west east) w w'"
| api_destroy: "pg_brick_destroy (registry n x) brick w = Ret () w' \<Longrightarrow> api_step n x (A_destroy brick) w w'"
| api_burst: "pg_brick_burst n x brick from i pkts pkts_mask w = Ret v w' \<Longrightarrow>
     api_step n x (A_burst brick from i pkts pkts_mask) w w'"
| api_poll: "pg_brick_poll n x brick c w = Ret u w' \<Longrightarrow> api_step n x (A_poll brick c) w w'"
| api_error_free: "api_step n x A_error_free w (w\<lparr>errp := None\<rparr>)"

inductive_cases api_stepE: "api_step n x c w w'"

text \<open>
  What a call needs to keep the bricks in order. A brick is made with a configuration of its kind.
  An error is freed before unlinking is asked for another one. Destroying a brick is in order
  when unlinking it meets no error; \<open>pg_brick_destroy\<close> does not look whether it does.
\<close>

fun call_ok :: "nat \<Rightarrow> ext \<Rightarrow> api_call \<Rightarrow> world \<Rightarrow> bool" where
  "call_ok n x (A_new nm config) w \<longleftrightarrow> (\<forall>k. find_ops (registry n x) nm = Some k \<longrightarrow> bconfig (registry n x) k config)"
| "call_ok n x (A_unlink brick) w \<longleftrightarrow> errp w = None"
| "call_ok n x (A_unlink_edge west east) w \<longleftrightarrow> errp w = None"
| "call_ok n x (A_destroy brick) w \<longleftrightarrow>
     oret (pg_brick_unlink (registry n x) brick (w\<lparr>errp := None\<rparr>)) (\<lambda>_ w1. errp w1 = None)"
| "call_ok n x _ w \<longleftrightarrow> True"

definition good_step :: "nat \<Rightarrow> ext \<Rightarrow> world \<Rightarrow> world \<Rightarrow> bool" where
  "good_step n x w w' \<longleftrightarrow> (\<exists>c. call_ok n x c w \<and> api_step n x c w w')"

lemma good_stepI: "api_step n x c w w' \<Longrightarrow> call_ok n x c w \<Longrightarrow> good_step n x w w'"
  unfolding good_step_def by blast

lemma call_wf:
  assumes "safe w m" and "m = Ret r w'" and "wf_world (registry n x) (binv (registry n x)) w"
  shows "wf_world (registry n x) (binv (registry n x)) w' \<and> graph (registry n x) w' = graph (registry n x) w"
proof -
  have "same_topology (registry n x) w w'" "pinv_world (binv (registry n x)) w'"
    using call_topology [OF assms(1) wf_world_pinv [OF assms(3)] refl] by (simp_all add: assms(2))
  then show ?thesis using wf_world_same_topology [OF assms(3)] same_topology_graph by blast
qed

lemma api_step_wf:
  assumes "api_step n x c w w'" and ok: "call_ok n x c w" and wf: "wf_world (registry n x) (binv (registry n x)) w"
  shows "wf_world (registry n x) (binv (registry n x)) w'"
  using assms(1)
proof cases
  case (api_new nm config r)
  then show ?thesis using lib.pg_brick_new_wf [OF wf, of nm config] ok by (simp add: new_post_def)
next
  case (api_link west east v)
  then show ?thesis using contract.link_wf [OF wf, of west east] by simp
next
  case (api_unlink brick)
  then show ?thesis using contract.unlink_wf [OF wf, of brick] ok by simp
next
  case (api_unlink_edge west east v)
  then show ?thesis using contract.unlink_edge_wf [OF wf, of west east] ok by simp
next
  case (api_destroy brick)
  then show ?thesis using contract.destroy_wf [OF wf, of brick] ok by simp
next
  case (api_burst brick "from" i pkts pkts_mask v)
  then show ?thesis using call_wf [OF flow.burst_safe _ wf] by blast
next
  case (api_poll brick c u)
  then show ?thesis using call_wf [OF pg_brick_poll_safe _ wf] by blast
next
  case api_error_free
  then show ?thesis using wf by simp
qed

lemma good_step_wf:
  "good_step n x w w' \<Longrightarrow> wf_world (registry n x) (binv (registry n x)) w \<Longrightarrow> wf_world (registry n x) (binv (registry n x)) w'"
  unfolding good_step_def using api_step_wf by blast

lemma wf_world_empty: "bricks w = (\<lambda>_. None) \<Longrightarrow> wf_world reg pinv w"
  by (simp add: wf_world_def matching_def graph_def)

section \<open>Properties\<close>

text \<open>Two new bricks without links, for the examples below.\<close>

definition nop_config :: pg_brick_config where
  "nop_config = \<lparr>conf_name = ''relay'', west_max = 1, east_max = 1, conf_type = PG_DIPOLE, brick_config = None\<rparr>"

definition nop_brick :: pg_brick where
  "nop_brick = \<lparr>burst = Some nop_burst_fn, poll = None, ops = 4, refcount = 1, brick_name = ''relay'',
     brick_type = PG_DIPOLE, sides = (\<lambda>_. zero_side\<lparr>side_max := 1\<rparr>), priv_state = P_nop\<rparr>"

definition two_nops :: world where
  "two_nops = demo_world\<lparr>bricks := [0 \<mapsto> nop_brick, 1 \<mapsto> nop_brick], brick_next := 2\<rparr>"

lemma registry_4: "registry n x ! 4 = nop_ops"
  by (simp add: pg_all_bricks_def)

lemma nop_brick_wf:
  "wf_brick (registry n x) nop_brick" "binv (registry n x) (ops nop_brick) (priv_state nop_brick)"
  "1 + int (degree nop_brick) \<le> refcount nop_brick" "plink (registry n x) nop_brick s i = None"
  by (simp_all add: nop_brick_def wf_brick_def wf_side_def binv_def registry_4 degree_def side_links_def
      plink_def zero_side_def null_edge_def) (simp_all add: pg_all_bricks_def)

lemma two_nops_wf: "wf_world (registry n x) (binv (registry n x)) two_nops"
proof -
  let ?W = "demo_world\<lparr>brick_next := 2\<rparr>" and ?R = "registry n x"
  have "wf_world ?R (binv ?R) (?W\<lparr>bricks := (bricks ?W)(0 \<mapsto> nop_brick)\<rparr>)"
    using wf_world_add [of ?R "binv ?R" ?W 0 "?W\<lparr>bricks := (bricks ?W)(0 \<mapsto> nop_brick)\<rparr>"]
    by (simp add: wf_world_empty demo_world_def nop_brick_wf)
  then show ?thesis
    using wf_world_add [of ?R "binv ?R" "?W\<lparr>bricks := (bricks ?W)(0 \<mapsto> nop_brick)\<rparr>" 1 two_nops]
    by (simp add: two_nops_def demo_world_def nop_brick_wf)
qed

text \<open>
  C5. A new brick is of the type it is asked for. In a world in order, \<open>pg_brick_new\<close> with a
  configuration of the brick gives back a world in order with the same links, and either no
  brick, its memory freed, or a brick at a fresh address: with the name, the type and the numbers
  of edges of the configuration, one reference, no link and a burst callback.
\<close>
theorem pg_brick_new_typed:
  assumes "wf_world (registry n x) (binv (registry n x)) w"
    and "\<forall>k. find_ops (registry n x) nm = Some k \<longrightarrow> bconfig (registry n x) k config"
    and "pg_brick_new (registry n x) (Some nm) (Some config) w = Ret r w'"
  shows "wf_world (registry n x) (binv (registry n x)) w' \<and> graph (registry n x) w' = graph (registry n x) w \<and>
    (case r of None \<Rightarrow> bricks w' (brick_next w) = None
     | Some b \<Rightarrow> b = brick_next w \<and> (\<exists>br. bricks w' b = Some br \<and> brick_name br = conf_name config \<and>
         brick_type br = conf_type config \<and> refcount br = 1 \<and> degree br = 0 \<and>
         side_max (sides br PG_WEST_SIDE) = west_max config \<and> side_max (sides br PG_EAST_SIDE) = east_max config \<and>
         burst br \<noteq> None))"
  using lib.pg_brick_new_wf [OF assms(1), of nm config] assms(2,3)
  by (auto simp: new_post_def new_brick_def split: option.splits)

lemma find_nop: "find_ops (registry n x) ''nop'' = Some 4"
  by (simp add: pg_all_bricks_def ops_defs)

lemma nop_ops_simps:
  "op_state_size nop_ops = 1" "op_init nop_ops = nop_init" "op_zero nop_ops = P_nop"
  by (simp_all add: nop_ops_def base_ops_def sizeof_state_def)

lemma new_nop:
  "\<exists>w'. pg_brick_new (registry n x) (Some ''nop'') (Some nop_config) w = Ret (Some (brick_next w)) w' \<and>
     bricks w' = (bricks w)(brick_next w \<mapsto> nop_brick) \<and> brick_next w' = Suc (brick_next w)"
  by (simp add: pg_brick_new_def find_nop registry_4 nop_ops_simps malloc_brick_def nop_config_def
      check_side_max_def zero_brick_counters_def pg_brick_set_max_edges_def upd_brick_def nop_init_def
      assert_brick_callback_def alloc_edges_def get_brick_def nop_brick_def zero_side_def
      set_burst_def upd_side_def alloc_side_def Let_def)
    (auto simp: fun_eq_iff; metis (full_types) pg_side.exhaust)

theorem pg_brick_new_typed_witness:
  "\<exists>w' br. pg_brick_new (registry 0 demo_ext) (Some ''nop'') (Some nop_config) two_nops = Ret (Some 2) w' \<and>
     wf_world (registry 0 demo_ext) (binv (registry 0 demo_ext)) w' \<and> bricks w' 2 = Some br \<and> brick_name br = ''relay''"
proof -
  obtain w' where w': "pg_brick_new (registry 0 demo_ext) (Some ''nop'') (Some nop_config) two_nops = Ret (Some 2) w'"
    using new_nop [of demo_ext 0 two_nops] by (auto simp: two_nops_def)
  have "\<forall>k. find_ops (registry 0 demo_ext) ''nop'' = Some k \<longrightarrow> bconfig (registry 0 demo_ext) k nop_config"
    by (simp add: bconfig_def nop_config_def)
  from pg_brick_new_typed [OF two_nops_wf this w'] w' show ?thesis
    by (auto simp: two_nops_def nop_config_def)
qed

text \<open>
  C2. Linking refines adding a pair to a matching. In a world in order, \<open>pg_brick_link\<close> of two
  bricks fails without a change but the error when the bricks are the same or one of the sides is
  full; otherwise it returns 0 and has joined a free edge of the east side of the west brick with
  a free edge of the west side of the east brick, and nothing else.
\<close>
theorem pg_brick_link_refines_matching:
  assumes "wf_world (registry n x) (binv (registry n x)) w"
    and "bricks w wb = Some wbr" and "bricks w eb = Some ebr"
  shows "if wb = eb \<or> \<not> is_place_available ebr PG_WEST_SIDE \<or> \<not> is_place_available wbr PG_EAST_SIDE
    then \<exists>e. pg_brick_link (registry n x) (Some wb) (Some eb) w = Ret (-1) (set_err e w)
    else \<exists>i j w'. pg_brick_link (registry n x) (Some wb) (Some eb) w = Ret 0 w' \<and>
      graph (registry n x) w (wb, PG_EAST_SIDE, i) = None \<and> graph (registry n x) w (eb, PG_WEST_SIDE, j) = None \<and>
      graph (registry n x) w' = m_link (wb, PG_EAST_SIDE, i) (eb, PG_WEST_SIDE, j) (graph (registry n x) w) \<and>
      wf_world (registry n x) (binv (registry n x)) w' \<and> errp w' = errp w"
proof (cases "wb = eb \<or> \<not> is_place_available ebr PG_WEST_SIDE \<or> \<not> is_place_available wbr PG_EAST_SIDE")
  case True
  then show ?thesis using assms(2,3) by (auto simp: pg_brick_link_def get_brick_def)
next
  case False
  then obtain i j w' where "pg_brick_link (registry n x) (Some wb) (Some eb) w = Ret 0 w'"
    "graph (registry n x) w (wb, PG_EAST_SIDE, i) = None" "graph (registry n x) w (eb, PG_WEST_SIDE, j) = None"
    "graph (registry n x) w' = m_link (wb, PG_EAST_SIDE, i) (eb, PG_WEST_SIDE, j) (graph (registry n x) w)"
    "wf_world (registry n x) (binv (registry n x)) w'" "errp w' = errp w"
    using contract.pg_brick_link_refines [OF assms] by metis
  then show ?thesis using False by auto
qed

theorem pg_brick_link_refines_matching_witness:
  "\<exists>w'. pg_brick_link (registry 0 demo_ext) (Some 0) (Some 1) two_nops = Ret 0 w' \<and>
     wf_world (registry 0 demo_ext) (binv (registry 0 demo_ext)) w'"
proof -
  have "bricks two_nops 0 = Some nop_brick" "bricks two_nops 1 = Some nop_brick" by (simp_all add: two_nops_def)
  moreover have "is_place_available nop_brick s" for s
    by (simp add: is_place_available_def get_side_def nop_brick_def zero_side_def)
  ultimately show ?thesis
    using pg_brick_link_refines_matching [OF two_nops_wf, of 0 nop_brick 1 nop_brick demo_ext 0] by auto
qed

text \<open>
  C3. Unlinking refines cutting a brick out of the matching. In a world in order with no error
  set and without vtep bricks, whose callbacks talk to the network, \<open>pg_brick_unlink\<close> returns without an error, the
  brick and its former neighbours have no edge to each other any more, every other link is as
  before, and no reference but those of the links is gone.
\<close>
theorem pg_brick_unlink_refines_matching:
  assumes "wf_world (registry n x) (binv (registry n x)) w"
    and "bricks w b = Some br" and "errp w = None"
    and "\<forall>c cr. bricks w c = Some cr \<longrightarrow> bquiet (registry n x) (ops cr)"
  shows "oret (pg_brick_unlink (registry n x) (Some b) w) (\<lambda>_ w'. errp w' = None \<and>
    wf_world (registry n x) (binv (registry n x)) w' \<and> holders w' = holders w \<and>
    graph (registry n x) w' = m_isolate b (graph (registry n x) w))"
proof -
  have un: "op_unlink (registry n x ! ops br)"
    using wf_worldD(1) [OF assms(1,2)] ops_unlink [of "registry n x ! ops br" x "pg_brick_burst n x"]
    by (auto simp: wf_brick_def)
  have "contract.quiet_world x n w" using assms(4) by (auto simp: contract.quiet_world_def)
  then obtain w' where "pg_brick_generic_unlink (registry n x) b w = Ret () w'" "errp w' = None"
    using contract.generic_unlink_refines(2) [OF assms(1-3)] by (auto simp: oret_iff)
  moreover from this have "contract.loop_post x n (all_ports (registry n x) b br) w w'"
    using contract.generic_unlink_refines(1) [OF assms(1-3)] by simp
  ultimately show ?thesis
    using un assms(2) fold_all_ports [OF assms(1,2)]
    by (simp add: pg_brick_unlink_def get_brick_def contract.loop_post_def)
qed

theorem pg_brick_unlink_refines_matching_witness:
  "\<exists>w'. pg_brick_unlink (registry 0 demo_ext) (Some 1) two_nops = Ret () w' \<and>
     wf_world (registry 0 demo_ext) (binv (registry 0 demo_ext)) w'"
proof -
  have "bricks two_nops 1 = Some nop_brick" "errp two_nops = None" by (simp_all add: two_nops_def demo_world_def)
  moreover have "\<forall>c cr. bricks two_nops c = Some cr \<longrightarrow> bquiet (registry 0 demo_ext) (ops cr)"
    by (auto simp: two_nops_def nop_brick_def bquiet_def registry_4 split: if_splits)
  ultimately show ?thesis
    using pg_brick_unlink_refines_matching [OF two_nops_wf, of 1 nop_brick demo_ext 0] by (auto simp: oret_iff)
qed

lemma reach_linked:
  assumes "wf_world (registry n x) (binv (registry n x)) w" and "brick_next w = 0"
  obtains w' br i j where "(good_step n x)\<^sup>*\<^sup>* w w'" and "bricks w' 0 = Some br"
    and "plink (registry n x) br PG_EAST_SIDE i = Some (1, j)"
proof -
  let ?R = "registry n x"
  obtain w1 where w1: "pg_brick_new ?R (Some ''nop'') (Some nop_config) w = Ret (Some 0) w1"
      "bricks w1 = (bricks w)(0 \<mapsto> nop_brick)" "brick_next w1 = 1"
    using new_nop [of x n w] assms(2) by auto
  obtain w2 where w2: "pg_brick_new ?R (Some ''nop'') (Some nop_config) w1 = Ret (Some 1) w2"
      "bricks w2 = (bricks w)(0 \<mapsto> nop_brick, 1 \<mapsto> nop_brick)"
    using new_nop [of x n w1] w1 by auto
  have c: "\<forall>k. find_ops ?R ''nop'' = Some k \<longrightarrow> bconfig ?R k nop_config"
    by (simp add: bconfig_def nop_config_def)
  have s1: "good_step n x w w1" and s2: "good_step n x w1 w2"
    using good_stepI [OF api_new [OF w1(1)]] good_stepI [OF api_new [OF w2(1)]] c by simp_all
  have wf2: "wf_world ?R (binv ?R) w2" using good_step_wf [OF s2 good_step_wf [OF s1 assms(1)]] .
  have av: "is_place_available nop_brick s" for s
    by (simp add: is_place_available_def get_side_def nop_brick_def zero_side_def)
  have b2: "bricks w2 0 = Some nop_brick" "bricks w2 1 = Some nop_brick" by (simp_all add: w2(2))
  obtain i j w3 where w3: "pg_brick_link ?R (Some 0) (Some 1) w2 = Ret 0 w3"
      "graph ?R w3 = m_link (0, PG_EAST_SIDE, i) (1, PG_WEST_SIDE, j) (graph ?R w2)"
    using contract.pg_brick_link_refines [OF wf2 b2 zero_neq_one av av] by metis
  have "graph ?R w3 (0, PG_EAST_SIDE, i) = Some (1, PG_WEST_SIDE, j)" by (simp add: w3(2) m_link_def)
  then obtain br where br: "bricks w3 0 = Some br" "plink ?R br PG_EAST_SIDE i = Some (1, j)"
    by (auto simp: graph_def split: option.splits)
  have "good_step n x w2 w3" by (rule good_stepI [OF api_link [OF w3(1)]]) simp
  then have "(good_step n x)\<^sup>*\<^sup>* w w3"
    using s1 s2 by (meson r_into_rtranclp rtranclp_trans)
  then show thesis using br by (rule that)
qed

text \<open>
  C1. Both ends agree on every link. From a world without bricks, after any sequence of
  \<open>pg_brick_new\<close>, \<open>pg_brick_link\<close>, \<open>pg_brick_unlink\<close>, \<open>pg_brick_unlink_edge\<close>, \<open>pg_brick_destroy\<close>,
  \<open>pg_brick_burst\<close> and \<open>pg_brick_poll\<close> calls that return, in which bricks are made with a
  configuration of their kind, an error is freed before the next unlinking, and no brick is
  destroyed whose unlinking fails (which only vtep bricks can make it do): an edge that points to
  a brick points to one that is not freed, on its opposite side, and the edge of the pair index
  there points back; and no brick in use has fewer references than links and its maker hold.
\<close>
theorem reachable_links_agree:
  assumes "(good_step n x)\<^sup>*\<^sup>* w0 w" and "bricks w0 = (\<lambda>_. None)" and "bricks w b = Some br"
  shows "1 + int (degree br) \<le> refcount br \<and>
    (\<forall>s i c j. plink (registry n x) br s i = Some (c, j) \<longrightarrow>
      c \<noteq> b \<and> (\<exists>cr. bricks w c = Some cr \<and> plink (registry n x) cr (pg_flip_side s) j = Some (b, i)))"
proof -
  have "wf_world (registry n x) (binv (registry n x)) w"
    using assms(1)
  proof induction
    case base
    show ?case by (rule wf_world_empty [OF assms(2)])
  next
    case (step y z)
    then show ?case using good_step_wf by blast
  qed
  note wf = this
  have "c \<noteq> b \<and> (\<exists>cr. bricks w c = Some cr \<and> plink (registry n x) cr (pg_flip_side s) j = Some (b, i))"
    if "plink (registry n x) br s i = Some (c, j)" for s i c j
  proof -
    have "graph (registry n x) w (b, s, i) = Some (c, pg_flip_side s, j)"
      using that assms(3) by (simp add: graph_def)
    from matchingD [OF wf_world_matching [OF wf] this]
    have "graph (registry n x) w (c, pg_flip_side s, j) = Some (b, s, i)" "c \<noteq> b" by simp_all
    then show ?thesis by (cases "bricks w c") (auto simp: graph_def)
  qed
  then show ?thesis using wf_worldD(3) [OF wf assms(3)] by blast
qed

theorem reachable_links_agree_witness:
  "\<exists>w br cr i j. (good_step 0 demo_ext)\<^sup>*\<^sup>* demo_world w \<and> bricks w 0 = Some br \<and> bricks w 1 = Some cr \<and>
     plink (registry 0 demo_ext) br PG_EAST_SIDE i = Some (1, j) \<and>
     plink (registry 0 demo_ext) cr PG_WEST_SIDE j = Some (0, i)"
proof -
  have empty: "bricks demo_world = (\<lambda>_. None)" "brick_next demo_world = 0" by (simp_all add: demo_world_def)
  obtain w br i j where w: "(good_step 0 demo_ext)\<^sup>*\<^sup>* demo_world w" "bricks w 0 = Some br"
      "plink (registry 0 demo_ext) br PG_EAST_SIDE i = Some (1, j)"
    using reach_linked [OF wf_world_empty [OF empty(1)] empty(2)] by blast
  from reachable_links_agree [OF w(1) empty(1) w(2)] w(3)
  obtain cr where "bricks w 1 = Some cr" "plink (registry 0 demo_ext) cr PG_WEST_SIDE j = Some (0, i)"
    by fastforce
  with w show ?thesis by blast
qed

section \<open>Destroying a brick that cannot be unlinked\<close>

text \<open>Without vtep bricks every brick of a world in order can be destroyed in order.\<close>

lemma destroy_ok_quiet:
  assumes "wf_world (registry n x) (binv (registry n x)) w" and "bricks w b = Some br"
    and "\<forall>c cr. bricks w c = Some cr \<longrightarrow> bquiet (registry n x) (ops cr)"
  shows "call_ok n x (A_destroy (Some b)) w"
proof -
  have un: "op_unlink (registry n x ! ops br)"
    using wf_worldD(1) [OF assms(1,2)] ops_unlink [of "registry n x ! ops br" x "pg_brick_burst n x"]
    by (auto simp: wf_brick_def)
  have "wf_world (registry n x) (binv (registry n x)) (w\<lparr>errp := None\<rparr>)" "bricks (w\<lparr>errp := None\<rparr>) b = Some br"
      "contract.quiet_world x n (w\<lparr>errp := None\<rparr>)"
    using assms by (auto simp: contract.quiet_world_def)
  from contract.generic_unlink_refines(2) [OF this(1,2) _ this(3)] show ?thesis
    using un assms(2) by (simp add: pg_brick_unlink_def get_brick_def)
qed

lemma refcount_topology:
  "plink reg (br\<lparr>refcount := k\<rparr>) s i = plink reg br s i" "degree (br\<lparr>refcount := k\<rparr>) = degree br"
  by (simp_all add: plink_def gside_def degree_def side_links_def cong: option.case_cong pg_brick_type.case_cong)

text \<open>
  C4. Destroying a brick whose unlinking fails does not destroy it. When unlinking leaves the
  brick with a link, \<open>pg_brick_destroy\<close> returns as if nothing had happened: the brick and the
  links that are left stay, the error is lost, and the reference of the maker of the brick is given
  back. A brick that only its maker and its links held is then held by its links alone, and the
  world is no longer in order.
\<close>
theorem pg_brick_destroy_ignores_error:
  assumes "wf_world (registry n x) (binv (registry n x)) w" and "bricks w b = Some br"
    and "pg_brick_unlink (registry n x) (Some b) (w\<lparr>errp := None\<rparr>) = Ret () w1"
    and "bricks w1 b = Some br1" and "0 < degree br1"
  shows "\<exists>w'. pg_brick_destroy (registry n x) (Some b) w = Ret () w' \<and> errp w' = errp w \<and>
    graph (registry n x) w' = graph (registry n x) w1 \<and> holders w' = (holders w)(b := map_option (\<lambda>h. h - 1) (holders w b)) \<and>
    (holders w b = Some 1 \<longrightarrow> \<not> wf_world (registry n x) (binv (registry n x)) w')"
proof -
  let ?R = "registry n x" and ?w0 = "w\<lparr>errp := None\<rparr>"
  have wf0: "wf_world ?R (binv ?R) ?w0" "bricks ?w0 b = Some br" using assms(1,2) by simp_all
  have un: "op_unlink (?R ! ops br)"
    using wf_worldD(1) [OF assms(1,2)] ops_unlink [of "?R ! ops br" x "pg_brick_burst n x"]
    by (auto simp: wf_brick_def)
  have post: "contract.loop_post x n (all_ports ?R b br) ?w0 w1"
    using contract.generic_unlink_refines(1) [OF wf0] un assms(2,3) by (simp add: pg_brick_unlink_def get_brick_def)
  have wf1: "wf_world ?R (binv ?R) w1" and h1: "holders w1 = holders w"
    using post by (simp_all add: contract.loop_post_def) (simp_all add: holders_def fun_eq_iff)
  have rc: "1 + int (degree br1) \<le> refcount br1" by (rule wf_worldD(3) [OF wf1 assms(4)])
  define w2 where "w2 = upd_brick b (\<lambda>br. br\<lparr>refcount := refcount br - 1\<rparr>) w1"
  have w2: "bricks w2 = (bricks w1)(b \<mapsto> br1\<lparr>refcount := refcount br1 - 1\<rparr>)"
    using assms(4) by (simp add: w2_def upd_brick_def)
  have "pg_brick_decref ?R (Some b) w1 = Ret (Some b) w2"
    using assms(4,5) rc by (simp add: pg_brick_decref_def get_brick_def w2_def)
  then have run: "pg_brick_destroy ?R (Some b) w = Ret () (w2\<lparr>errp := errp w\<rparr>)"
    using assms(3) by (simp add: pg_brick_destroy_def)
  have "graph ?R (w2\<lparr>errp := errp w\<rparr>) = graph ?R w1"
    using assms(4) by (auto simp: graph_def w2 fun_eq_iff refcount_topology)
  moreover have hold: "holders (w2\<lparr>errp := errp w\<rparr>) = (holders w)(b := map_option (\<lambda>h. h - 1) (holders w b))"
    using assms(4) by (auto simp: h1 [symmetric] holders_def w2 fun_eq_iff refcount_topology)
  moreover have "\<not> wf_world ?R (binv ?R) (w2\<lparr>errp := errp w\<rparr>)" if "holders w b = Some 1"
  proof
    assume wf2: "wf_world ?R (binv ?R) (w2\<lparr>errp := errp w\<rparr>)"
    obtain br2 where br2: "bricks (w2\<lparr>errp := errp w\<rparr>) b = Some br2" by (simp add: w2)
    then have "refcount br2 = int (degree br2)"
      using fun_cong [OF hold, of b] that by (auto simp: holders_def)
    then show False using wf_worldD(3) [OF wf2 br2] by simp
  qed
  ultimately show ?thesis using run by auto
qed

text \<open>
  A relay linked to a port of an endpoint that has a multicast address. No packet can be
  allocated, so the endpoint cannot say that it leaves the group when the relay is destroyed.
\<close>

definition linked_vtep :: pg_brick where
  "linked_vtep = \<lparr>burst = Some vtep4_burst_fn, poll = None, ops = 9, refcount = 2, brick_name = ''tunnel'',
     brick_type = PG_MULTIPOLE,
     sides = case_pg_side (zero_side\<lparr>side_max := 1, edges := [null_edge]\<rparr>)
       (zero_side\<lparr>side_max := 1, side_nb := 1, edges := [\<lparr>link = Some 1, pair_index = 0\<rparr>]\<rparr>),
     priv_state = P_vtep (demo_vtep\<lparr>vt_output := PG_WEST_SIDE\<rparr>)\<rparr>"

definition linked_nop :: pg_brick where
  "linked_nop = nop_brick\<lparr>refcount := 2, sides := case_pg_side
     (zero_side\<lparr>side_max := 1, side_nb := 1, edge := \<lparr>link = Some 0, pair_index = 0\<rparr>\<rparr>) (zero_side\<lparr>side_max := 1\<rparr>)\<rparr>"

definition vtep_and_nop :: world where
  "vtep_and_nop = demo_world\<lparr>bricks := [0 \<mapsto> linked_vtep, 1 \<mapsto> linked_nop], brick_next := 2\<rparr>"

lemma registry_9: "registry n x ! 9 = vtep_ops IPV4 x (pg_brick_burst n x)"
  by (simp add: pg_all_bricks_def)

lemma vtep_and_nop_wf: "wf_world (registry n x) (binv (registry n x)) vtep_and_nop"
proof -
  let ?R = "registry n x"
  have len: "length ?R = 21" by (simp add: pg_all_bricks_def)
  have "plink ?R linked_vtep s i = (if s = PG_EAST_SIDE \<and> i = 0 then Some (1, 0) else None)"
      "plink ?R linked_nop s i = (if s = PG_WEST_SIDE \<and> i = 0 then Some (0, 0) else None)" for s i
    by (cases s; simp add: plink_def linked_vtep_def linked_nop_def nop_brick_def zero_side_def null_edge_def)+
  then have "graph ?R vtep_and_nop (b, s, i) =
      (if (b, s, i) = (0, PG_EAST_SIDE, 0) then Some (1, PG_WEST_SIDE, 0)
       else if (b, s, i) = (1, PG_WEST_SIDE, 0) then Some (0, PG_EAST_SIDE, 0) else None)" for b s i
    by (simp add: graph_def vtep_and_nop_def demo_world_def)
  then have "matching (graph ?R vtep_and_nop)" by (auto simp: matching_def split: if_splits)
  moreover have "wf_brick ?R linked_vtep \<and> binv ?R (ops linked_vtep) (priv_state linked_vtep) \<and>
      1 + int (degree linked_vtep) \<le> refcount linked_vtep"
    by (simp add: linked_vtep_def wf_brick_def wf_side_def binv_def registry_9 vtep_ops_def degree_def side_links_def
        zero_side_def null_edge_def len base_ops_def split: pg_side.splits)
  moreover have "wf_brick ?R linked_nop \<and> binv ?R (ops linked_nop) (priv_state linked_nop) \<and>
      1 + int (degree linked_nop) \<le> refcount linked_nop"
    by (simp add: linked_nop_def nop_brick_def wf_brick_def wf_side_def binv_def registry_4 nop_ops_def degree_def
        side_links_def zero_side_def null_edge_def len base_ops_def split: pg_side.splits)
  ultimately show ?thesis by (auto simp: wf_world_def vtep_and_nop_def demo_world_def split: if_splits)
qed

lemma unlink_fails:
  "pg_brick_unlink (registry 0 demo_ext) (Some 1) (vtep_and_nop\<lparr>errp := None\<rparr>) =
     Ret () (set_err (pg_error_new ''packet allocation failed'' []) (vtep_and_nop\<lparr>errp := None\<rparr>))"
proof -
  have up: "op_unlink (registry 0 demo_ext ! 4)" "op_unlink_notify (registry 0 demo_ext ! 9) =
      Some (vtep_unlink_notify IPV4 demo_ext (pg_brick_burst 0 demo_ext))"
    by (simp_all add: registry_4 registry_9 nop_ops_def vtep_ops_def base_ops_def)
  let ?w = "vtep_and_nop\<lparr>errp := None\<rparr>"
  let ?e = "set_err (pg_error_new ''packet allocation failed'' []) ?w"
  have st: "state_at st_vtep ?w 0 = Some (demo_vtep\<lparr>vt_output := PG_WEST_SIDE\<rparr>)"
    by (simp add: state_at_def vtep_and_nop_def linked_vtep_def)
  have "x_alloc demo_ext ms = (None, ms)" for ms by (simp add: demo_ext_def)
  moreover have "pg_is_multicast_ip IPV4 [224, 0, 0, 5]" by code_simp
  ultimately have notify: "vtep_unlink_notify IPV4 demo_ext (pg_brick_burst 0 demo_ext) 0 PG_EAST_SIDE 0 ?w = Ret () ?e"
    using st by (simp add: vtep_unlink_notify_def do_remove_vni_def get_port_def multicast4_internal_def demo_vtep_def
        set_err_def pg_error_is_set_def)
  have get: "get_brick 1 ?w = Ret linked_nop ?w" "get_brick 0 ?w = Ret linked_vtep ?w"
    by (simp_all add: get_brick_def vtep_and_nop_def)
  have edge: "pg_brick_get_edge linked_nop PG_WEST_SIDE 0 = Some \<lparr>link = Some 0, pair_index = 0\<rparr>"
      "pg_brick_get_edge linked_vtep PG_EAST_SIDE 0 \<noteq> None"
    by (simp_all add: pg_brick_get_edge_def linked_nop_def nop_brick_def linked_vtep_def)
  have ops: "ops linked_nop = 4" "ops linked_vtep = 9" "brick_type linked_nop = PG_DIPOLE"
    by (simp_all add: linked_nop_def nop_brick_def linked_vtep_def)
  have "do_unlink (registry 0 demo_ext) 1 PG_WEST_SIDE 0 ?w = Ret () ?e"
    using notify up edge
    by (auto simp: do_unlink_def get [unfolded One_nat_def] read_edge_def unlink_notify_def ops Let_def unless_error_def
        set_err_def pg_error_is_set_def)
  moreover have "pg_brick_edge_iterator_init linked_nop = \<lparr>eit_edge = 0, eit_side = Some PG_WEST_SIDE, eit_end = False\<rparr>"
    using edge(1) by (simp add: pg_brick_edge_iterator_init_def edge_linked_def)
  ultimately show ?thesis
    using up by (simp add: pg_brick_unlink_def pg_brick_generic_unlink_def get [unfolded One_nat_def] ops Let_def
        unless_error_def numeral_3_eq_3 set_err_def pg_error_is_set_def)
qed

theorem pg_brick_destroy_ignores_error_witness:
  "\<exists>w'. pg_brick_destroy (registry 0 demo_ext) (Some 1) vtep_and_nop = Ret () w' \<and> errp w' = None \<and>
     \<not> wf_world (registry 0 demo_ext) (binv (registry 0 demo_ext)) w'"
proof -
  have b: "bricks vtep_and_nop 1 = Some linked_nop" "errp vtep_and_nop = None"
    by (simp_all add: vtep_and_nop_def demo_world_def)
  have "degree linked_nop = 1" "refcount linked_nop = 2"
    by (simp_all add: linked_nop_def nop_brick_def degree_def side_links_def zero_side_def null_edge_def)
  then have d: "0 < degree linked_nop" "holders vtep_and_nop 1 = Some 1" by (simp_all add: holders_def b del: One_nat_def)
  show ?thesis
    using pg_brick_destroy_ignores_error [OF vtep_and_nop_wf b(1) unlink_fails _ d(1)] b d(2) by (auto simp: set_err_def)
qed

end
