(* ===== verification/PG_Graph.thy ===== *)
theory PG_Graph
  imports PG_Api
begin

text \<open>
  Graphs (\<open>src/graph.c\<close>): containers of bricks that find bricks by name, explore links, poll, and
  are split and merged at pairs of queues. A GLib hash table is the list of its entries, latest
  first; \<open>ord\<close> is the order in which GLib iterates over a table, of which only is known that it
  leaves out nothing and adds nothing. The keys of the table are the names of the bricks.
  Exploring takes fuel: one more than the number of bricks ever made is enough.
\<close>

record pg_graph =
  gr_name :: string
  gr_pollable :: "nat list"
  gr_all :: "(string \<times> nat) list"

type_synonym hash_order = "(string \<times> nat) list \<Rightarrow> (string \<times> nat) list"

definition empty_graph :: "pg_graph \<Rightarrow> pg_graph" where
  "empty_graph g = g\<lparr>gr_all := [], gr_pollable := []\<rparr>"

definition pg_graph_name :: "pg_graph \<Rightarrow> string" where
  "pg_graph_name g = gr_name g"

definition pg_graph_empty :: "pg_graph \<Rightarrow> pg_graph" where
  "pg_graph_empty g = empty_graph g"

definition pg_graph_count :: "pg_graph \<Rightarrow> nat" where
  "pg_graph_count g = length (gr_all g)"

definition pg_graph_get :: "pg_graph \<Rightarrow> string \<Rightarrow> nat option" where
  "pg_graph_get g nm = map_of (gr_all g) nm"

section \<open>Adding and removing bricks\<close>

definition pg_graph_push :: "pg_graph \<Rightarrow> nat \<Rightarrow> world \<Rightarrow> (int \<times> pg_graph, world) out" where
  "pg_graph_push g b w =
     obind (get_brick b w) (\<lambda>br w.
       if map_of (gr_all g) (brick_name br) \<noteq> None then
         Ret (-1, g) (set_err (pg_error_new ''A brick named %s already in graph %s'' [brick_name br, gr_name g]) w)
       else
         let g = g\<lparr>gr_all := (brick_name br, b) # gr_all g\<rparr> in
         Ret (0, if poll br \<noteq> None then g\<lparr>gr_pollable := b # gr_pollable g\<rparr> else g) w)"

definition graph_pop :: "pg_graph \<Rightarrow> nat option \<Rightarrow> world \<Rightarrow> (nat option \<times> pg_graph, world) out" where
  "graph_pop g brick w =
     (case brick of None \<Rightarrow> Ret (None, g) w
      | Some b \<Rightarrow>
          obind (get_brick b w) (\<lambda>br w.
            let g = g\<lparr>gr_all := filter (\<lambda>kv. fst kv \<noteq> brick_name br) (gr_all g)\<rparr> in
            Ret (Some b, if poll br \<noteq> None then g\<lparr>gr_pollable := remove1 b (gr_pollable g)\<rparr> else g) w))"

definition pg_graph_unsafe_pop :: "pg_graph \<Rightarrow> string \<Rightarrow> world \<Rightarrow> (nat option \<times> pg_graph, world) out" where
  "pg_graph_unsafe_pop g nm w = graph_pop g (pg_graph_get g nm) w"

definition pg_graph_brick_destroy ::
    "brick_ops list \<Rightarrow> pg_graph \<Rightarrow> string \<Rightarrow> world \<Rightarrow> (int \<times> pg_graph, world) out" where
  "pg_graph_brick_destroy reg g nm w =
     obind (pg_graph_unsafe_pop g nm w) (\<lambda>(b, g) w.
       if b = None then Ret (-1, g) (set_err (pg_error_new ''Brick %s not found'' [nm]) w)
       else obind (pg_brick_destroy reg b w) (\<lambda>_ w. Ret (0, g) w))"

text \<open>The bricks of the graph go with it: \<open>brick_destroy_cb\<close> is the destructor of the values.\<close>

definition pg_graph_destroy :: "brick_ops list \<Rightarrow> hash_order \<Rightarrow> pg_graph \<Rightarrow> world \<Rightarrow> (unit, world) out" where
  "pg_graph_destroy reg ord g w = ofold (\<lambda>(nm, b) w. pg_brick_destroy reg (Some b) w) (ord (gr_all g)) w"

section \<open>Exploring\<close>

primrec add_edges ::
    "nat \<Rightarrow> pg_brick \<Rightarrow> edge_iterator \<Rightarrow> nat list \<Rightarrow> nat list \<Rightarrow> world \<Rightarrow> (nat list, world) out" where
  "add_edges 0 br it todo dn w = Diverge"
| "add_edges (Suc n) br it todo dn w =
     (if eit_end it then Ret todo w
      else case eit_side it of None \<Rightarrow> Abort ''PG_MAX_SIDE''
      | Some s \<Rightarrow>
        (case pg_brick_get_edge br s (eit_edge it) of None \<Rightarrow> Abort ''null pointer''
         | Some e \<Rightarrow>
             let todo = (case link e of None \<Rightarrow> todo
                         | Some c \<Rightarrow> if c \<notin> set todo \<and> c \<notin> set dn then c # todo else todo) in
             add_edges n br (pg_brick_edge_iterator_next br it) todo dn w))"

definition explore_add_neighbours :: "nat list \<Rightarrow> nat list \<Rightarrow> nat \<Rightarrow> world \<Rightarrow> (nat list, world) out" where
  "explore_add_neighbours todo dn b w =
     obind (get_brick b w) (\<lambda>br w.
       let it = pg_brick_edge_iterator_init br in
       add_edges (eit_measure br it + 3) br it todo dn w)"

definition get_any_brick :: "hash_order \<Rightarrow> pg_graph \<Rightarrow> nat option" where
  "get_any_brick ord g =
     (case gr_pollable g of b # _ \<Rightarrow> Some b
      | [] \<Rightarrow> (case ord (gr_all g) of [] \<Rightarrow> None | (nm, b) # _ \<Rightarrow> Some b))"

primrec explore_loop :: "nat \<Rightarrow> nat list \<Rightarrow> nat list \<Rightarrow> world \<Rightarrow> (nat list, world) out" where
  "explore_loop 0 todo dn w = Diverge"
| "explore_loop (Suc n) todo dn w =
     (case todo of [] \<Rightarrow> Ret dn w
      | b # todo \<Rightarrow>
          obind (explore_add_neighbours todo (b # dn) b w) (\<lambda>todo w. explore_loop n todo (b # dn) w))"

primrec push_bricks :: "nat list \<Rightarrow> pg_graph \<Rightarrow> world \<Rightarrow> (int \<times> pg_graph, world) out" where
  "push_bricks [] g w = Ret (0, g) w"
| "push_bricks (b # bs) g w =
     obind (pg_graph_push g b w) (\<lambda>(r, g) w. if r < 0 then Ret (-1, g) w else push_bricks bs g w)"

definition explore_from :: "nat \<Rightarrow> nat \<Rightarrow> world \<Rightarrow> (nat list, world) out" where
  "explore_from n b w =
     obind (explore_add_neighbours [] [] b w) (\<lambda>todo w. if todo = [] then Ret [b] w else explore_loop n todo [] w)"

definition pg_graph_explore_ptr ::
    "nat \<Rightarrow> hash_order \<Rightarrow> pg_graph \<Rightarrow> nat option \<Rightarrow> world \<Rightarrow> (int \<times> pg_graph, world) out" where
  "pg_graph_explore_ptr n ord g brick w =
     (case (if brick = None then get_any_brick ord g else brick) of
        None \<Rightarrow> Ret (0, g) w
      | Some b \<Rightarrow> obind (explore_from n b w) (\<lambda>dn w. push_bricks dn (empty_graph g) w))"

definition pg_graph_explore ::
    "nat \<Rightarrow> hash_order \<Rightarrow> pg_graph \<Rightarrow> string option \<Rightarrow> world \<Rightarrow> (int \<times> pg_graph, world) out" where
  "pg_graph_explore n ord g nm w =
     (case nm of None \<Rightarrow> pg_graph_explore_ptr n ord g None w
      | Some nm \<Rightarrow>
          (case pg_graph_get g nm of
             None \<Rightarrow> Ret (-1, g) (set_err (pg_error_new ''brick %s not found'' [nm]) w)
           | Some b \<Rightarrow> pg_graph_explore_ptr n ord g (Some b) w))"

definition pg_graph_new ::
    "nat \<Rightarrow> brick_ops list \<Rightarrow> hash_order \<Rightarrow> string \<Rightarrow> nat option \<Rightarrow> world \<Rightarrow> (pg_graph option, world) out" where
  "pg_graph_new n reg ord nm explore w =
     (let g = \<lparr>gr_name = nm, gr_pollable = [], gr_all = []\<rparr> in
      case explore of None \<Rightarrow> Ret (Some g) w
      | Some b \<Rightarrow>
          obind (pg_graph_explore_ptr n ord g (Some b) w) (\<lambda>(r, g) w.
            if r < 0 then obind (pg_graph_destroy reg ord (empty_graph g) w) (\<lambda>_ w. Ret None w)
            else Ret (Some g) w))"

section \<open>Polling and checking\<close>

primrec poll_bricks :: "nat \<Rightarrow> ext \<Rightarrow> nat list \<Rightarrow> nat \<Rightarrow> world \<Rightarrow> (int, world) out" where
  "poll_bricks n x [] c w = Ret 0 w"
| "poll_bricks n x (b # bs) c w =
     obind (pg_brick_poll n x (Some b) c w) (\<lambda>(r, c) w.
       if r < 0 then
         if pg_error_is_set w then Ret (-1) w
         else obind (pg_brick_name b w) (\<lambda>nm w. Ret (-1) (set_err (pg_error_new ''Cannot poll %s'' [nm]) w))
       else poll_bricks n x bs c w)"

definition pg_graph_poll :: "nat \<Rightarrow> ext \<Rightarrow> pg_graph \<Rightarrow> nat \<Rightarrow> world \<Rightarrow> (int, world) out" where
  "pg_graph_poll n x g c w = poll_bricks n x (gr_pollable g) c w"

definition pg_graph_sanity :: "nat \<Rightarrow> brick_ops list \<Rightarrow> hash_order \<Rightarrow> pg_graph \<Rightarrow> world \<Rightarrow> (int, world) out" where
  "pg_graph_sanity n reg ord gr w =
     (case get_any_brick ord gr of None \<Rightarrow> Ret 0 w
      | Some b \<Rightarrow>
          obind (pg_graph_new n reg ord ''-'' (Some b) w) (\<lambda>r w.
            case r of None \<Rightarrow> Ret (-1) w
            | Some g \<Rightarrow>
                obind (if pg_graph_count gr < pg_graph_count g then
                         Ret (-1) (set_err (pg_error_new ''Graph not fully explored'' []) w)
                       else if pg_graph_count g < pg_graph_count gr then
                         Ret (-1) (set_err (pg_error_new ''Graph looks splitted'' []) w)
                       else Ret 0 w) (\<lambda>ret w.
                obind (pg_graph_destroy reg ord (empty_graph g) w) (\<lambda>_ w. Ret ret w))))"

section \<open>Splitting and merging\<close>

text \<open>The new graph of the east part, if any, and the graph of the west part.\<close>

definition pg_graph_split ::
    "nat \<Rightarrow> brick_ops list \<Rightarrow> hash_order \<Rightarrow> pg_graph \<Rightarrow> string \<Rightarrow> string \<Rightarrow> string \<Rightarrow> string \<Rightarrow> string \<Rightarrow>
     world \<Rightarrow> (pg_graph option \<times> pg_graph, world) out" where
  "pg_graph_split n reg ord gr east_graph_name west_brick_name east_brick_name west_queue_name east_queue_name w =
     (let wb = pg_graph_get gr west_brick_name; eb = pg_graph_get gr east_brick_name in
      obind (pg_brick_unlink_edge reg wb eb w) (\<lambda>r w. if r < 0 then Ret (None, gr) w else
      obind (pg_queue_new reg west_queue_name 0 w) (\<lambda>q w. case q of None \<Rightarrow> Ret (None, gr) w | Some qw \<Rightarrow>
      obind (pg_queue_new reg east_queue_name 0 w) (\<lambda>q w. case q of None \<Rightarrow> Ret (None, gr) w | Some qe \<Rightarrow>
      obind (pg_brick_link reg wb (Some qw) w) (\<lambda>r w. if r < 0 then Ret (None, gr) w else
      obind (pg_brick_link reg (Some qe) eb w) (\<lambda>r w. if r < 0 then Ret (None, gr) w else
      obind (pg_queue_friend qw qe w) (\<lambda>r w. if r < 0 then Ret (None, gr) w else
      obind (pg_graph_explore_ptr n ord gr (Some qw) w) (\<lambda>(r, gr) w. if r < 0 then Ret (None, gr) w else
      obind (pg_graph_new n reg ord east_graph_name (Some qe) w) (\<lambda>g w. Ret (g, gr) w)))))))))"

primrec queues_of :: "brick_ops list \<Rightarrow> nat list \<Rightarrow> nat list \<Rightarrow> world \<Rightarrow> (nat list, world) out" where
  "queues_of reg [] qs w = Ret qs w"
| "queues_of reg (b # bs) qs w =
     obind (pg_brick_type_name reg b w) (\<lambda>ty w. queues_of reg bs (if ty = ''queue'' then b # qs else qs) w)"

definition get_all_queues :: "brick_ops list \<Rightarrow> pg_graph \<Rightarrow> world \<Rightarrow> (nat list, world) out" where
  "get_all_queues reg g w = queues_of reg (gr_pollable g) [] w"

definition merge_queues :: "brick_ops list \<Rightarrow> nat \<Rightarrow> nat \<Rightarrow> world \<Rightarrow> (int, world) out" where
  "merge_queues reg q1 q2 w =
     obind (get_brick q1 w) (\<lambda>br1 w. obind (get_brick q2 w) (\<lambda>br2 w.
       let q1_pair = link (edge (sides br1 PG_WEST_SIDE)); q2_pair = link (edge (sides br2 PG_WEST_SIDE)) in
       obind (pg_queue_unfriend q1 w) (\<lambda>_ w.
       obind (if q1_pair \<noteq> None then pg_brick_unlink reg (Some q1) w else Ret () w) (\<lambda>_ w.
       if q1_pair \<noteq> None \<and> pg_error_is_set w then Ret (-1) w else
       obind (if q2_pair \<noteq> None then pg_brick_unlink reg (Some q2) w else Ret () w) (\<lambda>_ w.
       if q2_pair \<noteq> None \<and> pg_error_is_set w then Ret (-1) w else
       if q1_pair \<noteq> None \<and> q2_pair \<noteq> None then
         obind (pg_brick_link reg q1_pair q2_pair w) (\<lambda>r w. if r < 0 then Ret (-1) w else Ret 0 w)
       else Ret 0 w)))))"

primrec friend_in :: "nat \<Rightarrow> nat list \<Rightarrow> world \<Rightarrow> (nat option, world) out" where
  "friend_in q [] w = Ret None w"
| "friend_in q (he # hes) w =
     obind (pg_queue_are_friend q he w) (\<lambda>fr w. if fr then Ret (Some he) w else friend_in q hes w)"

text \<open>The queues to destroy on both sides; \<open>None\<close> after an error.\<close>

primrec merge_loop ::
    "brick_ops list \<Rightarrow> nat list \<Rightarrow> nat list \<Rightarrow> (nat list \<times> nat list) \<Rightarrow> world \<Rightarrow>
     ((nat list \<times> nat list) option, world) out" where
  "merge_loop reg [] q_east d w = Ret (Some d) w"
| "merge_loop reg (hw # hws) q_east d w =
     obind (friend_in hw q_east w) (\<lambda>he w.
       case he of None \<Rightarrow> merge_loop reg hws q_east d w
       | Some he \<Rightarrow>
           obind (merge_queues reg hw he w) (\<lambda>r w.
             if r < 0 then Ret None w else merge_loop reg hws q_east (hw # fst d, he # snd d) w))"

primrec pop_destroy :: "brick_ops list \<Rightarrow> nat list \<Rightarrow> pg_graph \<Rightarrow> world \<Rightarrow> (pg_graph, world) out" where
  "pop_destroy reg [] g w = Ret g w"
| "pop_destroy reg (b # bs) g w =
     obind (graph_pop g (Some b) w) (\<lambda>(_, g) w.
     obind (pg_brick_destroy reg (Some b) w) (\<lambda>_ w. pop_destroy reg bs g w))"

text \<open>The result, the west graph, and the east graph unless it has been freed.\<close>

definition pg_graph_merge ::
    "nat \<Rightarrow> brick_ops list \<Rightarrow> hash_order \<Rightarrow> pg_graph \<Rightarrow> pg_graph \<Rightarrow> world \<Rightarrow>
     (int \<times> pg_graph \<times> pg_graph option, world) out" where
  "pg_graph_merge n reg ord graph_west graph_east w =
     obind (get_all_queues reg graph_west w) (\<lambda>q_west w.
     obind (get_all_queues reg graph_east w) (\<lambda>q_east w.
     obind (merge_loop reg q_west q_east ([], []) w) (\<lambda>d w.
       case d of None \<Rightarrow> Ret (-1, graph_west, Some graph_east) w
       | Some (destroy_w, destroy_e) \<Rightarrow>
           obind (pop_destroy reg destroy_w graph_west w) (\<lambda>graph_west w.
           obind (pop_destroy reg destroy_e graph_east w) (\<lambda>graph_east w.
           obind (pg_graph_destroy reg ord (empty_graph graph_east) w) (\<lambda>_ w.
           obind (pg_graph_explore_ptr n ord graph_west None w) (\<lambda>(r, graph_west) w.
             Ret (if r < 0 then -1 else 0, graph_west, None) w)))))))"

section \<open>Drawing\<close>

text \<open>
  \<open>pg_brick_dot\<close> (\<open>src/brick.c\<close>): the description of the graph for Graphviz. The loop takes fuel
  as the exploration does.
\<close>

definition nl :: string where
  "nl = [CHR 0x0A]"

definition dot_side :: "pg_side \<Rightarrow> string" where
  "dot_side s = (if s = PG_WEST_SIDE then ''west'' else ''east'')"

definition dot_id :: "brick_ops list \<Rightarrow> pg_brick \<Rightarrow> string" where
  "dot_id reg br = [CHR 0x22] @ op_name (reg ! ops br) @ '':'' @ brick_name br @ [CHR 0x22]"

definition dot_node :: "brick_ops list \<Rightarrow> pg_brick \<Rightarrow> string" where
  "dot_node reg br =
     ''  '' @ dot_id reg br @ '' [ label='' @ [CHR 0x22] @ ''{ <west> | '' @ op_name (reg ! ops br) @ ''&#92;n'' @
     brick_name br @ '' |<east> }'' @ [CHR 0x22] @ ''];'' @ nl"

definition pg_brick_dot_add ::
    "brick_ops list \<Rightarrow> nat list \<Rightarrow> nat list \<Rightarrow> pg_brick \<Rightarrow> nat \<Rightarrow> pg_side \<Rightarrow> string \<Rightarrow> world \<Rightarrow>
     (nat list \<times> string, world) out" where
  "pg_brick_dot_add reg todo dn br n i s w =
     obind (get_brick n w) (\<lambda>nbr w.
       Ret (if n \<notin> set todo \<and> n \<notin> set dn then todo @ [n] else todo,
            s @ ''  '' @ dot_id reg br @ '':'' @ dot_side i @ '' -- '' @ dot_id reg nbr @ '':'' @
            dot_side (pg_flip_side i) @ nl) w)"

text \<open>The edges \<open>pg_brick_dot\<close> looks at, in its order.\<close>

definition dot_edges :: "pg_brick \<Rightarrow> (pg_side \<times> pg_brick_edge) list" where
  "dot_edges br =
     (case brick_type br of
        PG_MONOPOLE \<Rightarrow> [(PG_WEST_SIDE, edge (sides br PG_WEST_SIDE))]
      | PG_DIPOLE \<Rightarrow> map (\<lambda>i. (i, edge (sides br i))) pg_sides
      | PG_MULTIPOLE \<Rightarrow> concat (map (\<lambda>i. map (Pair i) (take (side_max (sides br i)) (edges (sides br i)))) pg_sides))"

primrec dot_loop :: "nat \<Rightarrow> brick_ops list \<Rightarrow> nat list \<Rightarrow> nat list \<Rightarrow> string \<Rightarrow> world \<Rightarrow> (string, world) out" where
  "dot_loop 0 reg todo dn s w = Diverge"
| "dot_loop (Suc n) reg todo dn s w =
     (case todo of [] \<Rightarrow> Ret s w
      | b # todo \<Rightarrow>
          obind (get_brick b w) (\<lambda>br w.
          obind (oacc (\<lambda>(i, e) (todo, s) w.
                    case link e of None \<Rightarrow> Ret (todo, s) w | Some c \<Rightarrow> pg_brick_dot_add reg todo dn br c i s w)
                  (dot_edges br) (todo, s @ dot_node reg br) w)
            (\<lambda>(todo, s) w. dot_loop n reg todo (dn @ [b]) s w)))"

definition pg_brick_dot :: "nat \<Rightarrow> brick_ops list \<Rightarrow> nat \<Rightarrow> world \<Rightarrow> (string, world) out" where
  "pg_brick_dot n reg b w =
     obind (dot_loop n reg [b] []
              (''strict graph G {'' @ nl @ ''  rankdir=LR'' @ nl @ ''  nodesep=1'' @ nl @
               ''  node [shape=record];'' @ nl) w)
       (\<lambda>s w. Ret (s @ ''}'' @ nl) w)"

definition pg_graph_dot :: "nat \<Rightarrow> brick_ops list \<Rightarrow> hash_order \<Rightarrow> pg_graph \<Rightarrow> world \<Rightarrow> (string, world) out" where
  "pg_graph_dot n reg ord g w =
     (case get_any_brick ord g of None \<Rightarrow> Abort ''null pointer'' | Some b \<Rightarrow> pg_brick_dot n reg b w)"

section \<open>The edges of a brick\<close>

definition addl :: "nat list \<Rightarrow> nat \<Rightarrow> nat list \<Rightarrow> nat list" where
  "addl dn c todo = (if c \<notin> set todo \<and> c \<notin> set dn then c # todo else todo)"

definition target :: "pg_brick \<Rightarrow> pg_side \<times> nat \<Rightarrow> nat" where
  "target br si = the (link (the (pg_brick_get_edge br (fst si) (snd si))))"

definition linked_ports :: "pg_brick \<Rightarrow> (pg_side \<times> nat) list" where
  "linked_ports br = filter (\<lambda>(s, i). edge_linked br s i) ((PG_WEST_SIDE, 0) # ahead br PG_WEST_SIDE 0)"

lemma set_fold_addl: "set (fold (addl dn) cs todo) = set todo \<union> (set cs - set dn)"
  by (induction cs arbitrary: todo) (auto simp: addl_def)

lemma distinct_fold_addl: "distinct todo \<Longrightarrow> distinct (fold (addl dn) cs todo)"
  by (induction cs arbitrary: todo) (auto simp: addl_def)

lemma add_edges_at:
  assumes "edge_linked br s i" and "length (filter (\<lambda>(s, i). edge_linked br s i) (ahead br s i)) + 1 < n"
  shows "add_edges n br (at s i) todo dn w =
    Ret (fold (addl dn) (map (target br) ((s, i) # filter (\<lambda>(s, i). edge_linked br s i) (ahead br s i))) todo) w"
  using assms
proof (induction n arbitrary: s i todo)
  case (Suc n)
  let ?P = "\<lambda>(s, i). edge_linked br s i"
  obtain e c where e: "pg_brick_get_edge br s i = Some e" "link e = Some c"
    using Suc.prems(1) by (auto simp: edge_linked_def split: option.splits)
  then have c: "target br (s, i) = c" by (simp add: target_def)
  have step: "add_edges (Suc n) br (at s i) todo dn w =
      add_edges n br (pg_brick_edge_iterator_next br (at s i)) (addl dn c todo) dn w"
    by (simp add: e addl_def)
  show ?case
  proof (cases "filter ?P (ahead br s i)")
    case Nil
    then have "eit_end (pg_brick_edge_iterator_next br (at s i))"
      using edge_iterator_next_ahead [of br s i] by simp
    then show ?thesis unfolding step using Suc.prems(2) Nil c by (cases n) simp_all
  next
    case (Cons p r)
    obtain s' i' where p: "p = (s', i')" by (cases p)
    obtain pre where pre: "ahead br s i = pre @ (s', i') # ahead br s' i'" "\<forall>x \<in> set pre. \<not> ?P x" "?P (s', i')"
      using ahead_filter [OF Cons [unfolded p]] by blast
    have "filter ?P pre = []" using pre(2) by (simp add: filter_empty_conv)
    then have f: "filter ?P (ahead br s i) = (s', i') # filter ?P (ahead br s' i')"
      using pre by simp
    have "pg_brick_edge_iterator_next br (at s i) = at s' i'"
      using edge_iterator_next_ahead [of br s i] f by simp
    then show ?thesis unfolding step using Suc.IH [of s' i'] Suc.prems(2) pre(3) f c by simp
  qed
qed simp

lemma explore_add_neighbours_eq:
  assumes "bricks w b = Some br"
  shows "explore_add_neighbours todo dn b w = Ret (fold (addl dn) (map (target br) (linked_ports br)) todo) w"
proof -
  let ?P = "\<lambda>(s, i). edge_linked br s i" and ?it = "pg_brick_edge_iterator_init br"
  have at0: "\<lparr>eit_edge = 0, eit_side = Some PG_WEST_SIDE, eit_end = False\<rparr> = at PG_WEST_SIDE 0"
    by (simp add: at_def)
  have it: "?it = (if edge_linked br PG_WEST_SIDE 0 then at PG_WEST_SIDE 0
      else pg_brick_edge_iterator_next br (at PG_WEST_SIDE 0))"
    by (simp add: pg_brick_edge_iterator_init_def at0)
  have fuel: "length (filter ?P (ahead br s i)) + 1 < eit_measure br (at s i) + 3" for s i
    using length_ahead [of br s i] length_filter_le [of ?P "ahead br s i"] by linarith
  have "add_edges (eit_measure br ?it + 3) br ?it todo dn w =
      Ret (fold (addl dn) (map (target br) (linked_ports br)) todo) w"
  proof (cases "edge_linked br PG_WEST_SIDE 0")
    case True
    then show ?thesis using add_edges_at [OF True fuel] by (simp add: it linked_ports_def)
  next
    case False
    show ?thesis
    proof (cases "filter ?P (ahead br PG_WEST_SIDE 0)")
      case Nil
      then have "eit_end ?it" using edge_iterator_next_ahead [of br PG_WEST_SIDE 0] False by (simp add: it)
      then show ?thesis using Nil False by (simp add: linked_ports_def numeral_3_eq_3)
    next
      case (Cons p r)
      obtain s i where p: "p = (s, i)" by (cases p)
      obtain pre where pre: "ahead br PG_WEST_SIDE 0 = pre @ (s, i) # ahead br s i" "\<forall>x \<in> set pre. \<not> ?P x" "?P (s, i)"
        using ahead_filter [OF Cons [unfolded p]] by blast
      have "filter ?P pre = []" using pre(2) by (simp add: filter_empty_conv)
      then have f: "filter ?P (ahead br PG_WEST_SIDE 0) = (s, i) # filter ?P (ahead br s i)"
        using pre by simp
      have "?it = at s i" using edge_iterator_next_ahead [of br PG_WEST_SIDE 0] f False by (simp add: it)
      then show ?thesis using add_edges_at [OF _ fuel, of s i] pre(3) f False by (simp add: linked_ports_def)
    qed
  qed
  then show ?thesis using assms by (simp add: explore_add_neighbours_def get_brick_def Let_def)
qed

section \<open>The connected bricks\<close>

definition adj :: "brick_ops list \<Rightarrow> world \<Rightarrow> nat \<Rightarrow> nat \<Rightarrow> bool" where
  "adj reg w b c \<longleftrightarrow> (\<exists>s i t j. graph reg w (b, s, i) = Some (c, t, j))"

definition component :: "brick_ops list \<Rightarrow> world \<Rightarrow> nat \<Rightarrow> nat set" where
  "component reg w b = {c. (adj reg w)\<^sup>*\<^sup>* b c}"

lemma targets_adj:
  assumes wf: "wf_world reg pinv w" and br: "bricks w b = Some br"
  shows "target br ` set (linked_ports br) = {c. adj reg w b c}"
proof (intro set_eqI iffI)
  fix c assume "c \<in> target br ` set (linked_ports br)"
  then obtain s i where si: "edge_linked br s i" "(s, i) = (PG_WEST_SIDE, 0) \<or> (s, i) \<in> set (ahead br PG_WEST_SIDE 0)"
      "c = target br (s, i)"
    by (auto simp: linked_ports_def simp del: ahead.simps split: if_splits)
  have "linked_port br s i"
    using si(1,2) ahead_index [OF wf_worldD(4) [OF wf br] wf_worldD(4) [OF wf br]]
    by (auto simp: linked_port_def simp del: ahead.simps)
  then obtain d j where "plink reg br (lside reg br s) i = Some (d, j)" using linked_port_plink by blast
  moreover from this have "d = c" using plink_linked_port si(3) by (fastforce simp: target_def)
  ultimately show "c \<in> {c. adj reg w b c}" using br by (auto simp: adj_def graph_def)
next
  fix c assume "c \<in> {c. adj reg w b c}"
  then obtain t l j where p: "plink reg br t l = Some (c, j)" using br by (auto simp: adj_def graph_def)
  then have "(b, t, l) \<in> set (all_ports reg b br)" using plink_in_ahead [OF wf_worldD(1) [OF wf br]] by simp
  then obtain s where s: "lside reg br s = t" "(s, l) \<in> set ((PG_WEST_SIDE, 0) # ahead br PG_WEST_SIDE 0)"
    unfolding all_ports_def ports_of_def by (auto simp only: set_map image_iff prod.inject split: prod.splits)
  have "linked_port br s l" "target br (s, l) = c" using plink_linked_port [OF p] s(1) by (auto simp: target_def)
  then show "c \<in> target br ` set (linked_ports br)"
    using s(2) by (force simp: linked_ports_def linked_port_def simp del: ahead.simps)
qed

lemma adj_sym: "wf_world reg pinv w \<Longrightarrow> adj reg w b c \<Longrightarrow> adj reg w c b"
  unfolding adj_def using matchingD(1) [OF wf_world_matching] by blast

lemma adj_live:
  assumes "wf_world reg pinv w" and "adj reg w b c" shows "bricks w c \<noteq> None"
  using adj_sym [OF assms] by (auto simp: adj_def graph_def split: option.splits)

lemma component_live:
  assumes "wf_world reg pinv w" and "bricks w b \<noteq> None" and "c \<in> component reg w b"
  shows "bricks w c \<noteq> None"
  using assms(3) unfolding component_def mem_Collect_eq
  by (cases rule: rtranclp.cases) (use assms(1,2) adj_live in auto)

lemma component_eq:
  assumes "wf_world reg pinv w" and "c \<in> component reg w b" shows "component reg w c = component reg w b"
proof -
  have "symp (adj reg w)" using adj_sym [OF assms(1)] by (auto intro: sympI)
  from symp_rtranclp [OF this] have "(adj reg w)\<^sup>*\<^sup>* c b" using assms(2) by (simp add: component_def sympD)
  then show ?thesis using assms(2) by (auto simp: component_def)
qed

lemma few_live:
  assumes "wf_world reg pinv w" and "distinct bs" and "\<forall>c \<in> set bs. bricks w c \<noteq> None"
  shows "length bs \<le> brick_next w"
proof -
  have "set bs \<subseteq> {..<brick_next w}"
  proof
    fix c assume "c \<in> set bs"
    then have "bricks w c \<noteq> None" using assms(3) by blast
    then show "c \<in> {..<brick_next w}" using assms(1) unfolding wf_world_def by (metis lessThan_iff linorder_not_less)
  qed
  then show ?thesis using assms(2) card_mono [of "{..<brick_next w}" "set bs"] by (simp add: distinct_card)
qed

lemma root_step:
  assumes "\<exists>b' \<in> T' \<union> insert b D. r\<^sup>*\<^sup>* b' c" and "T' \<subseteq> T \<union> {d. r b d}" and "b \<in> T"
  shows "\<exists>b \<in> T \<union> D. r\<^sup>*\<^sup>* b c"
proof -
  obtain b' where b': "b' \<in> T' \<union> insert b D" "r\<^sup>*\<^sup>* b' c" using assms(1) by blast
  show ?thesis
  proof (cases "r b b'")
    case True
    then have "r\<^sup>*\<^sup>* b c" using b'(2) by (rule converse_rtranclp_into_rtranclp)
    then show ?thesis using assms(3) by blast
  next
    case False
    then have "b' \<in> T \<union> D" using b'(1) assms(2,3) by blast
    with b'(2) show ?thesis by (rule bexI)
  qed
qed

lemma explore_loop_closure:
  assumes wf: "wf_world reg pinv w" and "distinct (todo @ dn)"
    and "\<forall>c \<in> set todo \<union> set dn. bricks w c \<noteq> None"
    and "\<forall>c \<in> set dn. \<forall>d. adj reg w c d \<longrightarrow> d \<in> set todo \<union> set dn"
    and "brick_next w < n + length dn"
  shows "oret (explore_loop n todo dn w) (\<lambda>dn' w'. w' = w \<and> distinct dn' \<and>
    set todo \<union> set dn \<subseteq> set dn' \<and> (\<forall>c \<in> set dn'. \<forall>d. adj reg w c d \<longrightarrow> d \<in> set dn') \<and>
    (\<forall>c \<in> set dn'. \<exists>b \<in> set todo \<union> set dn. (adj reg w)\<^sup>*\<^sup>* b c))"
  using assms(2-)
proof (induction n arbitrary: todo dn)
  case 0
  have "length dn \<le> brick_next w" by (rule few_live [OF wf]) (use 0(1,2) in auto)
  then show ?case using 0(4) by simp
next
  case (Suc n)
  show ?case
  proof (cases todo)
    case Nil
    have "\<forall>c \<in> set dn. \<exists>b \<in> set dn. (adj reg w)\<^sup>*\<^sup>* b c" by blast
    then show ?thesis using Suc.prems(1,3) Nil by simp
  next
    case (Cons b rest)
    obtain br where br: "bricks w b = Some br" using Suc.prems(2) Cons by auto
    define todo' where "todo' = fold (addl (b # dn)) (map (target br) (linked_ports br)) rest"
    have set': "set todo' = set rest \<union> ({c. adj reg w b c} - set (b # dn))"
      using targets_adj [OF wf br] by (simp add: todo'_def set_fold_addl)
    have live: "\<forall>c \<in> set todo' \<union> set (b # dn). bricks w c \<noteq> None"
      using Suc.prems(2) Cons set' adj_live [OF wf] by auto
    have dist: "distinct (todo' @ b # dn)"
      using Suc.prems(1) Cons set' distinct_fold_addl [of rest] by (auto simp: todo'_def)
    have closed: "\<forall>c \<in> set (b # dn). \<forall>d. adj reg w c d \<longrightarrow> d \<in> set todo' \<union> set (b # dn)"
      using Suc.prems(3) Cons set' by auto
    have run: "explore_loop (Suc n) todo dn w = explore_loop n todo' (b # dn) w"
      using Cons by (simp add: explore_add_neighbours_eq [OF br] todo'_def)
    show ?thesis
      unfolding run
    proof (rule oret_mono [OF Suc.IH [OF dist live closed]])
      show "brick_next w < n + length (b # dn)" using Suc.prems(4) by simp
    next
      fix dn' w' assume a: "w' = w \<and> distinct dn' \<and> set todo' \<union> set (b # dn) \<subseteq> set dn' \<and>
        (\<forall>c \<in> set dn'. \<forall>d. adj reg w c d \<longrightarrow> d \<in> set dn') \<and>
        (\<forall>c \<in> set dn'. \<exists>b' \<in> set todo' \<union> set (b # dn). (adj reg w)\<^sup>*\<^sup>* b' c)"
      have root: "\<exists>b \<in> set todo \<union> set dn. (adj reg w)\<^sup>*\<^sup>* b c" if c: "c \<in> set dn'" for c
      proof (rule root_step)
        show "\<exists>b' \<in> set todo' \<union> insert b (set dn). (adj reg w)\<^sup>*\<^sup>* b' c" using a c by simp
      qed (use set' Cons in auto)
      have "set todo \<union> set dn \<subseteq> set todo' \<union> set (b # dn)" using set' Cons by auto
      then show "w' = w \<and> distinct dn' \<and> set todo \<union> set dn \<subseteq> set dn' \<and>
        (\<forall>c \<in> set dn'. \<forall>d. adj reg w c d \<longrightarrow> d \<in> set dn') \<and>
        (\<forall>c \<in> set dn'. \<exists>b \<in> set todo \<union> set dn. (adj reg w)\<^sup>*\<^sup>* b c)"
        using a root by blast
    qed
  qed
qed

lemma explore_from_component:
  assumes wf: "wf_world reg pinv w" and br: "bricks w b = Some br" and n: "brick_next w < n"
  shows "oret (explore_from n b w) (\<lambda>dn w'. w' = w \<and> distinct dn \<and> set dn = component reg w b)"
proof -
  define todo where "todo = fold (addl []) (map (target br) (linked_ports br)) []"
  have set: "set todo = {c. adj reg w b c}"
    using targets_adj [OF wf br] by (simp add: todo_def set_fold_addl)
  have run: "explore_from n b w = (if todo = [] then Ret [b] w else explore_loop n todo [] w)"
    by (simp add: explore_from_def explore_add_neighbours_eq [OF br] todo_def)
  show ?thesis
  proof (cases "todo = []")
    case True
    then have "\<not> adj reg w b c" for c using set by auto
    then have "component reg w b = {b}" by (auto simp: component_def elim: converse_rtranclpE)
    then show ?thesis by (simp add: run True)
  next
    case False
    have "oret (explore_loop n todo [] w) (\<lambda>dn' w'. w' = w \<and> distinct dn' \<and>
      set todo \<union> set [] \<subseteq> set dn' \<and> (\<forall>c \<in> set dn'. \<forall>d. adj reg w c d \<longrightarrow> d \<in> set dn') \<and>
      (\<forall>c \<in> set dn'. \<exists>b \<in> set todo \<union> set []. (adj reg w)\<^sup>*\<^sup>* b c))"
      using adj_live [OF wf] set n distinct_fold_addl [of "[]"]
      by (intro explore_loop_closure [OF wf]) (auto simp: todo_def)
    then show ?thesis
      unfolding run if_not_P [OF False]
    proof (rule oret_mono)
      fix dn w' assume a: "w' = w \<and> distinct dn \<and> set todo \<union> set [] \<subseteq> set dn \<and>
        (\<forall>c \<in> set dn. \<forall>d. adj reg w c d \<longrightarrow> d \<in> set dn) \<and>
        (\<forall>c \<in> set dn. \<exists>b \<in> set todo \<union> set []. (adj reg w)\<^sup>*\<^sup>* b c)"
      obtain c where "adj reg w b c" using False set by (cases todo) auto
      then have b: "b \<in> set dn" using a set adj_sym [OF wf, of b c] by auto
      have "c \<in> set dn" if "(adj reg w)\<^sup>*\<^sup>* b c" for c
        using that
      proof (induction rule: rtranclp_induct)
        case (step y z)
        then show ?case using a by blast
      qed (rule b)
      moreover have "(adj reg w)\<^sup>*\<^sup>* b c" if c: "c \<in> set dn" for c
      proof -
        obtain d where "adj reg w b d" "(adj reg w)\<^sup>*\<^sup>* d c" using a c set by auto
        then show ?thesis by (rule converse_rtranclp_into_rtranclp)
      qed
      ultimately have "set dn = component reg w b" unfolding component_def by blast
      then show "w' = w \<and> distinct dn \<and> set dn = component reg w b" using a by blast
    qed
  qed
qed

section \<open>The bricks of a graph\<close>

definition name_of :: "world \<Rightarrow> nat \<Rightarrow> string" where
  "name_of w b = brick_name (the (bricks w b))"

definition pollable :: "world \<Rightarrow> nat \<Rightarrow> bool" where
  "pollable w b \<longleftrightarrow> poll (the (bricks w b)) \<noteq> None"

text \<open>A graph in order: each brick once under its own name, the pollable ones also in the list to poll.\<close>

definition graph_ok :: "world \<Rightarrow> pg_graph \<Rightarrow> bool" where
  "graph_ok w g \<longleftrightarrow>
     distinct (map fst (gr_all g)) \<and> distinct (gr_pollable g) \<and>
     (\<forall>(nm, b) \<in> set (gr_all g). bricks w b \<noteq> None \<and> nm = name_of w b) \<and>
     set (gr_pollable g) = {b \<in> snd ` set (gr_all g). pollable w b}"

definition bricks_of :: "pg_graph \<Rightarrow> nat set" where
  "bricks_of g = snd ` set (gr_all g)"

lemma graph_ok_empty: "graph_ok w (empty_graph g)"
  by (simp add: graph_ok_def empty_graph_def)

lemma graph_ok_names:
  assumes "graph_ok w g"
  shows "fst ` set (gr_all g) = name_of w ` bricks_of g" and "distinct (map snd (gr_all g))"
    and "inj_on (name_of w) (bricks_of g)"
proof -
  have "\<forall>p \<in> set (gr_all g). fst p = name_of w (snd p)" using assms by (auto simp: graph_ok_def)
  then have eq: "map fst (gr_all g) = map (name_of w) (map snd (gr_all g))" by simp
  have "distinct (map (name_of w) (map snd (gr_all g)))" using assms unfolding graph_ok_def eq by blast
  then show "distinct (map snd (gr_all g))" and "inj_on (name_of w) (bricks_of g)"
    unfolding distinct_map [of "name_of w"] bricks_of_def by simp_all
  have "set (map fst (gr_all g)) = set (map (name_of w) (map snd (gr_all g)))" by (simp only: eq)
  then show "fst ` set (gr_all g) = name_of w ` bricks_of g" by (simp add: bricks_of_def image_image)
qed

lemma pg_graph_count_card: "graph_ok w g \<Longrightarrow> pg_graph_count g = card (bricks_of g)"
  using distinct_card [OF graph_ok_names(2), of w g] by (simp add: pg_graph_count_def bricks_of_def)

lemma push_ok:
  assumes ok: "graph_ok w g" and br: "bricks w b = Some br"
  shows "if name_of w b \<in> name_of w ` bricks_of g
    then \<exists>e. pg_graph_push g b w = Ret (-1, g) (set_err e w)
    else \<exists>g'. pg_graph_push g b w = Ret (0, g') w \<and> graph_ok w g' \<and> bricks_of g' = insert b (bricks_of g) \<and>
      gr_name g' = gr_name g"
proof -
  have nm: "name_of w b = brick_name br" "pollable w b \<longleftrightarrow> poll br \<noteq> None"
    using br by (simp_all add: name_of_def pollable_def)
  have dom: "map_of (gr_all g) (brick_name br) \<noteq> None \<longleftrightarrow> name_of w b \<in> name_of w ` bricks_of g"
    unfolding graph_ok_names(1) [OF ok, symmetric] nm(1) by (simp add: map_of_eq_None_iff)
  show ?thesis
  proof (cases "name_of w b \<in> name_of w ` bricks_of g")
    case True
    then show ?thesis using dom br by (auto simp: pg_graph_push_def get_brick_def)
  next
    case False
    then have none: "map_of (gr_all g) (brick_name br) = None" using dom by simp
    then have fresh: "brick_name br \<notin> fst ` set (gr_all g)" by (simp add: map_of_eq_None_iff)
    have "b \<notin> bricks_of g" using False by blast
    then have npoll: "b \<notin> set (gr_pollable g)" using ok by (auto simp: graph_ok_def bricks_of_def)
    define g' where "g' = (let g1 = g\<lparr>gr_all := (brick_name br, b) # gr_all g\<rparr> in
      if poll br \<noteq> None then g1\<lparr>gr_pollable := b # gr_pollable g1\<rparr> else g1)"
    have sel: "gr_all g' = (brick_name br, b) # gr_all g" "gr_name g' = gr_name g"
      "gr_pollable g' = (if poll br \<noteq> None then b # gr_pollable g else gr_pollable g)"
      by (simp_all add: g'_def Let_def)
    have "pg_graph_push g b w = Ret (0, g') w"
      using none br by (simp add: pg_graph_push_def get_brick_def g'_def Let_def)
    moreover have "graph_ok w g'"
      unfolding graph_ok_def sel
    proof (intro conjI)
      show "set (if poll br \<noteq> None then b # gr_pollable g else gr_pollable g) =
          {c \<in> snd ` set ((brick_name br, b) # gr_all g). pollable w c}"
        using ok nm(2) unfolding graph_ok_def by auto
    qed (use ok fresh npoll br nm(1) in \<open>auto simp: graph_ok_def\<close>)
    moreover have "bricks_of g' = insert b (bricks_of g)" by (simp add: bricks_of_def sel)
    ultimately show ?thesis using False sel(2) by auto
  qed
qed

lemma push_bricks_ok:
  assumes "graph_ok w g" and "\<forall>b \<in> set bs. bricks w b \<noteq> None" and "distinct bs" and "set bs \<inter> bricks_of g = {}"
  shows "if inj_on (name_of w) (set bs \<union> bricks_of g)
    then \<exists>g'. push_bricks bs g w = Ret (0, g') w \<and> graph_ok w g' \<and> bricks_of g' = set bs \<union> bricks_of g
    else \<exists>g' e. push_bricks bs g w = Ret (-1, g') (set_err e w)"
  using assms
proof (induction bs arbitrary: g)
  case Nil
  then show ?case using graph_ok_names(3) by simp
next
  case (Cons b bs)
  obtain br where br: "bricks w b = Some br" using Cons.prems(2) by auto
  show ?case
  proof (cases "name_of w b \<in> name_of w ` bricks_of g")
    case True
    then have "\<not> inj_on (name_of w) (set (b # bs) \<union> bricks_of g)"
      using Cons.prems(4) by (auto simp: inj_on_def)
    moreover obtain e where "pg_graph_push g b w = Ret (-1, g) (set_err e w)"
      using push_ok [OF Cons.prems(1) br] True by auto
    ultimately show ?thesis by auto
  next
    case False
    obtain g' where g': "pg_graph_push g b w = Ret (0, g') w" "graph_ok w g'" "bricks_of g' = insert b (bricks_of g)"
      using push_ok [OF Cons.prems(1) br] False by auto
    have "set bs \<union> bricks_of g' = set (b # bs) \<union> bricks_of g" using g'(3) by auto
    then show ?thesis using Cons.IH [OF g'(2)] Cons.prems g' by auto
  qed
qed

lemma explore_ptr_component:
  assumes wf: "wf_world reg pinv w" and br: "bricks w b = Some br" and n: "brick_next w < n"
  shows "if inj_on (name_of w) (component reg w b)
    then \<exists>g'. pg_graph_explore_ptr n ord g (Some b) w = Ret (0, g') w \<and> graph_ok w g' \<and>
      bricks_of g' = component reg w b
    else \<exists>g' e. pg_graph_explore_ptr n ord g (Some b) w = Ret (-1, g') (set_err e w)"
proof -
  obtain dn where dn: "explore_from n b w = Ret dn w" "distinct dn" "set dn = component reg w b"
    using explore_from_component [OF assms] by (auto simp: oret_iff)
  have "\<forall>c \<in> set dn. bricks w c \<noteq> None" using component_live [OF wf, of b] br dn(3) by blast
  moreover have "bricks_of (empty_graph g) = {}" by (simp add: bricks_of_def empty_graph_def)
  ultimately show ?thesis
    using push_bricks_ok [OF graph_ok_empty, of dn w g] dn by (auto simp: pg_graph_explore_ptr_def split: if_splits)
qed

lemma get_any_brick_in:
  assumes "graph_ok w g" and "\<And>t. set (ord t) = set t"
  shows "get_any_brick ord g = None \<longleftrightarrow> bricks_of g = {}" and "get_any_brick ord g = Some b \<Longrightarrow> b \<in> bricks_of g"
proof -
  have sub: "set (gr_pollable g) \<subseteq> bricks_of g" using assms(1) by (auto simp: graph_ok_def bricks_of_def)
  have nil: "ord (gr_all g) = [] \<longleftrightarrow> gr_all g = []" using assms(2) [of "gr_all g"] by (metis set_empty)
  show "get_any_brick ord g = None \<longleftrightarrow> bricks_of g = {}"
    using sub nil by (auto simp: get_any_brick_def bricks_of_def split: list.splits)
  show "b \<in> bricks_of g" if b: "get_any_brick ord g = Some b"
  proof (cases "gr_pollable g")
    case Nil
    then obtain nm rest where "ord (gr_all g) = (nm, b) # rest"
      using b by (auto simp: get_any_brick_def split: list.splits)
    then have "(nm, b) \<in> set (gr_all g)" using assms(2) [of "gr_all g"] by (metis list.set_intros(1))
    then show ?thesis by (force simp: bricks_of_def)
  next
    case (Cons a list)
    then show ?thesis using b sub by (auto simp: get_any_brick_def)
  qed
qed

section \<open>Three bricks\<close>

text \<open>Three relays, and the world in which the first two are linked, for the examples below.\<close>

definition named_nop :: "string \<Rightarrow> pg_brick" where
  "named_nop nm = nop_brick\<lparr>brick_name := nm\<rparr>"

definition three_nops :: world where
  "three_nops = demo_world\<lparr>bricks := [0 \<mapsto> named_nop ''a'', 1 \<mapsto> named_nop ''b'', 2 \<mapsto> named_nop ''c''], brick_next := 3\<rparr>"

lemma named_nop_wf:
  "wf_brick (registry n x) (named_nop nm)"
  "binv (registry n x) (ops (named_nop nm)) (priv_state (named_nop nm))"
  "1 + int (degree (named_nop nm)) \<le> refcount (named_nop nm)" "plink (registry n x) (named_nop nm) s i = None"
  by (simp_all add: named_nop_def nop_brick_def wf_brick_def wf_side_def binv_def registry_4 degree_def side_links_def
      plink_def zero_side_def null_edge_def) (simp_all add: pg_all_bricks_def)

lemma three_nops_wf: "wf_world (registry n x) (binv (registry n x)) three_nops"
  and three_nops_graph: "graph (registry n x) three_nops = (\<lambda>_. None)"
proof -
  have g: "graph (registry n x) three_nops = (\<lambda>_. None)"
    by (auto simp: graph_def three_nops_def named_nop_wf(4) fun_eq_iff)
  then show "graph (registry n x) three_nops = (\<lambda>_. None)" .
  show "wf_world (registry n x) (binv (registry n x)) three_nops"
    unfolding wf_world_def g
    using named_nop_wf by (auto simp: three_nops_def matching_def split: if_splits)
qed

lemma linked_three:
  obtains w where "wf_world (registry n x) (binv (registry n x)) w"
    and "pg_brick_link (registry n x) (Some 0) (Some 1) three_nops = Ret 0 w"
    and "\<forall>b c. adj (registry n x) w b c \<longleftrightarrow> b = 0 \<and> c = 1 \<or> b = 1 \<and> c = 0"
    and "name_of w 0 = ''a''" "name_of w 1 = ''b''" "name_of w 2 = ''c''"
    and "bricks w 0 \<noteq> None" "bricks w 2 \<noteq> None" "\<not> pollable w 0" "\<not> pollable w 2"
proof -
  let ?R = "registry n x"
  have av: "is_place_available (named_nop nm) s" for nm s
    by (simp add: is_place_available_def get_side_def named_nop_def nop_brick_def zero_side_def)
  have b: "bricks three_nops 0 = Some (named_nop ''a'')" "bricks three_nops 1 = Some (named_nop ''b'')"
    by (simp_all add: three_nops_def)
  obtain i j w where w: "pg_brick_link ?R (Some 0) (Some 1) three_nops = Ret 0 w"
      "graph ?R w = m_link (0, PG_EAST_SIDE, i) (1, PG_WEST_SIDE, j) (graph ?R three_nops)"
      "wf_world ?R (binv ?R) w"
      "bricks w = (bricks three_nops)(1 \<mapsto> link_brick ?R 0 PG_WEST_SIDE j i (named_nop ''b''),
                                     0 \<mapsto> link_brick ?R 1 PG_EAST_SIDE i j (named_nop ''a''))"
    using contract.pg_brick_link_refines [OF three_nops_wf b zero_neq_one av av] by metis
  have "adj ?R w b c \<longleftrightarrow> b = 0 \<and> c = 1 \<or> b = 1 \<and> c = 0" for b c
    unfolding adj_def w(2) three_nops_graph by (auto simp: m_link_def)
  moreover have "name_of w 0 = ''a''" "name_of w 1 = ''b''" "name_of w 2 = ''c''"
      "bricks w 0 \<noteq> None" "bricks w 2 \<noteq> None" "\<not> pollable w 0" "\<not> pollable w 2"
    by (simp_all add: name_of_def pollable_def w(4) three_nops_def named_nop_def nop_brick_def)
  ultimately show thesis using w(1,3) that by metis
qed

lemma linked_pair:
  assumes "\<forall>b c. R b c \<longleftrightarrow> b = (0::nat) \<and> c = 1 \<or> b = 1 \<and> c = (0::nat)" shows "{c. R\<^sup>*\<^sup>* 0 c} = {0, 1}"
proof -
  have "c \<in> {0, 1}" if "R\<^sup>*\<^sup>* 0 c" for c
    using that by (induction rule: rtranclp_induct) (auto simp: assms)
  moreover have "R\<^sup>*\<^sup>* 0 1" using assms by blast
  ultimately show ?thesis by blast
qed

section \<open>Properties\<close>

text \<open>
  C38. Exploring finds exactly the connected bricks. In a world in order and with fuel beyond
  the number of bricks ever made, \<open>pg_graph_explore_ptr\<close> from a brick returns; when the bricks
  that can be reached over links have different names it returns 0 with a graph that holds
  exactly these, each once under its name and the pollable ones in the list to poll, whatever was
  in the graph before; otherwise it returns -1 with an error.
\<close>
theorem pg_graph_explore_finds_component:
  assumes "wf_world (registry k x) (binv (registry k x)) w" and "bricks w b = Some br" and "brick_next w < n"
  shows "if inj_on (name_of w) {c. (adj (registry k x) w)\<^sup>*\<^sup>* b c}
    then \<exists>g'. pg_graph_explore_ptr n ord g (Some b) w = Ret (0, g') w \<and> graph_ok w g' \<and>
      snd ` set (gr_all g') = {c. (adj (registry k x) w)\<^sup>*\<^sup>* b c}
    else \<exists>g' e. pg_graph_explore_ptr n ord g (Some b) w = Ret (-1, g') (set_err e w)"
  using explore_ptr_component [OF assms] unfolding component_def bricks_of_def .

theorem pg_graph_explore_finds_component_witness:
  "\<exists>w n g'. pg_brick_link (registry 0 demo_ext) (Some 0) (Some 1) three_nops = Ret 0 w \<and>
     pg_graph_explore_ptr n rev \<lparr>gr_name = ''g'', gr_pollable = [], gr_all = []\<rparr> (Some 0) w = Ret (0, g') w \<and>
     snd ` set (gr_all g') = {0, 1}"
proof -
  obtain w where w: "wf_world (registry 0 demo_ext) (binv (registry 0 demo_ext)) w"
      "pg_brick_link (registry 0 demo_ext) (Some 0) (Some 1) three_nops = Ret 0 w"
      "\<forall>b c. adj (registry 0 demo_ext) w b c \<longleftrightarrow> b = 0 \<and> c = 1 \<or> b = 1 \<and> c = 0"
      "name_of w 0 = ''a''" "name_of w 1 = ''b''" "bricks w 0 \<noteq> None"
    using linked_three [of demo_ext 0] by metis
  obtain br where br: "bricks w 0 = Some br" using w(6) by blast
  have comp: "{c. (adj (registry 0 demo_ext) w)\<^sup>*\<^sup>* 0 c} = {0, 1}" using w(3) by (rule linked_pair)
  have "inj_on (name_of w) {0, 1}" using w(4,5) by (simp add: inj_on_def)
  with pg_graph_explore_finds_component [OF w(1) br lessI, of rev "\<lparr>gr_name = ''g'', gr_pollable = [], gr_all = []\<rparr>"]
  show ?thesis unfolding comp using w(2) by auto
qed

lemma new_graph_component:
  assumes wf: "wf_world reg pinv w" and br: "bricks w b = Some br" and n: "brick_next w < n"
    and ord: "\<And>t. set (ord t) = set t"
  shows "if inj_on (name_of w) (component reg w b)
    then \<exists>g'. pg_graph_new n reg ord nm (Some b) w = Ret (Some g') w \<and> graph_ok w g' \<and>
      bricks_of g' = component reg w b
    else \<exists>e. pg_graph_new n reg ord nm (Some b) w = Ret None (set_err e w)"
proof -
  have "pg_graph_destroy reg ord (empty_graph g) v = Ret () v" for g v
    using ord [of "[]"] by (simp add: pg_graph_destroy_def empty_graph_def)
  then show ?thesis
    using explore_ptr_component [OF wf br n, of ord "\<lparr>gr_name = nm, gr_pollable = [], gr_all = []\<rparr>"]
    by (auto simp: pg_graph_new_def Let_def split: if_splits)
qed

text \<open>
  C39. What the sanity check checks. For a graph in order, \<open>pg_graph_sanity\<close> returns 0 exactly
  if the graph is empty, or the bricks connected to the one it starts from have different names
  and are as many as the graph has. It compares numbers only, so a graph of the connected bricks
  always passes, but so does one with other bricks of the same number.
\<close>
theorem pg_graph_sanity_counts:
  assumes "wf_world (registry k x) (binv (registry k x)) w" and "graph_ok w g" and "brick_next w < n"
    and "\<forall>t. set (ord t) = set t"
  shows "oret (pg_graph_sanity n (registry k x) ord g w) (\<lambda>r _. r = 0 \<longleftrightarrow>
    (case get_any_brick ord g of None \<Rightarrow> True
     | Some b \<Rightarrow> inj_on (name_of w) {c. (adj (registry k x) w)\<^sup>*\<^sup>* b c} \<and>
         card {c. (adj (registry k x) w)\<^sup>*\<^sup>* b c} = card (snd ` set (gr_all g))))"
proof (cases "get_any_brick ord g")
  case None
  then show ?thesis by (simp add: pg_graph_sanity_def)
next
  case (Some b)
  have "b \<in> bricks_of g" using get_any_brick_in(2) [OF assms(2) _ Some] assms(4) by blast
  then obtain br where br: "bricks w b = Some br" using assms(2) by (auto simp: graph_ok_def bricks_of_def)
  have "ord [] = []" using assms(4) by (metis set_empty)
  then have dest: "pg_graph_destroy (registry k x) ord (empty_graph g) v = Ret () v" for g v
    by (simp add: pg_graph_destroy_def empty_graph_def)
  show ?thesis
  proof (cases "inj_on (name_of w) (component (registry k x) w b)")
    case True
    then obtain g' where g': "pg_graph_new n (registry k x) ord ''-'' (Some b) w = Ret (Some g') w" "graph_ok w g'"
        "bricks_of g' = component (registry k x) w b"
      using new_graph_component [OF assms(1) br assms(3), of ord "''-''"] assms(4) by auto
    show ?thesis
      using Some g' True pg_graph_count_card [OF assms(2)] pg_graph_count_card [OF g'(2)]
      by (auto simp: pg_graph_sanity_def dest component_def bricks_of_def)
  next
    case False
    then obtain e where "pg_graph_new n (registry k x) ord ''-'' (Some b) w = Ret None (set_err e w)"
      using new_graph_component [OF assms(1) br assms(3), of ord "''-''"] assms(4) by auto
    then show ?thesis using Some False by (simp add: pg_graph_sanity_def component_def)
  qed
qed

theorem pg_graph_sanity_counts_witness:
  "\<exists>w n. pg_brick_link (registry 0 demo_ext) (Some 0) (Some 1) three_nops = Ret 0 w \<and>
     oret (pg_graph_sanity n (registry 0 demo_ext) rev
       \<lparr>gr_name = ''g'', gr_pollable = [], gr_all = [(''c'', 2), (''a'', 0)]\<rparr> w) (\<lambda>r _. r = 0)"
proof -
  let ?g = "\<lparr>gr_name = ''g'', gr_pollable = [], gr_all = [(''c'', 2), (''a'', 0)]\<rparr>"
  obtain w where w: "wf_world (registry 0 demo_ext) (binv (registry 0 demo_ext)) w"
      "pg_brick_link (registry 0 demo_ext) (Some 0) (Some 1) three_nops = Ret 0 w"
      "\<forall>b c. adj (registry 0 demo_ext) w b c \<longleftrightarrow> b = 0 \<and> c = 1 \<or> b = 1 \<and> c = 0"
      "name_of w 0 = ''a''" "name_of w 1 = ''b''" "name_of w 2 = ''c''"
      "bricks w 0 \<noteq> None" "bricks w 2 \<noteq> None" "\<not> pollable w 0" "\<not> pollable w 2"
    using linked_three [of demo_ext 0] by metis
  have ok: "graph_ok w ?g" using w(4-) by (simp add: graph_ok_def) (metis gr0I)
  have comp: "{c. (adj (registry 0 demo_ext) w)\<^sup>*\<^sup>* 0 c} = {0, 1}" using w(3) by (rule linked_pair)
  have "get_any_brick rev ?g = Some 0" "inj_on (name_of w) {0, 1}"
    using w(4,5) by (simp_all add: get_any_brick_def inj_on_def)
  with pg_graph_sanity_counts [OF w(1) ok lessI, of rev] show ?thesis
    using w(2) by (auto simp: comp)
qed

text \<open>
  C40. A graph finds bricks by name. To a graph in order a brick with a new name can always be
  added: the graph stays in order, the brick is found under its name and the others as before.
  Taking it out by its name gives back the brick and exactly the graph that was there.
\<close>
theorem pg_graph_push_pop:
  assumes "graph_ok w g" and "bricks w b = Some br" and "pg_graph_get g (brick_name br) = None"
  shows "\<exists>g'. pg_graph_push g b w = Ret (0, g') w \<and> graph_ok w g' \<and> pg_graph_count g' = Suc (pg_graph_count g) \<and>
    (\<forall>nm. pg_graph_get g' nm = (if nm = brick_name br then Some b else pg_graph_get g nm)) \<and>
    pg_graph_unsafe_pop g' (brick_name br) w = Ret (Some b, g) w"
proof -
  have fresh: "brick_name br \<notin> fst ` set (gr_all g)"
    using assms(3) by (simp add: pg_graph_get_def map_of_eq_None_iff)
  then have "name_of w b \<notin> name_of w ` bricks_of g"
    using graph_ok_names(1) [OF assms(1)] assms(2) by (simp add: name_of_def)
  then obtain g' where g': "pg_graph_push g b w = Ret (0, g') w" "graph_ok w g'"
    using push_ok [OF assms(1,2)] by auto
  have sel: "g' = g\<lparr>gr_all := (brick_name br, b) # gr_all g,
      gr_pollable := (if poll br \<noteq> None then b # gr_pollable g else gr_pollable g)\<rparr>"
    using g'(1) assms(2,3) by (auto simp: pg_graph_push_def get_brick_def pg_graph_get_def Let_def)
  have "filter (\<lambda>kv. fst kv \<noteq> brick_name br) (gr_all g) = gr_all g"
    using fresh by (force simp: filter_id_conv)
  then have "pg_graph_unsafe_pop g' (brick_name br) w = Ret (Some b, g) w"
    using assms(2) by (simp add: pg_graph_unsafe_pop_def graph_pop_def pg_graph_get_def sel get_brick_def Let_def)
  moreover have "\<forall>nm. pg_graph_get g' nm = (if nm = brick_name br then Some b else pg_graph_get g nm)"
    and "pg_graph_count g' = Suc (pg_graph_count g)"
    by (simp_all add: pg_graph_get_def pg_graph_count_def sel)
  ultimately show ?thesis using g' by blast
qed

theorem pg_graph_push_pop_witness:
  "\<exists>g'. pg_graph_push \<lparr>gr_name = ''g'', gr_pollable = [], gr_all = [(''c'', 2)]\<rparr> 0 three_nops = Ret (0, g') three_nops \<and>
     pg_graph_get g' ''a'' = Some 0 \<and> pg_graph_get g' ''c'' = Some 2"
proof -
  let ?g = "\<lparr>gr_name = ''g'', gr_pollable = [], gr_all = [(''c'', 2)]\<rparr>"
  have "graph_ok three_nops ?g"
    by (simp add: graph_ok_def name_of_def pollable_def three_nops_def named_nop_def nop_brick_def)
  moreover have "bricks three_nops 0 = Some (named_nop ''a'')" by (simp add: three_nops_def)
  moreover have "pg_graph_get ?g (brick_name (named_nop ''a'')) = None"
    by (simp add: pg_graph_get_def named_nop_def)
  ultimately show ?thesis
    using pg_graph_push_pop [of three_nops ?g 0 "named_nop ''a''"]
    by (auto simp: named_nop_def pg_graph_get_def)
qed

end
