(* ===== verification/PG_Thread.thy ===== *)
theory PG_Thread
  imports PG_Graph PG_Stack
begin

text \<open>
  Threads that poll graphs (\<open>src/thread.c\<close>, \<open>src/thread-impl.h\<close>). A thread and its callers share
  a queue of requests, which every one of them touches only with the lock of the queue held, so a
  section between taking and releasing the lock is one step. The lock is part of the state,
  because one path of the thread keeps it. A pointer to a graph is the number of the graph, with
  \<open>gs\<close> the graphs; \<open>mok\<close> says whether \<open>realloc\<close> succeeds.
\<close>

section \<open>Requests\<close>

datatype pg_thread_state = PG_THREAD_STOPPED | PG_THREAD_BROKEN | PG_THREAD_RUNNING

primrec state_code :: "pg_thread_state \<Rightarrow> nat" where
  "state_code PG_THREAD_STOPPED = 0"
| "state_code PG_THREAD_BROKEN = 1"
| "state_code PG_THREAD_RUNNING = 2"

datatype pg_thread_op =
  PG_THREAD_NONE | PG_THREAD_ANSWER | PG_THREAD_STATE | PG_THREAD_ADD_GRAPH | PG_THREAD_RM_GRAPH
| PG_THREAD_RUN | PG_THREAD_POP_ERROR | PG_THREAD_FORCE_START | PG_THREAD_STOP | PG_THREAD_QUIT

definition PG_THREAD_MAX_OP :: nat where
  "PG_THREAD_MAX_OP = 128"

datatype ptr = Null | P_graph nat | P_error pg_error

text \<open>The union of the arguments, by the member written last.\<close>

datatype pg_thread_arg = Arg_ptr ptr | Arg_u64 nat | Arg_i32 int | Arg_i32s int int

text \<open>An \<open>int32_t\<close> read as \<open>int16_t\<close>, or stored as \<open>int8_t\<close>, keeps its low bits.\<close>

definition low16 :: "int \<Rightarrow> int" where
  "low16 v = sint (word_of_int v :: 16 word)"

definition low8 :: "int \<Rightarrow> int" where
  "low8 v = sint (word_of_int v :: 8 word)"

record thread_op =
  t_op :: pg_thread_op
  t_arg :: pg_thread_arg
  t_arg2 :: pg_thread_arg

record pg_thread_client =
  is_queue_locked :: bool
  is_queue_empty :: bool
  queue_size :: nat
  queue :: "nat \<Rightarrow> thread_op"

text \<open>The local variables of \<open>pg_thread_main\<close>.\<close>

record pg_thread =
  th_state :: pg_thread_state
  th_graphs :: "nat \<Rightarrow> nat"
  th_started :: "nat \<Rightarrow> pg_thread_state"
  th_last_graph :: nat
  th_error :: "pg_error option"
  th_free_graph :: "int pg_stack"
  th_errors :: "ptr pg_stack"
  th_errors_gid :: "int pg_stack"
  th_returned :: bool

definition set_op :: "nat \<Rightarrow> (thread_op \<Rightarrow> thread_op) \<Rightarrow> pg_thread_client \<Rightarrow> pg_thread_client" where
  "set_op pos f cl = cl\<lparr>queue := (queue cl)(pos := f (queue cl pos))\<rparr>"

definition relock :: "pg_thread_client \<Rightarrow> pg_thread_client" where
  "relock cl = cl\<lparr>is_queue_locked := False\<rparr>"

section \<open>The thread\<close>

text \<open>How a case of the switch ends: at \<open>break\<close>, by leaving the function, or by \<open>continue\<close>.\<close>

datatype flow = Break | Return | Continue

definition op_quit :: "pg_thread_client \<times> pg_thread \<Rightarrow> (flow, pg_thread_client \<times> pg_thread) out" where
  "op_quit s = (case s of (cl, th) \<Rightarrow>
     Ret Return (relock cl, th\<lparr>th_free_graph := stack_destroy (th_free_graph th), th_errors := stack_destroy (th_errors th),
       th_errors_gid := stack_destroy (th_errors_gid th), th_returned := True\<rparr>))"

definition op_pop_error :: "nat \<Rightarrow> pg_thread_client \<times> pg_thread \<Rightarrow> (flow, pg_thread_client \<times> pg_thread) out" where
  "op_pop_error pos s = (case s of (cl, th) \<Rightarrow>
     let (e, errors) = stack_pop (th_errors th) Null; (gid, errors_gid) = stack_pop (th_errors_gid th) (-1) in
     Ret Break (set_op pos (\<lambda>cur. cur\<lparr>t_arg := Arg_ptr e, t_arg2 := Arg_i32s gid (int (stack_len errors_gid)),
                                     t_op := PG_THREAD_ANSWER\<rparr>) cl,
                th\<lparr>th_errors := errors, th_errors_gid := errors_gid\<rparr>))"

definition op_rm_graph :: "bool \<Rightarrow> nat \<Rightarrow> pg_thread_client \<times> pg_thread \<Rightarrow> (flow, pg_thread_client \<times> pg_thread) out" where
  "op_rm_graph mok pos s = (case s of (cl, th) \<Rightarrow>
     (case t_arg (queue cl pos) of
        Arg_i32 v \<Rightarrow>
          let ret = low16 v in
          (case stack_push mok (th_free_graph th) (low8 ret) of
             Ret _ fg \<Rightarrow>
               if ret < 0 \<or> int PG_STACK_BLOCK_SIZE \<le> ret then Abort ''graphs[ret]''
               else Ret Break
                 (set_op pos (\<lambda>cur. cur\<lparr>t_arg := Arg_ptr (P_graph (th_graphs th (nat ret))), t_op := PG_THREAD_ANSWER\<rparr>) cl,
                  th\<lparr>th_free_graph := fg, th_started := (th_started th)(nat ret := PG_THREAD_STOPPED)\<rparr>)
           | Abort r \<Rightarrow> Abort r | Diverge \<Rightarrow> Diverge)
      | _ \<Rightarrow> Abort ''another member of the union''))"

definition op_add_graph :: "nat \<Rightarrow> pg_thread_client \<times> pg_thread \<Rightarrow> (flow, pg_thread_client \<times> pg_thread) out" where
  "op_add_graph pos s = (case s of (cl, th) \<Rightarrow>
     let (ret, fg) = stack_pop (th_free_graph th) (-1) in
     if ret = -1 \<and> th_last_graph th = PG_STACK_BLOCK_SIZE then
       Ret Continue (set_op pos (\<lambda>cur. cur\<lparr>t_op := PG_THREAD_ANSWER, t_arg := Arg_i32 (-1)\<rparr>) cl, th\<lparr>th_free_graph := fg\<rparr>)
     else
       let (i, last) = (if ret = -1 then (int (th_last_graph th), Suc (th_last_graph th)) else (ret, th_last_graph th)) in
       (case t_arg (queue cl pos) of
          Arg_ptr (P_graph g) \<Rightarrow>
            if i < 0 then Abort ''graphs[ret]''
            else Ret Break
              (set_op pos (\<lambda>cur. cur\<lparr>t_arg := Arg_i32 i, t_op := PG_THREAD_ANSWER\<rparr>) cl,
               th\<lparr>th_free_graph := fg, th_last_graph := last, th_graphs := (th_graphs th)(nat i := g),
                  th_started := (th_started th)(nat i := PG_THREAD_RUNNING)\<rparr>)
        | _ \<Rightarrow> Abort ''another member of the union''))"

definition op_force_start :: "nat \<Rightarrow> pg_thread_client \<times> pg_thread \<Rightarrow> (flow, pg_thread_client \<times> pg_thread) out" where
  "op_force_start pos s = (case s of (cl, th) \<Rightarrow>
     (case t_arg (queue cl pos) of
        Arg_i32 v \<Rightarrow>
          if v < 0 \<or> int PG_STACK_BLOCK_SIZE \<le> v then Abort ''started[arg]''
          else
            let started = (th_started th)(nat v := PG_THREAD_RUNNING);
                ret = length (filter (\<lambda>i. started i = PG_THREAD_BROKEN) [0..<th_last_graph th]) in
            Ret Break
              (set_op pos (\<lambda>cur. cur\<lparr>t_op := PG_THREAD_NONE\<rparr>) cl,
               th\<lparr>th_started := started,
                  th_state := (if ret = 0 \<and> stack_len (th_errors th) = 0 then PG_THREAD_RUNNING else th_state th)\<rparr>)
      | _ \<Rightarrow> Abort ''another member of the union''))"

definition op_run :: "nat \<Rightarrow> pg_thread_client \<times> pg_thread \<Rightarrow> (flow, pg_thread_client \<times> pg_thread) out" where
  "op_run pos s = (case s of (cl, th) \<Rightarrow>
     if th_last_graph th = 0 then Ret Break (cl, th)
     else Ret Break
       (set_op pos (\<lambda>cur. cur\<lparr>t_op := PG_THREAD_NONE\<rparr>) cl,
        th\<lparr>th_started := (\<lambda>i. if i < th_last_graph th \<and> th_started th i = PG_THREAD_BROKEN then PG_THREAD_RUNNING
                              else th_started th i),
           th_state := PG_THREAD_RUNNING\<rparr>))"

definition op_stop :: "nat \<Rightarrow> pg_thread_client \<times> pg_thread \<Rightarrow> (flow, pg_thread_client \<times> pg_thread) out" where
  "op_stop pos s = (case s of (cl, th) \<Rightarrow>
     Ret Break (set_op pos (\<lambda>cur. cur\<lparr>t_op := PG_THREAD_ANSWER\<rparr>) cl, th\<lparr>th_state := PG_THREAD_STOPPED\<rparr>))"

definition op_state :: "nat \<Rightarrow> pg_thread_client \<times> pg_thread \<Rightarrow> (flow, pg_thread_client \<times> pg_thread) out" where
  "op_state pos s = (case s of (cl, th) \<Rightarrow>
     Ret Break (set_op pos (\<lambda>cur. cur\<lparr>t_arg := Arg_u64 (state_code (th_state th)), t_op := PG_THREAD_ANSWER\<rparr>) cl, th))"

text \<open>The switch.\<close>

definition handle_op :: "bool \<Rightarrow> nat \<Rightarrow> pg_thread_client \<times> pg_thread \<Rightarrow> (flow, pg_thread_client \<times> pg_thread) out" where
  "handle_op mok pos s =
     (case t_op (queue (fst s) pos) of
        PG_THREAD_QUIT \<Rightarrow> op_quit s
      | PG_THREAD_POP_ERROR \<Rightarrow> op_pop_error pos s
      | PG_THREAD_RM_GRAPH \<Rightarrow> op_rm_graph mok pos s
      | PG_THREAD_ADD_GRAPH \<Rightarrow> op_add_graph pos s
      | PG_THREAD_FORCE_START \<Rightarrow> op_force_start pos s
      | PG_THREAD_RUN \<Rightarrow> op_run pos s
      | PG_THREAD_STOP \<Rightarrow> op_stop pos s
      | PG_THREAD_STATE \<Rightarrow> op_state pos s
      | PG_THREAD_NONE \<Rightarrow> Ret Break s
      | PG_THREAD_ANSWER \<Rightarrow> Ret Break s)"

text \<open>The jumps to \<open>again\<close>: from the top of the queue down; position 0 only when it is the first.\<close>

fun process_queue :: "bool \<Rightarrow> nat \<Rightarrow> pg_thread_client \<times> pg_thread \<Rightarrow> (flow, pg_thread_client \<times> pg_thread) out" where
  "process_queue mok pos s =
     obind (handle_op mok pos s) (\<lambda>fl s.
       if fl = Break \<and> 1 < pos then process_queue mok (pos - 1) s else Ret fl s)"

declare process_queue.simps [simp del]

text \<open>
  The first half of a round: whether the thread goes on to poll. A queue that is locked by
  somebody else is left alone.
\<close>

definition thread_ops :: "bool \<Rightarrow> pg_thread_client \<times> pg_thread \<Rightarrow> (bool, pg_thread_client \<times> pg_thread) out" where
  "thread_ops mok s = (case s of (cl, th) \<Rightarrow>
     if is_queue_locked cl then Ret True s
     else if queue_size cl = 0 then Ret False s
     else
       obind (process_queue mok (queue_size cl - 1) (cl\<lparr>is_queue_locked := True\<rparr>, th)) (\<lambda>fl (cl, th).
         case fl of Break \<Rightarrow> Ret True (relock cl, th)
         | Return \<Rightarrow> Ret False (cl, th)
         | Continue \<Rightarrow> Ret False (cl, th)))"

text \<open>
  The second half: every running graph is polled 32 times. The thread has an error variable of
  its own, which it passes to \<open>pg_graph_poll\<close>.
\<close>

definition poll_graph ::
    "nat \<Rightarrow> ext \<Rightarrow> (nat \<Rightarrow> pg_graph) \<Rightarrow> bool \<Rightarrow> nat \<Rightarrow> pg_thread \<times> world \<Rightarrow> (unit, pg_thread \<times> world) out" where
  "poll_graph n x gs mok i s = (case s of (th, w) \<Rightarrow>
     if th_started th i \<noteq> PG_THREAD_RUNNING then Ret () s
     else
       (case pg_graph_poll n x (gs (th_graphs th i)) 0 (w\<lparr>errp := th_error th\<rparr>) of
         Abort r \<Rightarrow> Abort r | Diverge \<Rightarrow> Diverge
       | Ret r w1 \<Rightarrow>
           let e = errp w1; w2 = w1\<lparr>errp := errp w\<rparr>; th = th\<lparr>th_error := e\<rparr> in
           if 0 \<le> r then Ret () (th, w2)
           else
             (case stack_push mok (th_errors th) (case e of None \<Rightarrow> Null | Some e \<Rightarrow> P_error e) of
                Abort r \<Rightarrow> Abort r | Diverge \<Rightarrow> Diverge
              | Ret _ errors \<Rightarrow>
                (case stack_push mok (th_errors_gid th) (int i) of
                   Abort r \<Rightarrow> Abort r | Diverge \<Rightarrow> Diverge
                 | Ret _ errors_gid \<Rightarrow>
                     Ret () (th\<lparr>th_state := PG_THREAD_BROKEN, th_started := (th_started th)(i := PG_THREAD_BROKEN),
                               th_errors := errors, th_errors_gid := errors_gid\<rparr>, w2)))))"

definition thread_poll ::
    "nat \<Rightarrow> ext \<Rightarrow> (nat \<Rightarrow> pg_graph) \<Rightarrow> bool \<Rightarrow> pg_thread \<times> world \<Rightarrow> (unit, pg_thread \<times> world) out" where
  "thread_poll n x gs mok s =
     (if th_state (fst s) = PG_THREAD_STOPPED then Ret () s
      else ofold (\<lambda>j s. ofold (poll_graph n x gs mok) [0..<th_last_graph (fst s)] s) [0..<32] s)"

text \<open>One round of the loop of \<open>pg_thread_main\<close>.\<close>

definition pg_thread_main_round ::
    "nat \<Rightarrow> ext \<Rightarrow> (nat \<Rightarrow> pg_graph) \<Rightarrow> bool \<Rightarrow> pg_thread_client \<times> pg_thread \<times> world \<Rightarrow>
     (unit, pg_thread_client \<times> pg_thread \<times> world) out" where
  "pg_thread_main_round n x gs mok s = (case s of (cl, th, w) \<Rightarrow>
     (case thread_ops mok (cl, th) of
       Abort r \<Rightarrow> Abort r | Diverge \<Rightarrow> Diverge
     | Ret p (cl, th) \<Rightarrow>
         if p then (case thread_poll n x gs mok (th, w) of
                      Abort r \<Rightarrow> Abort r | Diverge \<Rightarrow> Diverge | Ret _ (th, w) \<Rightarrow> Ret () (cl, th, w))
         else Ret () (cl, th, w)))"

text \<open>The variables at the start; \<open>graphs\<close>, \<open>started\<close> and \<open>error\<close> are not initialised.\<close>

definition pg_thread_main_start :: "(nat \<Rightarrow> nat) \<Rightarrow> (nat \<Rightarrow> pg_thread_state) \<Rightarrow> pg_error option \<Rightarrow> pg_thread" where
  "pg_thread_main_start graphs started error =
     \<lparr>th_state = PG_THREAD_STOPPED, th_graphs = graphs, th_started = started, th_last_graph = 0, th_error = error,
      th_free_graph = STACK_CREATE, th_errors = stack_set_limit STACK_CREATE 128,
      th_errors_gid = stack_set_limit STACK_CREATE 128, th_returned = False\<rparr>"

section \<open>The callers\<close>

text \<open>The parts of the functions that hold the lock.\<close>

definition enqueue :: "pg_thread_op \<Rightarrow> pg_thread_arg \<Rightarrow> pg_thread_client \<Rightarrow> int \<times> pg_thread_client" where
  "enqueue op arg cl =
     (if queue_size cl + 1 = PG_THREAD_MAX_OP then (-1, cl)
      else (int (queue_size cl),
            set_op (queue_size cl) (\<lambda>cur. cur\<lparr>t_op := op, t_arg := arg\<rparr>) (cl\<lparr>queue_size := queue_size cl + 1\<rparr>)))"

fun shrunk :: "(nat \<Rightarrow> thread_op) \<Rightarrow> nat \<Rightarrow> nat" where
  "shrunk q 0 = 0"
| "shrunk q (Suc i) = (if t_op (q i) = PG_THREAD_NONE then shrunk q i else Suc i)"

definition shrink_queue :: "pg_thread_client \<Rightarrow> pg_thread_client" where
  "shrink_queue cl =
     (let i = shrunk (queue cl) (queue_size cl) in
      cl\<lparr>queue_size := i, is_queue_empty := (if i = 0 then True else is_queue_empty cl)\<rparr>)"

definition set_none :: "nat \<Rightarrow> pg_thread_client \<Rightarrow> pg_thread_client" where
  "set_none j = set_op j (\<lambda>cur. cur\<lparr>t_op := PG_THREAD_NONE\<rparr>)"

datatype call =
  C_state | C_run | C_stop | C_add_graph nat | C_pop_error | C_force_start_graph int | C_pop_graph int

datatype result = R_int int | R_ptr ptr | R_error ptr int int

fun request :: "call \<Rightarrow> pg_thread_op \<times> pg_thread_arg" where
  "request C_state = (PG_THREAD_STATE, Arg_ptr Null)"
| "request C_run = (PG_THREAD_RUN, Arg_ptr Null)"
| "request C_stop = (PG_THREAD_STOP, Arg_ptr Null)"
| "request (C_add_graph g) = (PG_THREAD_ADD_GRAPH, Arg_ptr (P_graph g))"
| "request C_pop_error = (PG_THREAD_POP_ERROR, Arg_ptr Null)"
| "request (C_force_start_graph i) = (PG_THREAD_FORCE_START, Arg_i32 i)"
| "request (C_pop_graph i) = (PG_THREAD_RM_GRAPH, Arg_i32 i)"

text \<open>Calls that return without waiting for an answer.\<close>

fun no_answer :: "call \<Rightarrow> bool" where
  "no_answer C_run = True"
| "no_answer (C_force_start_graph _) = True"
| "no_answer _ = False"

text \<open>What a call does with the answer at position \<open>j\<close>, and its result.\<close>

fun finish :: "call \<Rightarrow> nat \<Rightarrow> pg_thread_client \<Rightarrow> result option \<times> pg_thread_client" where
  "finish C_stop j cl = (Some (R_int 0), relock (set_none j (shrink_queue cl)))"
| "finish c j cl =
     ((case (c, t_arg (queue cl j), t_arg2 (queue cl j)) of
         (C_state, Arg_u64 v, _) \<Rightarrow> Some (R_int (int v))
       | (C_add_graph g, Arg_i32 v, _) \<Rightarrow> Some (R_int v)
       | (C_pop_error, Arg_ptr e, Arg_i32s gid k) \<Rightarrow> Some (R_error e gid (if gid < 0 then -1 else k))
       | (C_pop_graph i, Arg_ptr p, _) \<Rightarrow> Some (R_ptr p)
       | _ \<Rightarrow> None),
      relock (shrink_queue (set_none j cl)))"

text \<open>Where a call is: trying to put its request into the queue, waiting for the answer, or done.\<close>

datatype pc = Enqueue | Wait nat | Done result

text \<open>One attempt of the caller, in \<open>wait_enqueue\<close> or in \<open>wait_answer\<close>.\<close>

fun call_step :: "call \<Rightarrow> pc \<times> pg_thread_client \<Rightarrow> (unit, pc \<times> pg_thread_client) out" where
  "call_step c (Done r, cl) = Ret () (Done r, cl)"
| "call_step c (Enqueue, cl) =
     (if is_queue_locked cl then Ret () (Enqueue, cl)
      else
        let (i, cl') = enqueue (fst (request c)) (snd (request c)) cl in
        if i < 0 then Ret () (Enqueue, cl')
        else Ret () (if no_answer c then Done (R_int 0) else Wait (nat i), cl'))"
| "call_step c (Wait j, cl) =
     (if is_queue_locked cl then Ret () (Wait j, cl)
      else if t_op (queue cl j) = PG_THREAD_ANSWER then
        (case finish c j cl of (None, _) \<Rightarrow> Abort ''another member of the union'' | (Some r, cl') \<Rightarrow> Ret () (Done r, cl'))
      else if t_op (queue cl j) = PG_THREAD_NONE then Abort ''g_assert(op != PG_THREAD_NONE)''
      else Ret () (Wait j, cl))"

section \<open>Starting and ending threads\<close>

text \<open>
  The static variables of the file. The number of cores, the next core and the largest number of
  cores are DPDK's. \<open>is_init\<close> is never set, so \<open>threads_max\<close> is computed at every call.
\<close>

record thread_globals =
  threads_max :: int
  last_thread_id :: int
  nb_thread_id_used :: int
  free_thread_ids :: "int pg_stack"
  thread_ids :: "int \<Rightarrow> pg_thread_client option"

record lcores =
  rte_lcore_count :: int
  rte_get_next_lcore :: "int \<Rightarrow> int"
  RTE_MAX_LCORE :: int

definition PG_THREAD_MAX :: "lcores \<Rightarrow> int" where
  "PG_THREAD_MAX x = (if int PG_STACK_BLOCK_SIZE < RTE_MAX_LCORE x then int PG_STACK_BLOCK_SIZE else RTE_MAX_LCORE x)"

definition pg_thread_max :: "lcores \<Rightarrow> thread_globals \<Rightarrow> int \<times> thread_globals" where
  "pg_thread_max x g =
     (let m = rte_lcore_count x - 1; m = (if PG_THREAD_MAX x < m then PG_THREAD_MAX x else m) in
      (m, g\<lparr>threads_max := m\<rparr>))"

definition no_op :: thread_op where
  "no_op = \<lparr>t_op = PG_THREAD_NONE, t_arg = Arg_ptr Null, t_arg2 = Arg_ptr Null\<rparr>"

definition new_client :: pg_thread_client where
  "new_client = \<lparr>is_queue_locked = False, is_queue_empty = True, queue_size = 0, queue = (\<lambda>_. no_op)\<rparr>"

text \<open>
  The number of the new thread and the error, if any. \<open>thread_ids\<close> has \<open>PG_THREAD_MAX\<close> entries, and
  an access outside of them ends the model's run.
\<close>

definition pg_thread_init :: "lcores \<Rightarrow> thread_globals \<Rightarrow> (int \<times> pg_error option, thread_globals) out" where
  "pg_thread_init x g =
     (let (ret, ids) = stack_pop (free_thread_ids g) (-1);
          g = snd (pg_thread_max x (g\<lparr>free_thread_ids := ids\<rparr>)) in
      if ret = -1 \<and> threads_max g < nb_thread_id_used g + 1 then
        Ret (-1, Some (pg_error_new ''pg_thread limit reach(%d), %s''
          [int_str (threads_max g), ''see dpdk lcore config''])) g
      else
        let (ret, g) = (if ret = -1
              then let r = rte_get_next_lcore x (last_thread_id g) in (r, g\<lparr>last_thread_id := r\<rparr>) else (ret, g)) in
        if ret < 0 \<or> PG_THREAD_MAX x \<le> ret then Abort ''thread_ids[ret]''
        else Ret (ret, None)
          (g\<lparr>nb_thread_id_used := nb_thread_id_used g + 1, thread_ids := (thread_ids g)(ret \<mapsto> new_client)\<rparr>))"

text \<open>
  \<open>pg_thread_destroy\<close> until it waits for the core (False when it has returned -1), and after the
  thread has returned. The request to quit is not tried again when the queue is full.
\<close>

definition pg_thread_destroy_begin :: "lcores \<Rightarrow> int \<Rightarrow> thread_globals \<Rightarrow> (bool, thread_globals) out" where
  "pg_thread_destroy_begin x tid g =
     (if threads_max g < tid then Ret False g
      else if tid < 0 \<or> PG_THREAD_MAX x \<le> tid then Abort ''thread_ids[thread_id]''
      else case thread_ids g tid of
        None \<Rightarrow> Ret False g
      | Some cl \<Rightarrow>
          Ret True (g\<lparr>thread_ids := (thread_ids g)(tid \<mapsto> snd (enqueue PG_THREAD_QUIT (Arg_ptr Null) cl))\<rparr>))"

definition pg_thread_destroy_end :: "bool \<Rightarrow> int \<Rightarrow> thread_globals \<Rightarrow> (int, thread_globals) out" where
  "pg_thread_destroy_end mok tid g =
     (let g = g\<lparr>nb_thread_id_used := nb_thread_id_used g - 1, thread_ids := (thread_ids g)(tid := None)\<rparr> in
      if nb_thread_id_used g = 0 then
        Ret 0 (g\<lparr>free_thread_ids := stack_destroy (free_thread_ids g), last_thread_id := 0\<rparr>)
      else case stack_push mok (free_thread_ids g) tid of
        Ret _ ids \<Rightarrow> Ret 0 (g\<lparr>free_thread_ids := ids\<rparr>) | Abort r \<Rightarrow> Abort r | Diverge \<Rightarrow> Diverge)"

section \<open>A thread and a caller\<close>

text \<open>
  The steps of a thread and of one caller, in any order. Either side gets the lock and does what
  it does with the lock held, or finds the lock taken by the other one: then the caller tries
  again and the thread goes on to poll.
\<close>

record sys =
  s_pc :: pc
  s_client :: pg_thread_client
  s_thread :: pg_thread
  s_world :: world

datatype kind = Thread_locks | Thread_misses | Caller_locks | Caller_misses

fun is_done :: "pc \<Rightarrow> bool" where
  "is_done (Done r) = True"
| "is_done Enqueue = False"
| "is_done (Wait j) = False"

inductive sys_step ::
    "nat \<Rightarrow> ext \<Rightarrow> (nat \<Rightarrow> pg_graph) \<Rightarrow> bool \<Rightarrow> call \<Rightarrow> kind \<Rightarrow> sys \<Rightarrow> sys \<Rightarrow> bool" for n x gs mok c where
  thread_locks: "\<not> th_returned (s_thread s) \<Longrightarrow>
     pg_thread_main_round n x gs mok (s_client s, s_thread s, s_world s) = Ret () (cl, th, w) \<Longrightarrow>
     sys_step n x gs mok c Thread_locks s (s\<lparr>s_client := cl, s_thread := th, s_world := w\<rparr>)"
| thread_gone: "th_returned (s_thread s) \<Longrightarrow> sys_step n x gs mok c Thread_locks s s"
| thread_misses: "\<not> th_returned (s_thread s) \<Longrightarrow> \<not> is_done (s_pc s) \<Longrightarrow>
     thread_poll n x gs mok (s_thread s, s_world s) = Ret () (th, w) \<Longrightarrow>
     sys_step n x gs mok c Thread_misses s (s\<lparr>s_thread := th, s_world := w\<rparr>)"
| caller_locks: "call_step c (s_pc s, s_client s) = Ret () (pc, cl) \<Longrightarrow>
     sys_step n x gs mok c Caller_locks s (s\<lparr>s_pc := pc, s_client := cl\<rparr>)"
| caller_misses: "sys_step n x gs mok c Caller_misses s s"

inductive_cases sys_stepE: "sys_step n x gs mok c k s s'"

definition is_run ::
    "nat \<Rightarrow> ext \<Rightarrow> (nat \<Rightarrow> pg_graph) \<Rightarrow> bool \<Rightarrow> call \<Rightarrow> (nat \<Rightarrow> kind) \<Rightarrow> (nat \<Rightarrow> sys) \<Rightarrow> bool" where
  "is_run n x gs mok c k f \<longleftrightarrow> (\<forall>i. sys_step n x gs mok c (k i) (f i) (f (Suc i)))"

text \<open>Both sides get the lock again and again.\<close>

definition fair :: "(nat \<Rightarrow> kind) \<Rightarrow> bool" where
  "fair k \<longleftrightarrow> (\<forall>i. (\<exists>j \<ge> i. k j = Thread_locks) \<and> (\<exists>j \<ge> i. k j = Caller_locks))"

lemma run_invariant:
  assumes "is_run n x gs mok c k f" and "I (f i)"
    and "\<And>k s s'. sys_step n x gs mok c k s s' \<Longrightarrow> I s \<Longrightarrow> I s'" and "i \<le> j"
  shows "I (f j)"
  using assms(4)
proof (induction j rule: dec_induct)
  case (step m)
  then show ?case using assms(1,3) unfolding is_run_def by blast
qed (rule assms(2))

text \<open>
  A step that must come: while \<open>I\<close> holds every step keeps it or reaches \<open>Q\<close>, and each step of
  kind \<open>a\<close> reaches \<open>Q\<close>.
\<close>

lemma run_leads_to:
  assumes run: "is_run n x gs mok c k f" and I: "I (f i)"
    and keep: "\<And>k s s'. sys_step n x gs mok c k s s' \<Longrightarrow> I s \<Longrightarrow> I s' \<or> Q s'"
    and act: "\<And>s s'. sys_step n x gs mok c a s s' \<Longrightarrow> I s \<Longrightarrow> Q s'"
    and fair: "\<exists>j \<ge> i. k j = a"
  shows "\<exists>j > i. Q (f j)"
proof (rule ccontr)
  assume no: "\<not> (\<exists>j > i. Q (f j))"
  obtain j where j: "i \<le> j" "k j = a" using fair by blast
  have "I (f j)"
    using j(1)
  proof (induction j rule: dec_induct)
    case (step m)
    have "I (f (Suc m)) \<or> Q (f (Suc m))" using keep [OF _ step.IH] run unfolding is_run_def by blast
    moreover have "i < Suc m" using step.hyps by simp
    ultimately show ?case using no by blast
  qed (rule I)
  then have "Q (f (Suc j))" using act run j(2) unfolding is_run_def by metis
  moreover have "i < Suc j" using j(1) by simp
  ultimately show False using no by blast
qed

section \<open>What a round keeps\<close>

lemma set_op_simps [simp]:
  "queue_size (set_op pos f cl) = queue_size cl" "is_queue_locked (set_op pos f cl) = is_queue_locked cl"
  "queue (set_op pos f cl) = (queue cl)(pos := f (queue cl pos))"
  by (simp_all add: set_op_def)

lemma relock_simps [simp]:
  "queue_size (relock cl) = queue_size cl" "queue (relock cl) = queue cl" "\<not> is_queue_locked (relock cl)"
  by (simp_all add: relock_def)

text \<open>Requests that are answered at once.\<close>

definition answered :: "pg_thread_op set" where
  "answered = {PG_THREAD_STATE, PG_THREAD_ADD_GRAPH, PG_THREAD_RM_GRAPH, PG_THREAD_POP_ERROR, PG_THREAD_STOP,
     PG_THREAD_ANSWER}"

lemmas op_defs = op_pop_error_def op_rm_graph_def op_add_graph_def op_force_start_def op_run_def op_stop_def
  op_state_def

lemma handle_op_keeps:
  assumes "handle_op mok pos (cl, th) = Ret fl (cl', th')"
    and "t_op (queue cl pos) \<noteq> PG_THREAD_QUIT"
    and "t_op (queue cl pos) = PG_THREAD_ADD_GRAPH \<longrightarrow> th_last_graph th < PG_STACK_BLOCK_SIZE"
  shows "fl = Break" and "queue_size cl' = queue_size cl" and "is_queue_locked cl' = is_queue_locked cl"
    and "th_returned th' = th_returned th" and "i \<noteq> pos \<longrightarrow> queue cl' i = queue cl i"
    and "t_op (queue cl' pos) \<in> {PG_THREAD_NONE, PG_THREAD_ANSWER, t_op (queue cl pos)}"
    and "t_op (queue cl pos) \<in> answered \<longrightarrow> t_op (queue cl' pos) = PG_THREAD_ANSWER"
    and "t_op (queue cl pos) \<noteq> PG_THREAD_ADD_GRAPH \<longrightarrow> th_last_graph th' = th_last_graph th"
  using assms
  by (cases "t_op (queue cl pos)";
      auto simp: handle_op_def op_defs answered_def Let_def
        split: prod.splits out.splits pg_thread_arg.splits ptr.splits if_splits)+

text \<open>Positions that hold no request to quit or to add a graph.\<close>

definition harmless :: "pg_thread_client \<Rightarrow> nat \<Rightarrow> bool" where
  "harmless cl m \<longleftrightarrow> (\<forall>j < m. t_op (queue cl j) \<notin> {PG_THREAD_QUIT, PG_THREAD_ADD_GRAPH})"

definition processed :: "nat \<Rightarrow> pg_thread_client \<times> pg_thread \<Rightarrow> pg_thread_client \<times> pg_thread \<Rightarrow> bool" where
  "processed pos s s' = (case (s, s') of ((cl, th), (cl', th')) \<Rightarrow>
     queue_size cl' = queue_size cl \<and> is_queue_locked cl' = is_queue_locked cl \<and> th_returned th' = th_returned th \<and>
     (\<forall>i > pos. queue cl' i = queue cl i) \<and>
     (\<forall>i \<le> pos. t_op (queue cl' i) \<in> {PG_THREAD_NONE, PG_THREAD_ANSWER, t_op (queue cl i)}) \<and>
     (t_op (queue cl pos) \<in> answered \<longrightarrow> t_op (queue cl' pos) = PG_THREAD_ANSWER) \<and>
     (t_op (queue cl pos) \<noteq> PG_THREAD_ADD_GRAPH \<longrightarrow> th_last_graph th' = th_last_graph th))"

lemma process_queue_keeps:
  assumes "process_queue mok pos (cl, th) = Ret fl (cl', th')" and "harmless cl pos"
    and "t_op (queue cl pos) \<noteq> PG_THREAD_QUIT"
    and "t_op (queue cl pos) = PG_THREAD_ADD_GRAPH \<longrightarrow> th_last_graph th < PG_STACK_BLOCK_SIZE"
  shows "fl = Break \<and> processed pos (cl, th) (cl', th')"
  using assms
proof (induction pos arbitrary: cl th)
  case 0
  have "handle_op mok 0 (cl, th) = Ret fl (cl', th')"
    using 0(1) by (auto simp: process_queue.simps [of mok 0] obind_eq_Ret split: if_splits)
  note h = handle_op_keeps [OF this 0(3,4)]
  show ?case unfolding processed_def using h(1-4,6-8) h(5) by simp
next
  case (Suc pos)
  obtain fl1 cl1 th1 where h: "handle_op mok (Suc pos) (cl, th) = Ret fl1 (cl1, th1)"
    using Suc.prems(1) by (auto simp: process_queue.simps [of mok "Suc pos"] obind_eq_Ret)
  note k = handle_op_keeps [OF h Suc.prems(3,4)]
  show ?case
  proof (cases "pos = 0")
    case True
    then have "fl1 = fl \<and> cl1 = cl' \<and> th1 = th'"
      using Suc.prems(1) h by (simp add: process_queue.simps [of mok "Suc 0"])
    then show ?thesis
      unfolding processed_def using k(1-4,6-8) k(5) True by (auto simp: le_Suc_eq)
  next
    case False
    have p: "process_queue mok pos (cl1, th1) = Ret fl (cl', th')"
      using Suc.prems(1) h k(1) False by (simp add: process_queue.simps [of mok "Suc pos"])
    have low: "queue cl1 i = queue cl i" if "i \<le> pos" for i using k(5) [of i] that by simp
    have harm: "harmless cl1 pos" using Suc.prems(2) low by (simp add: harmless_def)
    have "t_op (queue cl pos) \<notin> {PG_THREAD_QUIT, PG_THREAD_ADD_GRAPH}"
      using Suc.prems(2) by (auto simp: harmless_def)
    then have op: "t_op (queue cl1 pos) \<noteq> PG_THREAD_QUIT" "t_op (queue cl1 pos) \<noteq> PG_THREAD_ADD_GRAPH"
      using low [of pos] by auto
    have IH: "fl = Break \<and> processed pos (cl1, th1) (cl', th')"
      using op by (intro Suc.IH [OF p harm]) simp_all
    have high: "queue cl' i = queue cl i" if "Suc pos < i" for i
      using IH k(5) [of i] that by (simp add: processed_def)
    have top: "queue cl' (Suc pos) = queue cl1 (Suc pos)" using IH by (simp add: processed_def)
    have "t_op (queue cl' i) \<in> {PG_THREAD_NONE, PG_THREAD_ANSWER, t_op (queue cl i)}" if "i \<le> Suc pos" for i
      using that IH low [of i] top k(6) by (auto simp: processed_def le_Suc_eq)
    then show ?thesis using IH k(1-4,7,8) high top op(2) by (simp add: processed_def)
  qed
qed

lemma poll_graph_keeps:
  "ores (poll_graph n x gs mok i s) (\<lambda>_ s'. th_last_graph (fst s') = th_last_graph (fst s) \<and>
     th_returned (fst s') = th_returned (fst s) \<and> th_free_graph (fst s') = th_free_graph (fst s))"
  by (cases s) (auto simp: poll_graph_def Let_def ores_def split: out.splits option.splits if_splits)

lemma thread_poll_keeps:
  assumes "thread_poll n x gs mok (th, w) = Ret () (th', w')"
  shows "th_last_graph th' = th_last_graph th \<and> th_returned th' = th_returned th \<and>
    th_free_graph th' = th_free_graph th"
proof -
  let ?I = "\<lambda>s. th_last_graph (fst s) = th_last_graph th \<and> th_returned (fst s) = th_returned th \<and>
    th_free_graph (fst s) = th_free_graph th"
  have one: "ores (poll_graph n x gs mok i s) (\<lambda>_. ?I)" if "?I s" for i and s :: "pg_thread \<times> world"
    using ores_mono [OF poll_graph_keeps [of n x gs mok i s], of "\<lambda>_. ?I"] that by simp
  have "ores (ofold (\<lambda>j s. ofold (poll_graph n x gs mok) [0..<th_last_graph (fst s)] s) [0..<32] (th, w)) (\<lambda>_. ?I)"
    by (rule ores_ofold [where I = ?I]) (use one in \<open>auto intro: ores_ofold [where I = ?I]\<close>)
  then show ?thesis using assms by (auto simp: thread_poll_def split: if_splits)
qed

text \<open>A round on a queue whose top, at position \<open>m\<close>, and whose other requests can be handled.\<close>

lemma round_keeps:
  assumes run: "pg_thread_main_round n x gs mok (cl, th, w) = Ret () (cl', th', w')"
    and free: "\<not> is_queue_locked cl" and size: "queue_size cl = Suc m" and harm: "harmless cl m"
    and "t_op (queue cl m) \<noteq> PG_THREAD_QUIT"
    and "t_op (queue cl m) = PG_THREAD_ADD_GRAPH \<longrightarrow> th_last_graph th < PG_STACK_BLOCK_SIZE"
  shows "\<not> is_queue_locked cl'" and "queue_size cl' = Suc m" and "th_returned th' = th_returned th"
    and "i \<le> m \<longrightarrow> t_op (queue cl' i) \<in> {PG_THREAD_NONE, PG_THREAD_ANSWER, t_op (queue cl i)}"
    and "t_op (queue cl m) \<in> answered \<longrightarrow> t_op (queue cl' m) = PG_THREAD_ANSWER"
    and "t_op (queue cl m) \<noteq> PG_THREAD_ADD_GRAPH \<longrightarrow> th_last_graph th' = th_last_graph th"
proof -
  let ?cl = "cl\<lparr>is_queue_locked := True\<rparr>"
  obtain fl cl1 th1 where p: "process_queue mok m (?cl, th) = Ret fl (cl1, th1)"
    using run free size
    by (auto simp: pg_thread_main_round_def thread_ops_def obind_eq_Ret split: out.splits)
  have k: "fl = Break \<and> processed m (?cl, th) (cl1, th1)"
    using assms(5,6) harm by (intro process_queue_keeps [OF p]) (simp_all add: harmless_def)
  then have ops: "thread_ops mok (cl, th) = Ret True (relock cl1, th1)"
    using p free size by (simp add: thread_ops_def)
  obtain th2 w2 where q: "thread_poll n x gs mok (th1, w) = Ret () (th2, w2)" "cl' = relock cl1" "th' = th2"
    using run ops by (auto simp: pg_thread_main_round_def split: out.splits)
  note poll = thread_poll_keeps [OF q(1)]
  show "\<not> is_queue_locked cl'" using q(2) by simp
  show "queue_size cl' = Suc m" "th_returned th' = th_returned th"
    "i \<le> m \<longrightarrow> t_op (queue cl' i) \<in> {PG_THREAD_NONE, PG_THREAD_ANSWER, t_op (queue cl i)}"
    "t_op (queue cl m) \<in> answered \<longrightarrow> t_op (queue cl' m) = PG_THREAD_ANSWER"
    "t_op (queue cl m) \<noteq> PG_THREAD_ADD_GRAPH \<longrightarrow> th_last_graph th' = th_last_graph th"
    using k q(2,3) poll size by (simp_all add: processed_def)
qed

lemma round_empty:
  assumes "pg_thread_main_round n x gs mok (cl, th, w) = Ret () s'" and "\<not> is_queue_locked cl" and "queue_size cl = 0"
  shows "s' = (cl, th, w)"
  using assms by (simp add: pg_thread_main_round_def thread_ops_def)

lemma round_locked:
  assumes "pg_thread_main_round n x gs mok (cl, th, w) = Ret () (cl', th', w')" and "is_queue_locked cl"
  shows "cl' = cl"
  using assms by (auto simp: pg_thread_main_round_def thread_ops_def split: out.splits)

section \<open>Idle queues\<close>

definition idle :: "pg_thread_client \<Rightarrow> nat \<Rightarrow> bool" where
  "idle cl m \<longleftrightarrow> (\<forall>j < m. t_op (queue cl j) \<in> {PG_THREAD_NONE, PG_THREAD_ANSWER})"

lemma process_idle:
  "idle cl (Suc pos) \<Longrightarrow> process_queue mok pos (cl, th) = Ret Break (cl, th)"
proof (induction pos)
  case 0
  then show ?case by (subst process_queue.simps) (auto simp: idle_def handle_op_def)
next
  case (Suc pos)
  then have "handle_op mok (Suc pos) (cl, th) = Ret Break (cl, th)" by (auto simp: idle_def handle_op_def)
  moreover have "idle cl (Suc pos)" using Suc.prems by (simp add: idle_def)
  ultimately show ?case using Suc.IH by (subst process_queue.simps) simp
qed

text \<open>Only the top of the queue has something to do.\<close>

lemma process_top:
  assumes "handle_op mok m (cl, th) = Ret Break (cl1, th1)" and "idle cl1 m"
  shows "process_queue mok m (cl, th) = Ret Break (cl1, th1)"
proof (cases "1 < m")
  case True
  then have "process_queue mok (m - 1) (cl1, th1) = Ret Break (cl1, th1)"
    using process_idle [of cl1 "m - 1"] assms(2) by simp
  then show ?thesis using assms(1) True by (subst process_queue.simps) simp
next
  case False
  then show ?thesis using assms(1) by (subst process_queue.simps) simp
qed

lemma round_idle:
  assumes "pg_thread_main_round n x gs mok (cl, th, w) = Ret () (cl', th', w')"
    and "\<not> is_queue_locked cl" and "idle cl (queue_size cl)"
  shows "cl' = cl \<and> (th' = th \<and> w' = w \<or> thread_poll n x gs mok (th, w) = Ret () (th', w'))"
proof (cases "queue_size cl")
  case 0
  then show ?thesis using round_empty [OF assms(1,2)] by simp
next
  case (Suc m)
  have "idle (cl\<lparr>is_queue_locked := True\<rparr>) (Suc m)" using assms(3) Suc by (simp add: idle_def)
  then have "thread_ops mok (cl, th) = Ret True (cl, th)"
    using process_idle [of "cl\<lparr>is_queue_locked := True\<rparr>" m mok th] assms(2) Suc
    by (simp add: thread_ops_def relock_def)
  then show ?thesis using assms(1) by (auto simp: pg_thread_main_round_def split: out.splits)
qed

text \<open>A request to quit ends the thread in its next round; in a full queue it is lost.\<close>

lemma quit_round:
  assumes "\<not> is_queue_locked cl" and "queue_size cl + 1 \<noteq> PG_THREAD_MAX_OP"
  shows "oret (pg_thread_main_round n x gs mok (snd (enqueue PG_THREAD_QUIT a cl), th, w))
    (\<lambda>_ (cl', th', w'). th_returned th' \<and> \<not> is_queue_locked cl' \<and> w' = w)"
  using assms
  by (simp add: pg_thread_main_round_def thread_ops_def enqueue_def process_queue.simps [of mok "queue_size cl"]
      handle_op_def op_quit_def)

lemma quit_lost: "queue_size cl + 1 = PG_THREAD_MAX_OP \<Longrightarrow> snd (enqueue PG_THREAD_QUIT a cl) = cl"
  by (simp add: enqueue_def)

text \<open>
  A thread that is ended gives its number back: the next one started gets it, without asking
  DPDK for a core.
\<close>

lemma destroy_then_init:
  assumes "stack_inv (free_thread_ids g)" and "st_limit (free_thread_ids g) = 0" and "1 < nb_thread_id_used g"
    and "0 \<le> tid" and "tid < PG_THREAD_MAX x"
  shows "oret (obind (pg_thread_destroy_end True tid g) (\<lambda>_. pg_thread_init x))
    (\<lambda>r g2. r = (tid, None) \<and> thread_ids g2 tid = Some new_client \<and> nb_thread_id_used g2 = nb_thread_id_used g)"
proof -
  obtain ids where ids: "stack_push True (free_thread_ids g) tid = Ret () ids" "stack_inv ids"
      "stack_list ids = tid # stack_list (free_thread_ids g)"
    using stack_list_push [OF assms(1), of tid] assms(2) by (auto simp: oret_iff stack_full_def)
  have "fst (stack_pop ids (-1)) = tid" using lq.pop_Cons [OF ids(2,3), of "-1"] by blast
  then show ?thesis
    using ids(1) assms(3-5)
    by (auto simp: pg_thread_destroy_end_def pg_thread_init_def pg_thread_max_def Let_def split: prod.splits)
qed

section \<open>Properties\<close>

text \<open>The queue before a call: unlocked, with room, and without requests to quit or to add a graph.\<close>

definition ready :: "pg_thread_client \<Rightarrow> pg_thread \<Rightarrow> bool" where
  "ready cl th \<longleftrightarrow> \<not> is_queue_locked cl \<and> \<not> th_returned th \<and> queue_size cl + 1 < PG_THREAD_MAX_OP \<and>
     harmless cl (queue_size cl)"

definition room_for :: "call \<Rightarrow> pg_thread \<Rightarrow> bool" where
  "room_for c th \<longleftrightarrow> (\<forall>g. c = C_add_graph g \<longrightarrow> th_last_graph th < PG_STACK_BLOCK_SIZE)"

text \<open>The caller has put its request at position \<open>j\<close>, the top of the queue.\<close>

definition waiting :: "call \<Rightarrow> nat \<Rightarrow> sys \<Rightarrow> bool" where
  "waiting c j s \<longleftrightarrow> s_pc s = Wait j \<and> \<not> is_queue_locked (s_client s) \<and> \<not> th_returned (s_thread s) \<and>
     queue_size (s_client s) = Suc j \<and> harmless (s_client s) j"

lemma round_ready:
  assumes "pg_thread_main_round n x gs mok (cl, th, w) = Ret () (cl', th', w')" and "ready cl th"
  shows "ready cl' th' \<and> th_last_graph th' = th_last_graph th"
proof (cases "queue_size cl")
  case 0
  then show ?thesis using round_empty [OF assms(1)] assms(2) by (simp add: ready_def)
next
  case (Suc m)
  have free: "\<not> is_queue_locked cl" and harm: "harmless cl m"
    and top: "t_op (queue cl m) \<noteq> PG_THREAD_QUIT" "t_op (queue cl m) \<noteq> PG_THREAD_ADD_GRAPH"
    using assms(2) Suc by (auto simp: ready_def harmless_def)
  note k = round_keeps [OF assms(1) free Suc harm top(1)]
  have ops: "t_op (queue cl' i) \<in> {PG_THREAD_NONE, PG_THREAD_ANSWER, t_op (queue cl i)}" if "i \<le> m" for i
    using k(4) [of i] top(2) that by simp
  have "t_op (queue cl' i) \<notin> {PG_THREAD_QUIT, PG_THREAD_ADD_GRAPH}" if "i < Suc m" for i
    using ops [of i] that assms(2) Suc by (auto simp: ready_def harmless_def)
  then show ?thesis using k(1-3,6) top(2) assms(2) Suc by (simp add: ready_def harmless_def)
qed

lemma call_enqueues:
  assumes "call_step c (Enqueue, cl) = Ret () (pc, cl')" and "ready cl th"
  shows "if no_answer c then is_done pc
    else pc = Wait (queue_size cl) \<and> \<not> is_queue_locked cl' \<and> queue_size cl' = Suc (queue_size cl) \<and>
      harmless cl' (queue_size cl) \<and> t_op (queue cl' (queue_size cl)) = fst (request c) \<and>
      (\<forall>i < queue_size cl. queue cl' i = queue cl i)"
  using assms by (auto simp: ready_def enqueue_def harmless_def Let_def split: if_splits)

lemma request_answered: "\<not> no_answer c \<Longrightarrow> fst (request c) \<in> answered - {PG_THREAD_ANSWER}"
  by (cases c) (simp_all add: answered_def)

definition asked :: "call \<Rightarrow> nat \<Rightarrow> sys \<Rightarrow> bool" where
  "asked c j s \<longleftrightarrow> waiting c j s \<and> t_op (queue (s_client s) j) = fst (request c) \<and> room_for c (s_thread s)"

definition replied :: "call \<Rightarrow> nat \<Rightarrow> sys \<Rightarrow> bool" where
  "replied c j s \<longleftrightarrow> waiting c j s \<and> t_op (queue (s_client s) j) = PG_THREAD_ANSWER"

definition calling :: "call \<Rightarrow> sys \<Rightarrow> bool" where
  "calling c s \<longleftrightarrow> s_pc s = Enqueue \<and> ready (s_client s) (s_thread s) \<and> room_for c (s_thread s)"

lemma calling_step:
  assumes "sys_step n x gs mok c k s s'" and "calling c s"
  shows "calling c s' \<or> is_done (s_pc s') \<or> (\<not> no_answer c \<and> (\<exists>j. asked c j s'))"
    and "k = Caller_locks \<Longrightarrow> is_done (s_pc s') \<or> (\<not> no_answer c \<and> (\<exists>j. asked c j s'))"
proof -
  have rd: "ready (s_client s) (s_thread s)" "s_pc s = Enqueue" using assms(2) by (simp_all add: calling_def)
  have caller: "is_done pc \<or> (\<not> no_answer c \<and> (\<exists>j. asked c j (s\<lparr>s_pc := pc, s_client := cl\<rparr>)))"
    if "call_step c (s_pc s, s_client s) = Ret () (pc, cl)" for pc cl
    using call_enqueues [of c "s_client s" pc cl, OF _ rd(1)] that assms(2) rd
    by (auto simp: asked_def waiting_def calling_def ready_def split: if_splits)
  show "calling c s' \<or> is_done (s_pc s') \<or> (\<not> no_answer c \<and> (\<exists>j. asked c j s'))"
    using assms(1)
  proof cases
    case (thread_locks cl th w)
    then show ?thesis using round_ready [OF thread_locks(4) rd(1)] assms(2) by (simp add: calling_def room_for_def)
  next
    case (thread_misses th w)
    then show ?thesis
      using thread_poll_keeps [OF thread_misses(5)] assms(2) by (simp add: calling_def ready_def room_for_def)
  next
    case (caller_locks pc cl)
    then show ?thesis using caller [OF caller_locks(3)] by auto
  qed (use assms(2) in auto)
  show "is_done (s_pc s') \<or> (\<not> no_answer c \<and> (\<exists>j. asked c j s'))" if "k = Caller_locks"
    using assms(1) that caller by (auto elim!: sys_stepE)
qed

lemma waiting_round:
  assumes "pg_thread_main_round n x gs mok (s_client s, s_thread s, s_world s) = Ret () (cl, th, w)"
    and "waiting c j s" and "t_op (queue (s_client s) j) \<in> answered"
    and "t_op (queue (s_client s) j) = PG_THREAD_ADD_GRAPH \<longrightarrow> th_last_graph (s_thread s) < PG_STACK_BLOCK_SIZE"
  shows "replied c j (s\<lparr>s_client := cl, s_thread := th, s_world := w\<rparr>)"
proof -
  have s: "\<not> is_queue_locked (s_client s)" "queue_size (s_client s) = Suc j" "harmless (s_client s) j"
    using assms(2) by (simp_all add: waiting_def)
  have q: "t_op (queue (s_client s) j) \<noteq> PG_THREAD_QUIT" using assms(3) by (auto simp: answered_def)
  note k = round_keeps [OF assms(1) s q assms(4)]
  have "t_op (queue cl i) \<notin> {PG_THREAD_QUIT, PG_THREAD_ADD_GRAPH}" if "i < j" for i
    using k(4) [of i] s(3) that by (auto simp: harmless_def)
  then show ?thesis using k(1-3,5) assms(2,3) by (simp add: replied_def waiting_def harmless_def)
qed

lemma waiting_poll:
  assumes "thread_poll n x gs mok (s_thread s, s_world s) = Ret () (th, w)"
  shows "waiting c j (s\<lparr>s_thread := th, s_world := w\<rparr>) = waiting c j s"
  using thread_poll_keeps [OF assms] by (simp add: waiting_def)

lemma asked_step:
  assumes "sys_step n x gs mok c k s s'" and "asked c j s" and "\<not> no_answer c"
  shows "asked c j s' \<or> replied c j s'" and "k = Thread_locks \<Longrightarrow> replied c j s'"
proof -
  have w: "waiting c j s" and op: "t_op (queue (s_client s) j) = fst (request c)" and room: "room_for c (s_thread s)"
    using assms(2) by (simp_all add: asked_def)
  have ans: "t_op (queue (s_client s) j) \<in> answered" and nans: "fst (request c) \<noteq> PG_THREAD_ANSWER"
    "fst (request c) \<noteq> PG_THREAD_NONE"
    using request_answered [OF assms(3)] op by (auto simp: answered_def)
  have add: "t_op (queue (s_client s) j) = PG_THREAD_ADD_GRAPH \<longrightarrow> th_last_graph (s_thread s) < PG_STACK_BLOCK_SIZE"
    using room unfolding op by (cases c) (simp_all add: room_for_def)
  have thread: "replied c j s'" if "k = Thread_locks"
    using assms(1)
  proof cases
    case (thread_locks cl th w')
    then show ?thesis using waiting_round [OF thread_locks(4) w ans add] by simp
  qed (use that w in \<open>auto simp: waiting_def\<close>)
  then show "k = Thread_locks \<Longrightarrow> replied c j s'" .
  show "asked c j s' \<or> replied c j s'"
    using assms(1)
  proof cases
    case (thread_misses th w')
    then show ?thesis
      using waiting_poll [OF thread_misses(5)] thread_poll_keeps [OF thread_misses(5)] assms(2)
      by (simp add: asked_def room_for_def)
  next
    case (caller_locks pc cl)
    then show ?thesis using assms(2) w op nans by (auto simp: asked_def waiting_def split: if_splits)
  qed (use assms(2) thread in auto)
qed

lemma replied_step:
  assumes "sys_step n x gs mok c k s s'" and "replied c j s"
  shows "replied c j s' \<or> is_done (s_pc s')" and "k = Caller_locks \<Longrightarrow> is_done (s_pc s')"
proof -
  have w: "waiting c j s" and op: "t_op (queue (s_client s) j) = PG_THREAD_ANSWER"
    using assms(2) by (simp_all add: replied_def)
  have caller: "is_done pc" if "call_step c (s_pc s, s_client s) = Ret () (pc, cl)" for pc cl
    using that w op by (auto simp: waiting_def split: prod.splits option.splits)
  then show "k = Caller_locks \<Longrightarrow> is_done (s_pc s')" using assms(1) by (auto elim!: sys_stepE)
  show "replied c j s' \<or> is_done (s_pc s')"
    using assms(1)
  proof cases
    case (thread_locks cl th w')
    then show ?thesis using waiting_round [OF thread_locks(4) w] op by (simp add: answered_def)
  next
    case (thread_misses th w')
    then show ?thesis using waiting_poll [OF thread_misses(5)] assms(2) by (simp add: replied_def)
  qed (use assms(2) caller in auto)
qed

text \<open>
  C6. Every call returns. A caller that calls a thread through a queue that is not full, not
  locked for good and holds no request to quit or to add another graph, gets its answer: in every
  run of the thread and the caller in which both get the lock again and again and nothing
  crashes, the call is done at some time. A call that adds a graph needs a free slot.
\<close>
theorem thread_call_returns:
  assumes "is_run n x gs mok c k f" and "fair k" and "s_pc (f 0) = Enqueue"
    and "ready (s_client (f 0)) (s_thread (f 0))" and "room_for c (s_thread (f 0))"
  shows "\<exists>i r. s_pc (f i) = Done r"
proof -
  have fair: "\<exists>j \<ge> i. k j = Thread_locks" "\<exists>j \<ge> i. k j = Caller_locks" for i
    using assms(2) unfolding fair_def by blast+
  let ?Q = "\<lambda>s. is_done (s_pc s) \<or> (\<not> no_answer c \<and> (\<exists>j. asked c j s))"
  have start: "calling c (f 0)" using assms(3-5) by (simp add: calling_def)
  have keep: "sys_step n x gs mok c k s s' \<Longrightarrow> calling c s \<Longrightarrow> calling c s' \<or> ?Q s'" for k s s'
    using calling_step(1) by blast
  have act: "sys_step n x gs mok c Caller_locks s s' \<Longrightarrow> calling c s \<Longrightarrow> ?Q s'" for s s'
    using calling_step(2) by blast
  have "\<exists>j > 0. ?Q (f j)"
    by (rule run_leads_to [where I = "calling c", OF assms(1) start keep act fair(2)])
  then obtain i1 where "?Q (f i1)" by blast
  then have "\<exists>i. is_done (s_pc (f i))"
  proof (elim disjE)
    assume "\<not> no_answer c \<and> (\<exists>j. asked c j (f i1))"
    then obtain j where na: "\<not> no_answer c" and asked: "asked c j (f i1)" by blast
    have "\<exists>i > i1. replied c j (f i)"
      by (rule run_leads_to [where I = "asked c j" and a = Thread_locks, OF assms(1) asked])
        (use asked_step [OF _ _ na] fair(1) in blast)+
    then obtain i2 where replied: "replied c j (f i2)" by blast
    have "\<exists>i > i2. is_done (s_pc (f i))"
      by (rule run_leads_to [where I = "replied c j" and a = Caller_locks, OF assms(1) replied])
        (use replied_step fair(2) in blast)+
    then show ?thesis by blast
  qed blast
  then obtain i where "is_done (s_pc (f i))" by blast
  then show ?thesis by (cases "s_pc (f i)") auto
qed

text \<open>Runs of calls on a new client, for the examples below.\<close>

definition no_graphs :: "nat \<Rightarrow> pg_graph" where
  "no_graphs i = \<lparr>gr_name = [], gr_pollable = [], gr_all = []\<rparr>"

lemma poll_no_graphs: "thread_poll n x no_graphs mok s = Ret () s"
proof -
  have one: "poll_graph n x no_graphs mok i s = Ret () s" for i s
    by (cases s) (simp add: poll_graph_def pg_graph_poll_def no_graphs_def Let_def)
  have "ofold (poll_graph n x no_graphs mok) is s = Ret () s" for "is" s
    by (induction "is") (simp_all add: one)
  then have "ofold (\<lambda>j s. ofold (poll_graph n x no_graphs mok) [0..<th_last_graph (fst s)] s) js s = Ret () s" for js :: "nat list"
    by (induction js) simp_all
  then show ?thesis by (simp add: thread_poll_def)
qed

text \<open>A call for the state of a thread \<open>th\<close>, answered at once; the thread then polls the world \<open>w\<close> to \<open>w'\<close>.\<close>

definition state_op :: "pg_thread_op \<Rightarrow> pg_thread_arg \<Rightarrow> thread_op" where
  "state_op p a = no_op\<lparr>t_op := p, t_arg := a\<rparr>"

definition state_run :: "pg_thread \<Rightarrow> world \<Rightarrow> world \<Rightarrow> nat \<Rightarrow> sys" where
  "state_run th w w' i =
     (let sys = \<lambda>pc cl. \<lparr>s_pc = pc, s_client = cl, s_thread = th, s_world = if i < 2 then w else w'\<rparr>;
          one = new_client\<lparr>queue_size := 1, queue := (\<lambda>_. no_op)(0 := state_op PG_THREAD_STATE (Arg_ptr Null))\<rparr>;
          ans = Arg_u64 (state_code (th_state th)) in
      if i = 0 then sys Enqueue new_client
      else if i = 1 then sys (Wait 0) one
      else if i = 2 then sys (Wait 0) (one\<lparr>queue := (\<lambda>_. no_op)(0 := state_op PG_THREAD_ANSWER ans)\<rparr>)
      else sys (Done (R_int (int (state_code (th_state th)))))
             (new_client\<lparr>queue := (\<lambda>_. no_op)(0 := state_op PG_THREAD_NONE ans)\<rparr>))"

definition turns :: "nat \<Rightarrow> kind" where
  "turns i = (if even i then Caller_locks else Thread_locks)"

lemma turns_fair: "fair turns"
  unfolding fair_def turns_def
proof
  fix i :: nat
  have "even i \<or> even (Suc i)" "odd i \<or> odd (Suc i)" by simp_all
  then show "(\<exists>j \<ge> i. (if even j then Caller_locks else Thread_locks) = Thread_locks) \<and>
      (\<exists>j \<ge> i. (if even j then Caller_locks else Thread_locks) = Caller_locks)"
    by (metis le_refl le_SucI kind.distinct(3))
qed

lemma state_run_is_run:
  assumes "\<not> th_returned th" and "thread_poll n x gs mok (th, w) = Ret () (th, w')"
  shows "is_run n x gs mok C_state turns (state_run th w w')"
  unfolding is_run_def
proof
  fix i :: nat
  consider "i = 0" | "i = 1" | "i = 2" | "3 \<le> i" by linarith
  then show "sys_step n x gs mok C_state (turns i) (state_run th w w' i) (state_run th w w' (Suc i))"
  proof cases
    case 1
    have "call_step C_state (s_pc (state_run th w w' 0), s_client (state_run th w w' 0)) =
        Ret () (s_pc (state_run th w w' 1), s_client (state_run th w w' 1))"
      by (simp add: state_run_def new_client_def enqueue_def PG_THREAD_MAX_OP_def set_op_def state_op_def no_op_def
          fun_upd_def)
    from caller_locks [OF this] show ?thesis using 1 by (simp add: turns_def state_run_def)
  next
    case 2
    have "pg_thread_main_round n x gs mok (s_client (state_run th w w' 1), s_thread (state_run th w w' 1), s_world (state_run th w w' 1)) =
        Ret () (s_client (state_run th w w' 2), s_thread (state_run th w w' 2), s_world (state_run th w w' 2))"
      by (simp add: state_run_def new_client_def pg_thread_main_round_def thread_ops_def process_queue.simps [of mok 0]
          handle_op_def op_state_def state_op_def set_op_def relock_def assms(2) no_op_def fun_upd_def)
        (simp add: fun_eq_iff)
    from thread_locks [OF _ this] show ?thesis
      using 2 assms(1) by (simp add: turns_def state_run_def)
  next
    case 3
    have "call_step C_state (s_pc (state_run th w w' 2), s_client (state_run th w w' 2)) =
        Ret () (s_pc (state_run th w w' 3), s_client (state_run th w w' 3))"
      by (simp add: state_run_def new_client_def set_op_def state_op_def no_op_def fun_upd_def set_none_def
          shrink_queue_def relock_def)
        (simp add: fun_eq_iff)
    from caller_locks [OF this] show ?thesis using 3 by (simp add: turns_def state_run_def)
  next
    case 4
    show ?thesis
    proof (cases "even i")
      case True
      have "call_step C_state (s_pc (state_run th w w' i), s_client (state_run th w w' i)) =
          Ret () (s_pc (state_run th w w' i), s_client (state_run th w w' i))"
        using 4 by (simp add: state_run_def)
      from caller_locks [OF this] show ?thesis using 4 True by (simp add: turns_def state_run_def)
    next
      case False
      have "pg_thread_main_round n x gs mok (s_client (state_run th w w' i), s_thread (state_run th w w' i), s_world (state_run th w w' i)) =
          Ret () (s_client (state_run th w w' i), s_thread (state_run th w w' i), s_world (state_run th w w' i))"
        using 4 by (simp add: state_run_def pg_thread_main_round_def thread_ops_def new_client_def)
      from thread_locks [OF _ this] show ?thesis using 4 False assms(1) by (simp add: turns_def state_run_def)
    qed
  qed
qed

definition demo_thread :: pg_thread where
  "demo_thread = pg_thread_main_start (\<lambda>_. 0) (\<lambda>_. PG_THREAD_STOPPED) None"

theorem thread_call_returns_witness:
  "\<exists>f. is_run 0 demo_ext no_graphs True C_state turns f \<and> fair turns \<and> s_pc (f 0) = Enqueue \<and> (\<exists>i r. s_pc (f i) = Done r)"
proof -
  have th: "\<not> th_returned demo_thread" by (simp add: demo_thread_def pg_thread_main_start_def)
  have start: "s_pc (state_run demo_thread demo_world demo_world 0) = Enqueue"
      "ready (s_client (state_run demo_thread demo_world demo_world 0)) (s_thread (state_run demo_thread demo_world demo_world 0))"
      "room_for C_state (s_thread (state_run demo_thread demo_world demo_world 0))"
    using th by (simp_all add: state_run_def ready_def room_for_def new_client_def harmless_def PG_THREAD_MAX_OP_def)
  note run = state_run_is_run [OF th poll_no_graphs, of 0 demo_ext True demo_world]
  from thread_call_returns [OF run turns_fair start] run turns_fair start(1) show ?thesis by blast
qed

text \<open>The phases of a call that adds a graph to a thread without a free slot.\<close>

definition full :: "pg_thread \<Rightarrow> bool" where
  "full th \<longleftrightarrow> th_last_graph th = PG_STACK_BLOCK_SIZE \<and> st_len (th_free_graph th) = 0 \<and> \<not> th_returned th"

definition full_before :: "sys \<Rightarrow> bool" where
  "full_before s \<longleftrightarrow> full (s_thread s) \<and> s_pc s = Enqueue \<and> \<not> is_queue_locked (s_client s) \<and>
     idle (s_client s) (queue_size (s_client s)) \<and> queue_size (s_client s) + 1 < PG_THREAD_MAX_OP"

definition full_asked :: "nat \<Rightarrow> sys \<Rightarrow> bool" where
  "full_asked j s \<longleftrightarrow> full (s_thread s) \<and> s_pc s = Wait j \<and> \<not> is_queue_locked (s_client s) \<and>
     queue_size (s_client s) = Suc j \<and> idle (s_client s) j \<and> t_op (queue (s_client s) j) = PG_THREAD_ADD_GRAPH"

definition stuck :: "sys \<Rightarrow> bool" where
  "stuck s \<longleftrightarrow> is_queue_locked (s_client s) \<and> \<not> is_done (s_pc s)"

lemma full_poll: "thread_poll n x gs mok (th, w) = Ret () (th', w') \<Longrightarrow> full th' = full th"
  using thread_poll_keeps [of n x gs mok th w th' w'] by (simp add: full_def)

lemma full_before_step:
  assumes "sys_step n x gs mok (C_add_graph g) k s s'" and "full_before s"
  shows "full_before s' \<or> (\<exists>j. full_asked j s')" and "k = Caller_locks \<Longrightarrow> \<exists>j. full_asked j s'"
proof -
  have caller: "\<exists>j. full_asked j (s\<lparr>s_pc := pc, s_client := cl\<rparr>)"
    if "call_step (C_add_graph g) (s_pc s, s_client s) = Ret () (pc, cl)" for pc cl
    using that assms(2)
    by (auto simp: full_before_def full_asked_def enqueue_def idle_def Let_def split: if_splits)
  then show "k = Caller_locks \<Longrightarrow> \<exists>j. full_asked j s'" using assms(1) by (auto elim!: sys_stepE)
  have b: "\<not> is_queue_locked (s_client s)" "idle (s_client s) (queue_size (s_client s))"
    using assms(2) by (simp_all add: full_before_def)
  show "full_before s' \<or> (\<exists>j. full_asked j s')"
    using assms(1)
  proof cases
    case (thread_locks cl th w)
    then show ?thesis
      using round_idle [OF thread_locks(4) b] assms(2) full_poll [of n x gs mok "s_thread s" "s_world s" th w]
      by (auto simp: full_before_def)
  next
    case (thread_misses th w)
    then show ?thesis using full_poll [OF thread_misses(5)] assms(2) by (simp add: full_before_def)
  qed (use assms(2) caller in auto)
qed

lemma full_asked_step:
  assumes "sys_step n x gs mok (C_add_graph g) k s s'" and "full_asked j s"
  shows "full_asked j s' \<or> stuck s'" and "k = Thread_locks \<Longrightarrow> stuck s'"
proof -
  let ?cl = "(s_client s)\<lparr>is_queue_locked := True\<rparr>"
  have a: "st_len (th_free_graph (s_thread s)) = 0" "th_last_graph (s_thread s) = PG_STACK_BLOCK_SIZE"
      "\<not> th_returned (s_thread s)" "\<not> is_queue_locked (s_client s)" "queue_size (s_client s) = Suc j"
      "t_op (queue (s_client s) j) = PG_THREAD_ADD_GRAPH" "s_pc s = Wait j"
    using assms(2) by (simp_all add: full_asked_def full_def)
  have "\<exists>cl'. process_queue mok j (?cl, s_thread s) = Ret Continue (cl', s_thread s) \<and> is_queue_locked cl'"
    using a by (subst process_queue.simps) (simp add: handle_op_def op_add_graph_def stack_pop_def)
  then have round: "is_queue_locked cl"
    if "pg_thread_main_round n x gs mok (s_client s, s_thread s, s_world s) = Ret () (cl, th, w)" for cl th w
    using that a by (auto simp: pg_thread_main_round_def thread_ops_def)
  show thread: "stuck s'" if "k = Thread_locks"
    using assms(1) that a(3,7) round by (auto simp: stuck_def elim!: sys_stepE)
  show "full_asked j s' \<or> stuck s'"
    using assms(1)
  proof cases
    case (thread_misses th w)
    then show ?thesis using full_poll [OF thread_misses(5)] assms(2) by (simp add: full_asked_def)
  next
    case (caller_locks pc cl)
    then have "pc = Wait j \<and> cl = s_client s" using a by simp
    then show ?thesis using assms(2) caller_locks(2) by (simp add: full_asked_def)
  qed (use assms(2) thread in auto)
qed

lemma stuck_step:
  assumes "sys_step n x gs mok c k s s'" and "stuck s" shows "stuck s' \<and> s_client s' = s_client s"
  using assms(1)
proof cases
  case (thread_locks cl th w)
  then show ?thesis using round_locked [OF thread_locks(4)] assms(2) by (simp add: stuck_def)
next
  case (caller_locks pc cl)
  moreover have "pc = s_pc s \<and> cl = s_client s"
    using caller_locks(3) assms(2) by (cases "s_pc s") (simp_all add: stuck_def)
  ultimately show ?thesis using assms(2) by (simp add: stuck_def)
qed (use assms(2) in \<open>auto simp: stuck_def\<close>)

text \<open>
  C7. One graph too many locks a thread up. A thread that has 126 graphs and no free slot answers
  a request to add another one and goes on without releasing the lock of its queue: the caller
  never gets the answer, in no run of the two, and when both get their turns again and again
  there is a time from which on the queue is locked and unchanged for ever.
\<close>
theorem thread_full_deadlock:
  assumes "is_run n x gs mok (C_add_graph g) k f" and "fair k" and "s_pc (f 0) = Enqueue"
    and "\<not> is_queue_locked (s_client (f 0))" and "\<not> th_returned (s_thread (f 0))"
    and "\<forall>j < queue_size (s_client (f 0)). t_op (queue (s_client (f 0)) j) = PG_THREAD_NONE"
    and "queue_size (s_client (f 0)) + 1 < PG_THREAD_MAX_OP"
    and "th_last_graph (s_thread (f 0)) = PG_STACK_BLOCK_SIZE" and "stack_len (th_free_graph (s_thread (f 0))) = 0"
  shows "(\<forall>i r. s_pc (f i) \<noteq> Done r) \<and>
    (\<exists>i. \<forall>j \<ge> i. is_queue_locked (s_client (f j)) \<and> s_client (f j) = s_client (f i))"
proof -
  have fair: "\<exists>j \<ge> i. k j = Thread_locks" "\<exists>j \<ge> i. k j = Caller_locks" for i
    using assms(2) unfolding fair_def by blast+
  have start: "full_before (f 0)"
    using assms(3-9) by (simp add: full_before_def full_def idle_def stack_len_def)
  let ?I = "\<lambda>s. full_before s \<or> (\<exists>j. full_asked j s) \<or> stuck s"
  have inv: "sys_step n x gs mok (C_add_graph g) k s s' \<Longrightarrow> ?I s \<Longrightarrow> ?I s'" for k s s'
    by (elim disjE exE) (use full_before_step(1) full_asked_step(1) stuck_step in \<open>metis\<close>)+
  have "?I (f i)" for i
    by (rule run_invariant [where I = ?I and i = 0, OF assms(1)]) (use start inv in \<open>simp, metis, simp\<close>)
  moreover have "?I s \<Longrightarrow> \<not> is_done (s_pc s)" for s by (auto simp: full_before_def full_asked_def stuck_def)
  ultimately have "\<forall>i r. s_pc (f i) \<noteq> Done r" by (metis is_done.simps(1))
  moreover have "\<exists>i > 0. \<exists>j. full_asked j (f i)"
    by (rule run_leads_to [where I = full_before and a = Caller_locks, OF assms(1) start])
      (use full_before_step fair(2) in blast)+
  then obtain i j where asked: "full_asked j (f i)" by blast
  have "\<exists>m > i. stuck (f m)"
    by (rule run_leads_to [where I = "full_asked j" and a = Thread_locks, OF assms(1) asked])
      (use full_asked_step fair(1) in blast)+
  then obtain m where m: "stuck (f m)" by blast
  have "stuck (f l) \<and> s_client (f l) = s_client (f m)" if "m \<le> l" for l
    by (rule run_invariant [where I = "\<lambda>s. stuck s \<and> s_client s = s_client (f m)" and i = m, OF assms(1)])
      (use m stuck_step that in \<open>simp, metis, simp\<close>)
  ultimately show ?thesis unfolding stuck_def by blast
qed

definition full_thread :: pg_thread where
  "full_thread = demo_thread\<lparr>th_last_graph := PG_STACK_BLOCK_SIZE\<rparr>"

definition full_run :: "nat \<Rightarrow> sys" where
  "full_run i =
     (let sys = \<lambda>pc cl. \<lparr>s_pc = pc, s_client = cl, s_thread = full_thread, s_world = demo_world\<rparr>;
          one = new_client\<lparr>queue_size := 1\<rparr>;
          add = \<lambda>p a. (\<lambda>_. no_op)(0 := state_op p a) in
      if i = 0 then sys Enqueue new_client
      else if i = 1 then sys (Wait 0) (one\<lparr>queue := add PG_THREAD_ADD_GRAPH (Arg_ptr (P_graph 7))\<rparr>)
      else sys (Wait 0) (one\<lparr>queue := add PG_THREAD_ANSWER (Arg_i32 (-1)), is_queue_locked := True\<rparr>))"

lemma full_run_is_run: "is_run n x no_graphs mok (C_add_graph 7) turns full_run"
  unfolding is_run_def
proof
  fix i :: nat
  have th: "\<not> th_returned full_thread" by (simp add: full_thread_def demo_thread_def pg_thread_main_start_def)
  consider "i = 0" | "i = 1" | "2 \<le> i" by linarith
  then show "sys_step n x no_graphs mok (C_add_graph 7) (turns i) (full_run i) (full_run (Suc i))"
  proof cases
    case 1
    have "call_step (C_add_graph 7) (s_pc (full_run 0), s_client (full_run 0)) =
        Ret () (s_pc (full_run 1), s_client (full_run 1))"
      by (simp add: full_run_def new_client_def enqueue_def PG_THREAD_MAX_OP_def set_op_def state_op_def no_op_def
          fun_upd_def)
    from caller_locks [OF this] show ?thesis using 1 by (simp add: turns_def full_run_def)
  next
    case 2
    have "pg_thread_main_round n x no_graphs mok (s_client (full_run 1), s_thread (full_run 1), s_world (full_run 1)) =
        Ret () (s_client (full_run 2), s_thread (full_run 2), s_world (full_run 2))"
      by (simp add: full_run_def new_client_def pg_thread_main_round_def thread_ops_def process_queue.simps [of mok 0]
          handle_op_def op_add_graph_def state_op_def set_op_def no_op_def fun_upd_def full_thread_def demo_thread_def
          pg_thread_main_start_def stack_pop_def STACK_CREATE_def)
        (simp add: fun_eq_iff)
    from thread_locks [OF _ this] show ?thesis using 2 th by (simp add: turns_def full_run_def)
  next
    case 3
    show ?thesis
    proof (cases "even i")
      case True
      have "call_step (C_add_graph 7) (s_pc (full_run i), s_client (full_run i)) =
          Ret () (s_pc (full_run i), s_client (full_run i))"
        using 3 by (simp add: full_run_def)
      from caller_locks [OF this] show ?thesis using 3 True by (simp add: turns_def full_run_def)
    next
      case False
      have "pg_thread_main_round n x no_graphs mok (s_client (full_run i), s_thread (full_run i), s_world (full_run i)) =
          Ret () (s_client (full_run i), s_thread (full_run i), s_world (full_run i))"
        using 3 by (simp add: full_run_def pg_thread_main_round_def thread_ops_def poll_no_graphs)
      from thread_locks [OF _ this] show ?thesis using 3 False th by (simp add: turns_def full_run_def)
    qed
  qed
qed

theorem thread_full_deadlock_witness:
  "\<exists>f. is_run 0 demo_ext no_graphs True (C_add_graph 7) turns f \<and> s_pc (f 0) = Enqueue \<and> (\<forall>i r. s_pc (f i) \<noteq> Done r)"
proof -
  have start: "s_pc (full_run 0) = Enqueue" "\<not> is_queue_locked (s_client (full_run 0))"
      "\<not> th_returned (s_thread (full_run 0))"
      "\<forall>j < queue_size (s_client (full_run 0)). t_op (queue (s_client (full_run 0)) j) = PG_THREAD_NONE"
      "queue_size (s_client (full_run 0)) + 1 < PG_THREAD_MAX_OP"
      "th_last_graph (s_thread (full_run 0)) = PG_STACK_BLOCK_SIZE"
      "stack_len (th_free_graph (s_thread (full_run 0))) = 0"
    by (simp_all add: full_run_def new_client_def PG_THREAD_MAX_OP_def full_thread_def demo_thread_def
        pg_thread_main_start_def stack_len_def STACK_CREATE_def)
  note run = full_run_is_run [of 0 demo_ext True]
  from thread_full_deadlock [OF run turns_fair start] run start(1) show ?thesis by blast
qed

text \<open>The phases of a call for the state on a queue that holds handled requests only.\<close>

definition blank :: "pg_thread_client \<Rightarrow> nat \<Rightarrow> bool" where
  "blank cl m \<longleftrightarrow> (\<forall>j < m. t_op (queue cl j) = PG_THREAD_NONE)"

definition state_phase :: "sys \<Rightarrow> bool" where
  "state_phase s \<longleftrightarrow> \<not> th_returned (s_thread s) \<and> \<not> is_queue_locked (s_client s) \<and>
     (case s_pc s of
        Enqueue \<Rightarrow> blank (s_client s) (queue_size (s_client s))
      | Wait j \<Rightarrow> queue_size (s_client s) = Suc j \<and> blank (s_client s) j \<and>
          t_op (queue (s_client s) j) \<in> {PG_THREAD_STATE, PG_THREAD_ANSWER}
      | Done r \<Rightarrow> queue_size (s_client s) = 0)"

lemma blank_idle: "blank cl m \<Longrightarrow> idle cl m"
  by (simp add: blank_def idle_def)

lemma shrunk_blank: "(\<forall>j < m. t_op (q j) = PG_THREAD_NONE) \<Longrightarrow> shrunk q m = 0"
  by (induction m) simp_all

lemma round_state:
  assumes run: "pg_thread_main_round n x gs mok (cl, th, w) = Ret () (cl', th', w')" and "\<not> is_queue_locked cl"
    and "queue_size cl = Suc j" and "blank cl j" and op: "t_op (queue cl j) \<in> {PG_THREAD_STATE, PG_THREAD_ANSWER}"
  shows "\<not> is_queue_locked cl'" and "queue_size cl' = Suc j" and "blank cl' j"
    and "t_op (queue cl' j) = PG_THREAD_ANSWER" and "th_returned th' = th_returned th"
proof -
  let ?cl = "cl\<lparr>is_queue_locked := True\<rparr>"
  obtain cl1 where h: "handle_op mok j (?cl, th) = Ret Break (cl1, th)" "queue_size cl1 = Suc j" "blank cl1 j"
      "t_op (queue cl1 j) = PG_THREAD_ANSWER"
    using op assms(3,4) by (auto simp: handle_op_def op_state_def blank_def)
  have "thread_ops mok (cl, th) = Ret True (relock cl1, th)"
    using process_top [OF h(1) blank_idle [OF h(3)]] assms(2,3) by (simp add: thread_ops_def)
  then obtain w2 where "thread_poll n x gs mok (th, w) = Ret () (th', w2)" "cl' = relock cl1"
    using run by (auto simp: pg_thread_main_round_def split: out.splits)
  then show "\<not> is_queue_locked cl'" "queue_size cl' = Suc j" "blank cl' j" "t_op (queue cl' j) = PG_THREAD_ANSWER"
      "th_returned th' = th_returned th"
    using thread_poll_keeps [of n x gs mok th w th' w2] h(2-4) by (simp_all add: blank_def)
qed

lemma state_phase_round:
  assumes "pg_thread_main_round n x gs mok (s_client s, s_thread s, s_world s) = Ret () (cl, th, w)" and "state_phase s"
  shows "state_phase (s\<lparr>s_client := cl, s_thread := th, s_world := w\<rparr>)"
proof -
  have free: "\<not> is_queue_locked (s_client s)" and ret: "\<not> th_returned (s_thread s)"
    using assms(2) by (simp_all add: state_phase_def)
  show ?thesis
  proof (cases "s_pc s")
    case Enqueue
    then have "idle (s_client s) (queue_size (s_client s))" using assms(2) by (simp add: state_phase_def blank_idle)
    from round_idle [OF assms(1) free this] show ?thesis
      using assms(2) thread_poll_keeps [of n x gs mok "s_thread s" "s_world s" th w]
      by (auto simp: state_phase_def split: pc.splits)
  next
    case (Wait j)
    have q: "queue_size (s_client s) = Suc j" "blank (s_client s) j"
        "t_op (queue (s_client s) j) \<in> {PG_THREAD_STATE, PG_THREAD_ANSWER}"
      using assms(2) Wait by (simp_all add: state_phase_def)
    from round_state [OF assms(1) free q] show ?thesis using Wait ret by (simp add: state_phase_def)
  next
    case (Done r)
    then have "queue_size (s_client s) = 0" using assms(2) by (simp add: state_phase_def)
    then show ?thesis using round_empty [OF assms(1) free] assms(2) by simp
  qed
qed

lemma state_phase_call:
  assumes "call_step C_state (s_pc s, s_client s) = Ret () (pc, cl)" and "state_phase s"
  shows "state_phase (s\<lparr>s_pc := pc, s_client := cl\<rparr>)"
proof (cases "s_pc s")
  case Enqueue
  then show ?thesis
    using assms by (auto simp: state_phase_def enqueue_def blank_def Let_def split: if_splits)
next
  case (Wait j)
  have q: "queue_size (s_client s) = Suc j" "blank (s_client s) j"
    and free: "\<not> is_queue_locked (s_client s)" and ret: "\<not> th_returned (s_thread s)"
    using assms(2) Wait by (simp_all add: state_phase_def)
  have shrunk: "shrunk ((queue (s_client s))(j := (queue (s_client s) j)\<lparr>t_op := PG_THREAD_NONE\<rparr>)) (Suc j) = 0"
    using q(2) by (intro shrunk_blank) (auto simp: blank_def less_Suc_eq)
  show ?thesis
  proof (cases "t_op (queue (s_client s) j) = PG_THREAD_ANSWER")
    case True
    then obtain r where "pc = Done r" "cl = relock (shrink_queue (set_none j (s_client s)))"
      using assms(1) Wait free by (auto split: option.splits)
    then show ?thesis
      using shrunk ret q(1) by (simp add: state_phase_def set_none_def shrink_queue_def Let_def del: shrunk.simps)
  next
    case False
    then have "pc = s_pc s \<and> cl = s_client s" using assms(1) Wait free by (auto split: if_splits)
    then show ?thesis using assms(2) by simp
  qed
next
  case (Done r)
  then have "pc = s_pc s \<and> cl = s_client s" using assms(1) by simp
  then show ?thesis using assms(2) by simp
qed

lemma state_phase_step:
  assumes "sys_step n x gs mok C_state k s s'" and "state_phase s"
  shows "state_phase s'"
  using assms(1)
proof cases
  case (thread_locks cl th w)
  show ?thesis unfolding thread_locks(2) by (rule state_phase_round [OF thread_locks(4) assms(2)])
next
  case (thread_misses th w)
  then show ?thesis
    using thread_poll_keeps [OF thread_misses(5)] assms(2) by (cases "s_pc s") (simp_all add: state_phase_def)
next
  case (caller_locks pc cl)
  show ?thesis unfolding caller_locks(2) by (rule state_phase_call [OF caller_locks(3) assms(2)])
qed (use assms(2) in simp_all)

lemma state_done_step:
  assumes "sys_step n x gs mok C_state k s s'" and "state_phase s" and d: "is_done (s_pc s)"
  shows "s' = s"
  using assms(1)
proof cases
  case (thread_locks cl th w)
  have "\<not> is_queue_locked (s_client s)" "queue_size (s_client s) = 0"
    using assms(2) d by (cases "s_pc s"; simp add: state_phase_def)+
  then show ?thesis using round_empty [OF thread_locks(4)] thread_locks(2) by simp
next
  case (caller_locks pc cl)
  then show ?thesis using d by (cases "s_pc s") simp_all
qed (use d in simp_all)

text \<open>
  An accumulator that counts the times it is polled, and a running thread that polls it. The world
  after \<open>k\<close> polls is \<open>counting_world k\<close>: 32 polls a round.
\<close>

definition counting :: "nat \<Rightarrow> pg_brick" where
  "counting k = \<lparr>burst = Some accumulator_burst_fn, poll = Some accumulator_poll_fn, ops = 12, refcount = 1,
     brick_name = ''counter'', brick_type = PG_DIPOLE, sides = (\<lambda>_. zero_side\<lparr>side_max := 1\<rparr>),
     priv_state = P_accumulator \<lparr>acc_output = Some PG_EAST_SIDE, acc_len = (\<lambda>_. 0),
       acc_poll_count = (\<lambda>_. 0)(PG_WEST_SIDE := k), acc_poll_min = 1000\<rparr>\<rparr>"

definition counting_world :: "nat \<Rightarrow> world" where
  "counting_world k = demo_world\<lparr>bricks := [0 \<mapsto> counting k], brick_next := 1\<rparr>"

definition counting_graph :: "nat \<Rightarrow> pg_graph" where
  "counting_graph i = \<lparr>gr_name = ''g'', gr_pollable = [0], gr_all = [(''counter'', 0)]\<rparr>"

definition running_thread :: pg_thread where
  "running_thread = demo_thread\<lparr>th_state := PG_THREAD_RUNNING, th_last_graph := 1, th_started := (\<lambda>_. PG_THREAD_RUNNING)\<rparr>"

lemma poll_counting:
  assumes "k < 1000"
  shows "poll_graph n x counting_graph mok 0 (running_thread, counting_world k) = Ret () (running_thread, counting_world (Suc k))"
proof -
  have "errp demo_world = None" by (simp add: demo_world_def)
  then show ?thesis
    using assms by (simp add: poll_graph_def pg_graph_poll_def counting_graph_def running_thread_def demo_thread_def
        pg_thread_main_start_def pg_brick_poll_def run_poll_def get_brick_def counting_world_def counting_def accumulator_poll_def
        accumulator_try_poll_side_def get_state_def upd_priv_def upd_brick_def inc16_def Let_def)
qed

lemma thread_poll_counting:
  assumes "k + 32 \<le> 1000"
  shows "thread_poll n x counting_graph mok (running_thread, counting_world k) = Ret () (running_thread, counting_world (k + 32))"
proof -
  have one: "th_last_graph running_thread = 1" "th_state running_thread = PG_THREAD_RUNNING"
    by (simp_all add: running_thread_def)
  have "ofold (\<lambda>j s. ofold (poll_graph n x counting_graph mok) [0..<th_last_graph (fst s)] s) js
      (running_thread, counting_world k) = Ret () (running_thread, counting_world (k + length js))"
    if "k + length js \<le> 1000" for js :: "nat list" and k
    using that by (induction js arbitrary: k) (simp_all add: one poll_counting)
  from this [of k "[0..<32]"] show ?thesis using assms by (simp add: thread_poll_def one)
qed



end
