(* ===== verification/Spec2Isabelle.thy ===== *)
theory Spec2Isabelle
  imports PG_Hub PG_Collect PG_Stack PG_Udp_Filter PG_Accumulator PG_Queue PG_Rxtx PG_Packetsgen PG_Switch
    PG_Antispoof PG_Firewall PG_Pmtud PG_Nic PG_Tap PG_Vhost PG_Vtep PG_Print PG_Registry PG_Api PG_Graph PG_Thread
begin

text \<open>
  Packetgraph is a C library that builds network functions as graphs of bricks. A brick has a
  west and an east side with edges to other bricks. It gets bursts, arrays of up to 64 packets
  with a mask of the valid ones, on one side and passes them on through its edges; bricks at the
  border of the graph are polled for packets. A program makes bricks, links them, collects them
  in graphs, and polls the graphs itself or gives them to threads. File names below are
  relative to the root of the C sources, \<open>src/\<close>.

  \<^bold>\<open>State and effects.\<close> A C function is a HOL function that ends in an outcome (\<open>PG_Prelude\<close>):
  \<open>Ret\<close> with a value and a new state, \<open>Abort\<close> where the C code asserts, uses a null or freed
  pointer or leaves an array, and \<open>Diverge\<close> when the fuel of a loop is used up. \<open>obind\<close> and \<open>ofold\<close>
  are sequence and loop; \<open>ores\<close> is partial and \<open>oret\<close> total correctness. The state is the
  \<open>world\<close> (\<open>PG_World\<close>): bricks on a heap by address, with reference counts, sides, edges and their
  private state; packets, as chains of segments with 16-bit reference counts, and their buffers, so
  that clones share bytes; arrays of packets as objects; the error slot. Machine integers are words where they wrap.

  \<^bold>\<open>Parameters.\<close> DPDK, librte_vhost, NPF, libpcap, the operating system and the callbacks of the
  user are functions of the record \<open>ext\<close>; they act on the packet store and on an opaque state of
  the outside. The order in which GLib walks over a hash table is the parameter \<open>ord\<close> of the
  graph functions; the cores of the machine are the record \<open>lcores\<close> of the thread functions.
  What a property needs of them is a hypothesis in its statement.

  \<^bold>\<open>Theories.\<close>
  \<^item> \<open>PG_Prelude\<close>, \<open>PG_Bitmask\<close>: outcomes, sides, words; masks and byte order
    (\<open>src/utils/bitmask.h\<close>). Walking over a mask visits its bits in order.
  \<^item> \<open>PG_Mac_Table\<close>: \<open>src/utils/mac-table.h\<close> and its iterator. The locale \<open>mac_map\<close> is the
    contract of a map of addresses; the two-level table with its masks fulfils it. Where the
    iterator leaves out entries and where a failed allocation leaves a trap is shown as well.
  \<^item> \<open>PG_Stack\<close>: \<open>src/utils/stack.h\<close>, an interpretation of the locale \<open>lifo\<close>.
  \<^item> \<open>PG_Packets\<close>, \<open>PG_Net\<close>: \<open>src/packets.c\<close>, \<open>src/packet.c\<close>, \<open>src/utils/network.h\<close>,
    \<open>src/utils/ip.h\<close>: references and packing of bursts, header walks, checksums.
  \<^item> \<open>PG_Brick\<close>, \<open>PG_Topology\<close>: \<open>src/brick.c\<close>, \<open>src/brick-int.h\<close>, \<open>src/utils/config.c\<close>. The
    abstract state is a partial matching of ports; \<open>wf_world\<close> says that a world is in order and
    its links form a matching. The locale \<open>brick_contract\<close> states what the operations of a brick
    type owe to brick management, and in it linking and unlinking are shown to refine adding
    and removing pairs of ports.
  \<^item> \<open>PG_Flow\<close>: the edges of the data path. The locale \<open>bursts\<close> is a burst function that keeps
    links and the invariants of private states (\<open>safe\<close>); handlers are written over any such
    function and shown to keep them too, with the rules of \<open>safe_intros\<close>.
  \<^item> One theory for each brick: \<open>PG_Relay\<close> (\<open>src/nop.c\<close>, \<open>src/diode.c\<close>, \<open>src/fail.c\<close>,
    \<open>src/user-dipole.c\<close>), \<open>PG_Hub\<close>, \<open>PG_Collect\<close>, \<open>PG_Udp_Filter\<close>, \<open>PG_Accumulator\<close>, \<open>PG_Queue\<close>,
    \<open>PG_Rxtx\<close>, \<open>PG_Packetsgen\<close>, \<open>PG_Switch\<close>, \<open>PG_Antispoof\<close>, \<open>PG_Firewall\<close>, \<open>PG_Pmtud\<close>, \<open>PG_Nic\<close>,
    \<open>PG_Tap\<close>, \<open>PG_Vhost\<close>, \<open>PG_Vtep\<close> (both address families of \<open>src/vtep-impl.h\<close>), \<open>PG_Print\<close> with
    the text output of \<open>PG_Printer\<close>. Each has the handlers of its file under their C names and
    what they do with the packets.
  \<^item> \<open>PG_Registry\<close>: \<open>pg_brick_burst\<close> and \<open>pg_brick_poll\<close> over the handlers of all bricks, and the
    interpretations of \<open>bursts\<close>, \<open>brick_contract\<close> and \<open>brick_library\<close>, the contract of creation,
    on the list of all brick types.
  \<^item> \<open>PG_Api\<close>: the step relation \<open>api_step\<close> of a program that makes, links, unlinks, destroys,
    bursts and polls bricks; a step has the call as its label. \<open>call_ok\<close> names the calls that keep
    a world in order: configurations of the kind of brick, no unlinking with an old error
    set, and no destruction of a brick whose unlinking fails. Every world such calls reach from the
    empty one is in order; what a destruction with a failing unlinking does is shown as well.
  \<^item> \<open>PG_Graph\<close>: \<open>src/graph.c\<close> and the dot output. Exploring ends and finds the connected bricks.
  \<^item> \<open>PG_Thread\<close>: \<open>src/thread.c\<close>, \<open>src/thread-impl.h\<close>. The step relation \<open>sys_step\<close> interleaves a
    thread with one caller; a section with the lock held is one step. Calls return in fair
    runs, and two ways in which a thread stops working are shown.

  \<^bold>\<open>Fuel.\<close> \<open>pg_brick_burst\<close> has the depth of nested bursts as fuel, because links may form a circle,
  around which the C code recurses without end. What is shown of \<open>pg_brick_burst\<close> holds for every
  fuel, of every burst that returns. Exploring needs one more than the number of bricks ever made,
  which is shown to be enough. Loops over the edges of a brick take their fuel from the size of
  the brick, reading from a tap and learning in a switch take it from the fuel of the burst or
  poll, as does copying the segments of a packet that is dumped. Printing a chain of headers takes
  it from an argument; a chain that prints without end is shown to use up every fuel. Other loops
  are structural or have a termination proof. The results on threads are about infinite runs:
  \<open>fair\<close> asks that both sides get the lock again and again, and a run has no step out
  of an aborting round.

  \<^bold>\<open>Not modelled.\<close> \<open>src/lifecycle.c\<close>, \<open>src/utils/mempool.c\<close> and \<open>src/seccomp.c\<close> only set up DPDK, GLib
  and the kernel. \<open>src/utils/malloc.c\<close> redirects allocation, which is a parameter here. The
  benchmark, test and virtual machine helpers (\<open>src/utils/bench.c\<close>, \<open>src/utils/tests.c\<close>,
  \<open>src/utils/qemu.c\<close>) belong to the tests. \<open>src/npf\<close> holds copies of foreign libraries; NPF itself
  is not in the tree. Of \<open>src/utils/errors.c\<close> the place of an error and the formatting of its text,
  of \<open>src/utils/mac.c\<close> and \<open>src/utils/ip.h\<close> parsing and printing of addresses by the C library are
  left out. \<open>pg_ip_fragment_new\<close> has no definition in the sources. Several callers of one thread
  at a time, and data races between threads that share bricks, which the library leaves to its
  users, are outside of the model of threads; so is the memory order of the processor.
\<close>

end
